(* ===== verification/Go_Prelude.thy ===== *)
theory Go_Prelude
  imports Complex_Main "HOL-Library.Word" "HOL-Library.Char_ord"
begin

text \<open>
  What every part of the model uses of the Go language and its standard library, and the
  generic lemmas the components share.

  \<^item> Go's \<open>int\<close> is a 64-bit word and \<open>int32\<close> a 32-bit word, read as two's complement by
    \<open>sint\<close>; the conversions \<open>int(x)\<close> and \<open>int32(x)\<close> are \<open>to_int\<close> and \<open>to_int32\<close>.
  \<^item> A \<open>uuid.UUID\<close> is its sixteen bytes, a 128-bit word; \<open>uuid.Nil\<close> is 0.
  \<^item> A Go string is its bytes, a \<open>char list\<close>; instants and durations count nanoseconds.
  \<^item> Errors are values of the datatype \<open>err\<close>; a function that returns \<open>error\<close> returns
    \<open>err option\<close>, one that returns \<open>(T, error)\<close> a sum \<open>err + 'a\<close>.
\<close>

named_theorems frame_simps \<open>what an operation leaves unchanged\<close>
named_theorems decode_simps \<open>equations that evaluate a JSON decoder\<close>

type_synonym uuid = "128 word"
type_synonym goint = "64 word"
type_synonym int32 = "32 word"
type_synonym time = int
type_synonym duration = int

section \<open>Errors\<close>

datatype grpc_code =
    OK | CanceledCode | Unknown | InvalidArgument | DeadlineExceededCode | NotFound
  | AlreadyExists | PermissionDenied | ResourceExhausted | FailedPrecondition | Aborted
  | OutOfRange | Unimplemented | Internal | Unavailable | DataLoss | Unauthenticated

fun code_name :: "grpc_code \<Rightarrow> string" where
  "code_name OK = ''OK''"
| "code_name CanceledCode = ''Canceled''"
| "code_name Unknown = ''Unknown''"
| "code_name InvalidArgument = ''InvalidArgument''"
| "code_name DeadlineExceededCode = ''DeadlineExceeded''"
| "code_name NotFound = ''NotFound''"
| "code_name AlreadyExists = ''AlreadyExists''"
| "code_name PermissionDenied = ''PermissionDenied''"
| "code_name ResourceExhausted = ''ResourceExhausted''"
| "code_name FailedPrecondition = ''FailedPrecondition''"
| "code_name Aborted = ''Aborted''"
| "code_name OutOfRange = ''OutOfRange''"
| "code_name Unimplemented = ''Unimplemented''"
| "code_name Internal = ''Internal''"
| "code_name Unavailable = ''Unavailable''"
| "code_name DataLoss = ''DataLoss''"
| "code_name Unauthenticated = ''Unauthenticated''"

text \<open>
  \<open>Msg\<close> is \<open>errors.New\<close> and \<open>fmt.Errorf\<close> without \<open>%w\<close>; \<open>Wrap\<close> is \<open>fmt.Errorf\<close> with a
  prefix and \<open>%w\<close>; \<open>Join\<close> is \<open>errors.Join\<close> of two errors; \<open>Status\<close> is \<open>status.Error\<close>;
  \<open>Ext\<close> is an error made by a package outside the repository, known by its text only.
\<close>

datatype err =
    DeadlineExceeded
  | Canceled
  | ErrRecordNotFound
  | ErrOrderNotFound
  | Msg string
  | Wrap string err
  | Join err err
  | Status grpc_code string
  | Ext string

fun errors_Is :: "err \<Rightarrow> err \<Rightarrow> bool" where
  "errors_Is (Wrap m e) t = (Wrap m e = t \<or> errors_Is e t)"
| "errors_Is (Join a b) t = (Join a b = t \<or> errors_Is a t \<or> errors_Is b t)"
| "errors_Is e t = (e = t)"

fun err_text :: "err \<Rightarrow> string" where
  "err_text DeadlineExceeded = ''context deadline exceeded''"
| "err_text Canceled = ''context canceled''"
| "err_text ErrRecordNotFound = ''record not found''"
| "err_text ErrOrderNotFound = ''order not found''"
| "err_text (Msg m) = m"
| "err_text (Wrap m e) = m @ err_text e"
| "err_text (Join a b) = err_text a @ [CHR 0x0A] @ err_text b"
| "err_text (Status c m) = ''rpc error: code = '' @ code_name c @ '' desc = '' @ m"
| "err_text (Ext m) = m"

text \<open>\<open>status.Code\<close>: the code of the status in the chain of an error, or \<open>Unknown\<close>.\<close>

fun status_in :: "err \<Rightarrow> grpc_code option" where
  "status_in (Status c m) = Some c"
| "status_in (Wrap m e) = status_in e"
| "status_in (Join a b) = (case status_in a of Some c \<Rightarrow> Some c | None \<Rightarrow> status_in b)"
| "status_in e = None"

definition status_Code :: "err \<Rightarrow> grpc_code" where
  "status_Code e = (case status_in e of Some c \<Rightarrow> c | None \<Rightarrow> Unknown)"

lemma errors_Is_refl [simp]: "errors_Is e e"
  by (cases e) auto

section \<open>Integers\<close>

definition to_int :: "int32 \<Rightarrow> goint" where
  "to_int x = word_of_int (sint x)"

definition to_int32 :: "goint \<Rightarrow> int32" where
  "to_int32 x = word_of_int (sint x)"

lemma sint_of_int64:
  assumes "- (2 ^ 63) \<le> n" and "n < 2 ^ 63"
  shows "sint (word_of_int n :: goint) = n"
  using assms by (simp add: sint_sbintrunc' signed_take_bit_int_eq_self)

lemma sint_of_int32:
  assumes "- (2 ^ 31) \<le> n" and "n < 2 ^ 31"
  shows "sint (word_of_int n :: int32) = n"
  using assms by (simp add: sint_sbintrunc' signed_take_bit_int_eq_self)

lemma sint64_bounds: "- (2 ^ 63) \<le> sint (x :: goint)" "sint x < 2 ^ 63"
  using sint_ge [of x] sint_lt [of x] by simp_all

lemma sint64_numeral_bounds [simp]:
  "- 9223372036854775808 \<le> sint (x :: goint)" "sint x < 9223372036854775808"
  using sint64_bounds [of x] by simp_all

lemma sint32_bounds: "- (2 ^ 31) \<le> sint (x :: int32)" "sint x < 2 ^ 31"
  using sint_ge [of x] sint_lt [of x] by simp_all

lemma sint_to_int [simp]: "sint (to_int x) = sint x"
  unfolding to_int_def using sint32_bounds [of x] by (intro sint_of_int64) simp_all

lemma sint_to_int32:
  assumes "- (2 ^ 31) \<le> sint x" and "sint x < 2 ^ 31"
  shows "sint (to_int32 x) = sint x"
  unfolding to_int32_def using assms by (rule sint_of_int32)

lemma to_int32_to_int [simp]: "to_int32 (to_int x) = x"
  by (simp add: to_int32_def)

lemma to_int_to_int32:
  assumes "- (2 ^ 31) \<le> sint x" and "sint x < 2 ^ 31"
  shows "to_int (to_int32 x) = x"
  using assms by (simp add: to_int_def sint_to_int32)

lemma sint_minus64:
  assumes "- (2 ^ 63) \<le> sint a - sint b" and "sint a - sint b < 2 ^ 63"
  shows "sint (a - b :: goint) = sint a - sint b"
  using assms by (simp add: sint_word_diff signed_take_bit_int_eq_self)

lemma sint_plus64:
  assumes "- (2 ^ 63) \<le> sint a + sint b" and "sint a + sint b < 2 ^ 63"
  shows "sint (a + b :: goint) = sint a + sint b"
  using assms by (simp add: sint_word_add signed_take_bit_int_eq_self)

text \<open>The decimal text of an integer, as \<open>strconv.Itoa\<close> and \<open>%d\<close> write it.\<close>

fun digits :: "nat \<Rightarrow> string" where
  "digits n = (if n < 10 then [char_of (48 + n)] else digits (n div 10) @ [char_of (48 + n mod 10)])"

declare digits.simps [simp del]

definition itoa :: "int \<Rightarrow> string" where
  "itoa n = (if n < 0 then CHR ''-'' # digits (nat (- n)) else digits (nat n))"

section \<open>Sequencing of steps that may fail\<close>

text \<open>
  A step of the code that changes a state and may return an error is a function
  \<open>'s \<Rightarrow> err option \<times> 's\<close>. \<open>seq f g\<close> is
  \<open>if err := f(); err != nil { return err }; return g()\<close>.
\<close>

type_synonym 's act = "'s \<Rightarrow> err option \<times> 's"

definition seq :: "'s act \<Rightarrow> 's act \<Rightarrow> 's act" where
  "seq f g s = (case f s of (Some e, s') \<Rightarrow> (Some e, s') | (None, s') \<Rightarrow> g s')"

lemma seq_None_iff:
  "seq f g s = (None, s'') \<longleftrightarrow> (\<exists>s'. f s = (None, s') \<and> g s' = (None, s''))"
  by (auto simp: seq_def split: prod.splits option.splits)

lemma seq_NoneE [elim]:
  assumes "seq f g s = (None, s'')"
  obtains s' where "f s = (None, s')" and "g s' = (None, s'')"
  using assms by (auto simp: seq_None_iff)

lemma seq_snd:
  "snd (seq f g s) = (if fst (f s) = None then snd (g (snd (f s))) else snd (f s))"
  by (auto simp: seq_def split: prod.splits option.splits)

section \<open>Maps\<close>

lemma map_upd_Some_cases:
  "(m(k \<mapsto> v)) x = Some y \<longleftrightarrow> (x = k \<and> y = v) \<or> (x \<noteq> k \<and> m x = Some y)"
  by auto

end
