(* ===== verification/Go_Float.thy ===== *)
theory Go_Float
  imports Go_Prelude "HOL-Library.Log_Nat"
begin

text \<open>
  Go's \<open>float64\<close>: IEEE 754 binary64 values with round-to-nearest, ties to even. A value is
  NaN, an infinity with its sign, a zero with its sign, or a finite non-zero rational. Every
  operation computes the exact result and rounds it, so what the operations return is always
  a binary64 value.
\<close>

datatype float64 = NaN | Infty bool | Zero bool | Fin rat

section \<open>Rounding\<close>

text \<open>\<open>ilog2 x\<close> is the exponent of the leading bit of a positive rational.\<close>

definition pow2 :: "int \<Rightarrow> rat" where
  "pow2 e = (if 0 \<le> e then 2 ^ nat e else 1 / 2 ^ nat (- e))"

definition ilog2 :: "rat \<Rightarrow> int" where
  "ilog2 x = (case quotient_of x of (p, q) \<Rightarrow>
     let k = int (floorlog 2 (nat p)) - int (floorlog 2 (nat q))
     in if pow2 k \<le> x then k else k - 1)"

definition round_half_even :: "rat \<Rightarrow> int" where
  "round_half_even x =
     (let n = floor x; d = x - of_int n
      in if d < 1 / 2 then n else if 1 / 2 < d then n + 1 else if even n then n else n + 1)"

text \<open>
  The magnitude \<open>x > 0\<close> rounded to 53 significant bits, or to a multiple of \<open>2^-1074\<close> below
  the normal range; too large a magnitude becomes an infinity.
\<close>

definition round_mag :: "rat \<Rightarrow> rat" where
  "round_mag x = (let u = pow2 (max (ilog2 x - 52) (- 1074)) in of_int (round_half_even (x / u)) * u)"

definition signed_value :: "bool \<Rightarrow> rat \<Rightarrow> float64" where
  "signed_value neg m =
     (if m = 0 then Zero neg else if pow2 1024 \<le> m then Infty neg else Fin (if neg then - m else m))"

definition round64 :: "bool \<Rightarrow> rat \<Rightarrow> float64" where
  "round64 neg x = (if x = 0 then Zero neg else signed_value (x < 0) (round_mag \<bar>x\<bar>))"

section \<open>The operations the code uses\<close>

fun f_neg :: "float64 \<Rightarrow> bool" where
  "f_neg NaN = False"
| "f_neg (Infty n) = n"
| "f_neg (Zero n) = n"
| "f_neg (Fin r) = (r < 0)"

fun f_add :: "float64 \<Rightarrow> float64 \<Rightarrow> float64" where
  "f_add NaN y = NaN"
| "f_add x NaN = NaN"
| "f_add (Infty a) (Infty b) = (if a = b then Infty a else NaN)"
| "f_add (Infty a) y = Infty a"
| "f_add x (Infty b) = Infty b"
| "f_add (Zero a) (Zero b) = Zero (a \<and> b)"
| "f_add (Zero a) (Fin r) = Fin r"
| "f_add (Fin r) (Zero b) = Fin r"
| "f_add (Fin r) (Fin r') = round64 False (r + r')"

fun f_mul :: "float64 \<Rightarrow> float64 \<Rightarrow> float64" where
  "f_mul NaN y = NaN"
| "f_mul x NaN = NaN"
| "f_mul (Infty a) (Zero b) = NaN"
| "f_mul (Zero a) (Infty b) = NaN"
| "f_mul (Infty a) y = Infty (a \<noteq> f_neg y)"
| "f_mul x (Infty b) = Infty (f_neg x \<noteq> b)"
| "f_mul (Fin r) (Fin r') = round64 ((r < 0) \<noteq> (r' < 0)) (r * r')"
| "f_mul x y = Zero (f_neg x \<noteq> f_neg y)"

text \<open>The comparison \<open>x < y\<close> of Go: false when a side is NaN, and the two zeros are equal.\<close>

fun f_less :: "float64 \<Rightarrow> float64 \<Rightarrow> bool" where
  "f_less NaN y = False"
| "f_less x NaN = False"
| "f_less (Infty a) y = (a \<and> y \<noteq> Infty True)"
| "f_less x (Infty b) = (\<not> b)"
| "f_less (Zero a) (Zero b) = False"
| "f_less (Zero a) (Fin r) = (0 < r)"
| "f_less (Fin r) (Zero b) = (r < 0)"
| "f_less (Fin r) (Fin r') = (r < r')"

definition float64_of_int :: "goint \<Rightarrow> float64" where
  "float64_of_int n = round64 False (of_int (sint n))"

text \<open>A value that is at least 0: \<open>x >= 0\<close> in Go.\<close>

fun f_nonneg :: "float64 \<Rightarrow> bool" where
  "f_nonneg NaN = False"
| "f_nonneg (Infty n) = (\<not> n)"
| "f_nonneg (Zero n) = True"
| "f_nonneg (Fin r) = (0 \<le> r)"

fun f_finite :: "float64 \<Rightarrow> bool" where
  "f_finite NaN = False"
| "f_finite (Infty n) = False"
| "f_finite x = True"

section \<open>Signs\<close>

lemma pow2_pos: "0 < pow2 e"
  by (simp add: pow2_def)

lemma round_half_even_nonneg: "0 \<le> x \<Longrightarrow> 0 \<le> round_half_even x"
  by (simp add: round_half_even_def Let_def)

lemma round_mag_nonneg: "0 \<le> x \<Longrightarrow> 0 \<le> round_mag x"
  unfolding round_mag_def Let_def
  by (intro mult_nonneg_nonneg) (simp_all add: round_half_even_nonneg less_imp_le pow2_pos)

lemma signed_value_nonneg: "0 \<le> m \<Longrightarrow> f_nonneg (signed_value False m)"
  by (simp add: signed_value_def)

lemma round64_nonneg: "0 \<le> x \<Longrightarrow> f_nonneg (round64 neg x)"
  by (simp add: round64_def signed_value_nonneg round_mag_nonneg)

lemma f_add_nonneg: "f_nonneg x \<Longrightarrow> f_nonneg y \<Longrightarrow> f_nonneg (f_add x y)"
  by (cases x; cases y) (auto simp: round64_nonneg)

text \<open>
  The product of a price that is at least 0 and a positive quantity is at least 0; with a
  quantity of 0 an infinite price would give NaN.
\<close>

lemma f_mul_nonneg:
  assumes "f_nonneg x" and "f_nonneg y" and "\<not> (\<exists>n. y = Zero n)" and "f_finite y"
  shows "f_nonneg (f_mul x y)"
  using assms by (cases x; cases y) (auto simp: round64_nonneg)

section \<open>Whole numbers are exact up to \<open>2^53\<close>\<close>

lemma ilog2_of_int:
  assumes "0 < n"
  shows "ilog2 (of_int n) = int (floorlog 2 (nat n)) - 1"
proof -
  have one: "floorlog 2 (Suc 0) = 1" by (simp add: floorlog_def)
  have "2 ^ (floorlog 2 (nat n) - 1) \<le> nat n" and pos: "0 < floorlog 2 (nat n)"
    using floorlog_bounds [of "nat n" 2] assms by (auto simp: floorlog_eq_zero_iff intro: gr0I)
  then have "(2::int) ^ (floorlog 2 (nat n) - 1) \<le> n"
    using assms by (metis int_nat_eq less_imp_le of_nat_le_iff of_nat_numeral of_nat_power)
  then have "(2::rat) ^ (floorlog 2 (nat n) - 1) \<le> of_int n"
    by (metis of_int_le_iff of_int_numeral of_int_power)
  moreover have "nat (int (floorlog 2 (nat n)) - 1) = floorlog 2 (nat n) - 1" using pos by simp
  ultimately have "pow2 (int (floorlog 2 (nat n)) - 1) \<le> of_int n" using pos by (simp add: pow2_def)
  then show ?thesis by (simp add: ilog2_def quotient_of_int Let_def one)
qed

lemma round_half_even_of_int [simp]: "round_half_even (of_int n) = n"
  by (simp add: round_half_even_def)

lemma round_mag_exact:
  assumes "x / u = of_int z" and "u = pow2 (max (ilog2 x - 52) (- 1074))"
  shows "round_mag x = x"
proof -
  have "u \<noteq> 0" using pow2_pos [of "max (ilog2 x - 52) (- 1074)"] assms(2) by simp
  then have "of_int z * u = x" using assms(1) by (simp add: field_simps)
  then show ?thesis using assms by (simp add: round_mag_def Let_def)
qed

lemma round_mag_of_int:
  assumes "0 < n" and "n \<le> 2 ^ 53"
  shows "round_mag (of_int n) = of_int n"
proof (cases "n = 2 ^ 53")
  case True
  have "nat n = 1 * 2 ^ 53" by (simp add: True)
  then have "floorlog 2 (nat n) = 54" by (simp only: floorlog_power) (simp add: floorlog_def)
  then have e: "max (ilog2 (of_int n) - 52) (- 1074) = 1"
    using assms by (simp add: ilog2_of_int)
  have "of_int n / pow2 1 = of_int (2 ^ 52)" by (simp add: True pow2_def)
  then show ?thesis by (rule round_mag_exact) (simp only: e)
next
  case False
  then have "nat n < 2 ^ 53" using assms by (simp add: nat_less_iff)
  then have "floorlog 2 (nat n) \<le> 53" by (intro floorlog_leI) auto
  define e where "e = max (ilog2 (of_int n) - 52) (- 1074)"
  with \<open>floorlog 2 (nat n) \<le> 53\<close> have "e \<le> 0" using assms by (simp add: ilog2_of_int)
  then have "of_int n / pow2 e = of_int (n * 2 ^ nat (- e))" by (auto simp: pow2_def)
  then show ?thesis by (rule round_mag_exact) (simp only: e_def)
qed

text \<open>The float that stands for a whole number.\<close>

definition whole :: "int \<Rightarrow> float64" where
  "whole n = (if n = 0 then Zero False else Fin (of_int n))"

lemma round64_of_int:
  assumes "\<bar>n\<bar> \<le> 2 ^ 53"
  shows "round64 False (of_int n) = whole n"
proof (cases "n = 0")
  case True
  then show ?thesis by (simp add: round64_def whole_def)
next
  case False
  have mag: "round_mag (of_int \<bar>n\<bar>) = of_int \<bar>n\<bar>"
    using False assms by (intro round_mag_of_int) auto
  have "of_int \<bar>n\<bar> \<le> (2 ^ 53 :: rat)" using assms by (metis of_int_le_iff of_int_numeral of_int_power)
  also have "\<dots> < pow2 1024" by (simp add: pow2_def)
  finally have "\<not> pow2 1024 \<le> \<bar>of_int n :: rat\<bar>" by simp
  with False mag show ?thesis by (auto simp: round64_def signed_value_def whole_def)
qed

lemma float64_of_int_exact: "\<bar>sint n\<bar> \<le> 2 ^ 53 \<Longrightarrow> float64_of_int n = whole (sint n)"
  by (simp only: float64_of_int_def round64_of_int)

lemma f_add_whole:
  assumes "\<bar>a\<bar> \<le> 2 ^ 53" and "\<bar>b\<bar> \<le> 2 ^ 53" and "\<bar>a + b\<bar> \<le> 2 ^ 53"
  shows "f_add (whole a) (whole b) = whole (a + b)"
proof (cases "a = 0 \<or> b = 0")
  case True
  then show ?thesis by (auto simp: whole_def)
next
  case False
  then show ?thesis using round64_of_int [OF assms(3)] by (simp add: whole_def)
qed

lemma f_mul_whole:
  assumes "0 \<le> a" and "0 < b" and "a * b \<le> 2 ^ 53"
  shows "f_mul (whole a) (whole b) = whole (a * b)"
proof (cases "a = 0")
  case True
  then show ?thesis using assms by (simp add: whole_def)
next
  case False
  then show ?thesis using assms round64_of_int [of "a * b"]
    by (simp add: whole_def zero_less_mult_iff)
qed

text \<open>Whole numbers up to \<open>2 ^ 53\<close> need no rounding when the model is evaluated.\<close>

lemma round64_code [code]:
  "round64 neg x =
     (if x = 0 then Zero neg
      else if of_int (floor x) = x \<and> \<bar>floor x\<bar> \<le> 2 ^ 53 then Fin x
      else signed_value (x < 0) (round_mag \<bar>x\<bar>))"
proof (cases "x \<noteq> 0 \<and> of_int (floor x) = x \<and> \<bar>floor x\<bar> \<le> 2 ^ 53")
  case True
  then have "round64 False (of_int (floor x)) = whole (floor x)" by (intro round64_of_int) simp
  with True show ?thesis by (auto simp: whole_def round64_def)
next
  case False
  then show ?thesis by (auto simp: round64_def)
qed

end
