(* ===== verification/Ozzo.thy ===== *)
theory Ozzo
  imports Go_Float
begin

text \<open>
  The validation package \<open>ozzo-validation\<close> and the UUID package are not part of the
  repository; the rules the code uses are a parameter, a record of functions that return the
  error of a rule. What the code relies on is \<open>ozzo_laws\<close>, the documented meaning of the rules:
  \<open>Required\<close> asks for a value that is not empty (a number other than 0, a string, slice or array
  of positive length, so that a UUID, an array of sixteen bytes, always is), \<open>Length\<close> and \<open>Min\<close>
  skip an empty value, and a struct or a slice is valid when all its fields or elements are.
\<close>

record ozzo =
  oz_required_uuid :: "uuid \<Rightarrow> err option"
  oz_required_string :: "string \<Rightarrow> err option"
  oz_required_int :: "goint \<Rightarrow> err option"
  oz_required_len :: "nat \<Rightarrow> err option"
  oz_length :: "nat \<Rightarrow> nat \<Rightarrow> nat \<Rightarrow> err option"
  oz_min_int :: "int \<Rightarrow> goint \<Rightarrow> err option"
  oz_min_float :: "float64 \<Rightarrow> float64 \<Rightarrow> err option"
  oz_struct :: "err option list \<Rightarrow> err option"
  oz_each :: "err option list \<Rightarrow> err option"

definition ozzo_laws :: "ozzo \<Rightarrow> bool" where
  "ozzo_laws V \<longleftrightarrow>
     (\<forall>u. oz_required_uuid V u = None) \<and>
     (\<forall>s. oz_required_string V s = None \<longleftrightarrow> s \<noteq> []) \<and>
     (\<forall>n. oz_required_int V n = None \<longleftrightarrow> n \<noteq> 0) \<and>
     (\<forall>n. oz_required_len V n = None \<longleftrightarrow> n \<noteq> 0) \<and>
     (\<forall>lo hi n. oz_length V lo hi n = None \<longleftrightarrow> n = 0 \<or> (lo \<le> n \<and> (hi = 0 \<or> n \<le> hi))) \<and>
     (\<forall>t n. oz_min_int V t n = None \<longleftrightarrow> n = 0 \<or> t \<le> sint n) \<and>
     (\<forall>x. oz_min_float V (Zero False) x = None \<longleftrightarrow> f_nonneg x) \<and>
     (\<forall>es. oz_struct V es = None \<longleftrightarrow> (\<forall>e\<in>set es. e = None)) \<and>
     (\<forall>es. oz_each V es = None \<longleftrightarrow> (\<forall>e\<in>set es. e = None))"

text \<open>The rules of a field run in order up to the first error.\<close>

fun first_error :: "err option list \<Rightarrow> err option" where
  "first_error [] = None"
| "first_error (Some e # es) = Some e"
| "first_error (None # es) = first_error es"

lemma first_error_None: "first_error es = None \<longleftrightarrow> (\<forall>e\<in>set es. e = None)"
  by (induction es rule: first_error.induct) auto

text \<open>An instance of the laws, for the witnesses.\<close>

definition ref_ozzo :: ozzo where
  "ref_ozzo =
     \<lparr>oz_required_uuid = (\<lambda>u. None),
      oz_required_string = (\<lambda>s. if s = [] then Some (Ext ''cannot be blank'') else None),
      oz_required_int = (\<lambda>n. if n = 0 then Some (Ext ''cannot be blank'') else None),
      oz_required_len = (\<lambda>n. if n = 0 then Some (Ext ''cannot be blank'') else None),
      oz_length = (\<lambda>lo hi n. if n = 0 \<or> (lo \<le> n \<and> (hi = 0 \<or> n \<le> hi)) then None
        else Some (Ext ''the length must be in range'')),
      oz_min_int = (\<lambda>t n. if n = 0 \<or> t \<le> sint n then None else Some (Ext ''too small'')),
      oz_min_float = (\<lambda>t x. if f_nonneg x then None else Some (Ext ''too small'')),
      oz_struct = first_error, oz_each = first_error\<rparr>"

lemma ref_ozzo_laws: "ozzo_laws ref_ozzo"
  by (simp add: ozzo_laws_def ref_ozzo_def first_error_None)

section \<open>UUIDs as text\<close>

text \<open>
  \<open>uuid.Parse\<close> and \<open>UUID.String\<close> are parameters; \<open>uuid_laws\<close> says that a UUID is read back
  from its own text.
\<close>

definition uuid_laws :: "(string \<Rightarrow> uuid option) \<Rightarrow> (uuid \<Rightarrow> string) \<Rightarrow> bool" where
  "uuid_laws parse ustr \<longleftrightarrow> (\<forall>u. parse (ustr u) = Some u)"

fun ref_value :: "string \<Rightarrow> nat \<Rightarrow> nat" where
  "ref_value [] n = n"
| "ref_value (c # cs) n = ref_value cs (n * 10 + (of_char c - 48))"

definition ref_parse :: "string \<Rightarrow> uuid option" where
  "ref_parse s =
     (if s \<noteq> [] \<and> list_all (\<lambda>c. CHR ''0'' \<le> c \<and> c \<le> CHR ''9'') s
      then Some (word_of_nat (ref_value s 0)) else None)"

definition ref_ustr :: "uuid \<Rightarrow> string" where
  "ref_ustr u = digits (unat u)"

lemma ref_value_append: "ref_value (xs @ ys) n = ref_value ys (ref_value xs n)"
  by (induction xs arbitrary: n) simp_all

lemma of_char_digit: "n < 10 \<Longrightarrow> of_char (char_of (48 + n :: nat)) = 48 + n"
  by simp

lemma ref_value_digits: "ref_value (digits n) 0 = n"
proof (induction n rule: digits.induct)
  case (1 n)
  show ?case
  proof (cases "n < 10")
    case True
    then show ?thesis by (subst digits.simps) (simp add: of_char_digit)
  next
    case False
    have "ref_value (digits n) 0 = ref_value [char_of (48 + n mod 10)] (ref_value (digits (n div 10)) 0)"
      using False by (subst digits.simps) (simp add: ref_value_append)
    then show ?thesis using 1 False by (simp add: of_char_digit del: of_char_of)
  qed
qed

lemma char_digit: "n < 10 \<Longrightarrow> CHR ''0'' \<le> char_of (48 + n :: nat) \<and> char_of (48 + n) \<le> CHR ''9''"
  by (simp add: less_eq_char_def)

lemma digits_all: "digits n \<noteq> [] \<and> list_all (\<lambda>c. CHR ''0'' \<le> c \<and> c \<le> CHR ''9'') (digits n)"
proof (induction n rule: digits.induct)
  case (1 n)
  then show ?case
    by (cases "n < 10") (auto simp: char_digit digits.simps [of n])
qed

lemma ref_uuid_laws: "uuid_laws ref_parse ref_ustr"
  unfolding uuid_laws_def ref_parse_def ref_ustr_def
  using digits_all by (simp add: ref_value_digits)

end
