(* ===== verification/Go_Json.thy ===== *)
theory Go_Json
  imports Go_Float "HOL-Library.List_Lexorder"
begin

text \<open>
  \<open>encoding/json\<close> as the services use it. A message body is a JSON document or bytes that
  are no JSON. Documents are kept as trees: an object is the list of its members in the order
  of the text, with repeated keys where the text has them. A number literal is kept by the two
  readings the decoders make of it: the value of an integer literal (None for a literal with
  a fraction or an exponent), and the nearest \<open>float64\<close>. Strings are their UTF-8 bytes.

  \<open>json.Unmarshal\<close> into a struct walks the members of the object in order and decodes each
  value into the field whose name matches the key up to case; null leaves a field as it is, and
  an unknown key is skipped. Any type mismatch makes the call return an error; the callers
  then use nothing of the decoded value, so an error is None.
\<close>

datatype json =
    JNull
  | JBool bool
  | JNum "int option" float64
  | JStr string
  | JArr "json list"
  | JObj "(string \<times> json) list"

datatype body = Doc json | NotJson string

section \<open>Marshal\<close>

definition j_int :: "goint \<Rightarrow> json" where
  "j_int n = JNum (Some (sint n)) (float64_of_int n)"

text \<open>
  NaN and the infinities have no JSON text. The integer reading of a literal written from a
  \<open>float64\<close> is left out: the code reads those members as \<open>float64\<close> only.
\<close>

fun j_float :: "float64 \<Rightarrow> err + json" where
  "j_float NaN = Inl (Msg ''json: unsupported value: NaN'')"
| "j_float (Infty neg) = Inl (Msg (if neg then ''json: unsupported value: -Inf'' else ''json: unsupported value: +Inf''))"
| "j_float x = Inr (JNum None x)"

text \<open>A \<open>map[string]any\<close> is written with its keys in increasing order.\<close>

definition j_map :: "(string \<times> json) list \<Rightarrow> json" where
  "j_map kvs = JObj (sort_key fst kvs)"

section \<open>Unmarshal\<close>

text \<open>
  \<open>bytes.EqualFold\<close> on ASCII field names: letters up to case, and the two non-ASCII runes
  that fold to an ASCII letter, the long s and the Kelvin sign, by their UTF-8 bytes.
\<close>

definition lower_char :: "char \<Rightarrow> char" where
  "lower_char c = (if CHR ''A'' \<le> c \<and> c \<le> CHR ''Z'' then char_of (of_char c + 32 :: nat) else c)"

fun fold_name :: "string \<Rightarrow> string" where
  "fold_name [] = []"
| "fold_name (c # cs) =
     (if c = CHR 0xC5 \<and> take 1 cs = [CHR 0xBF] then CHR ''s'' # fold_name (drop 1 cs)
      else if c = CHR 0xE2 \<and> take 2 cs = [CHR 0x84, CHR 0xAA] then CHR ''k'' # fold_name (drop 2 cs)
      else lower_char c # fold_name cs)"

text \<open>A decoder takes the JSON value and the old value of its target.\<close>

type_synonym 'a dec = "json \<Rightarrow> 'a \<Rightarrow> 'a option"

fun dec_string :: "string dec" where
  "dec_string (JStr s) _ = Some s"
| "dec_string JNull old = Some old"
| "dec_string _ _ = None"

fun dec_int :: "goint dec" where
  "dec_int (JNum (Some n) _) _ =
     (if - (2 ^ 63) \<le> n \<and> n < 2 ^ 63 then Some (word_of_int n) else None)"
| "dec_int JNull old = Some old"
| "dec_int _ _ = None"

fun dec_float :: "float64 dec" where
  "dec_float (JNum _ x) _ = (if f_finite x then Some x else None)"
| "dec_float JNull old = Some old"
| "dec_float _ _ = None"

text \<open>
  A slice decodes into its backing array: an element that an earlier value of the same field
  has written keeps the fields the new text does not mention. The pair is the backing array
  and the visible slice.
\<close>

fun dec_elems :: "'a \<Rightarrow> 'a dec \<Rightarrow> json list \<Rightarrow> 'a list \<Rightarrow> 'a list option" where
  "dec_elems zero d [] old = Some []"
| "dec_elems zero d (j # js) old =
     (case d j (case old of [] \<Rightarrow> zero | x # _ \<Rightarrow> x) of
        None \<Rightarrow> None
      | Some y \<Rightarrow> map_option (Cons y) (dec_elems zero d js (tl old)))"

fun dec_slice :: "'a \<Rightarrow> 'a dec \<Rightarrow> ('a list \<times> 'a list) dec" where
  "dec_slice zero d (JArr js) (back, _) =
     (case dec_elems zero d js back of
        None \<Rightarrow> None
      | Some ys \<Rightarrow> Some (if js = [] then [] else ys @ drop (length ys) back, ys))"
| "dec_slice zero d JNull _ = Some ([], [])"
| "dec_slice zero d _ _ = None"

fun dec_members :: "(string \<Rightarrow> 'a dec option) \<Rightarrow> (string \<times> json) list \<Rightarrow> 'a \<Rightarrow> 'a option" where
  "dec_members fld [] a = Some a"
| "dec_members fld ((k, v) # kvs) a =
     (case fld (fold_name k) of
        None \<Rightarrow> dec_members fld kvs a
      | Some d \<Rightarrow> (case d v a of None \<Rightarrow> None | Some a' \<Rightarrow> dec_members fld kvs a'))"

fun dec_struct :: "(string \<Rightarrow> 'a dec option) \<Rightarrow> 'a dec" where
  "dec_struct fld (JObj kvs) a = dec_members fld kvs a"
| "dec_struct fld JNull a = Some a"
| "dec_struct fld _ a = None"

text \<open>\<open>json.Unmarshal(data, &v)\<close> into a struct variable that holds its zero value.\<close>

fun unmarshal :: "(string \<Rightarrow> 'a dec option) \<Rightarrow> 'a \<Rightarrow> body \<Rightarrow> 'a option" where
  "unmarshal fld zero (Doc j) = dec_struct fld j zero"
| "unmarshal fld zero (NotJson _) = None"

section \<open>Facts about the decoders\<close>

lemma dec_int_j_int [simp]: "dec_int (j_int n) old = Some n"
  using sint64_bounds [of n] by (simp add: j_int_def)

lemma dec_int_literal [simp]: "dec_int (JNum (Some (sint n)) x) old = Some n"
  using sint64_bounds [of n] by simp

fun pos_zero :: "float64 \<Rightarrow> float64" where
  "pos_zero (Zero n) = Zero False"
| "pos_zero x = x"

lemma pos_zero_finite [simp]: "f_finite (pos_zero x) = f_finite x"
  by (cases x) auto

lemma dec_float_j_float: "j_float x = Inr j \<Longrightarrow> dec_float j old = Some x"
  by (cases x) auto

lemma j_float_Inr_iff: "(\<exists>j. j_float x = Inr j) \<longleftrightarrow> f_finite x"
  by (cases x) auto

lemma dec_elems_fresh:
  assumes "\<And>x. x \<in> set xs \<Longrightarrow> d (enc x) zero = Some x"
  shows "dec_elems zero d (map enc xs) [] = Some xs"
  using assms by (induction xs) auto

lemma dec_slice_fresh:
  assumes "\<And>x. x \<in> set xs \<Longrightarrow> d (enc x) zero = Some x"
  shows "dec_slice zero d (JArr (map enc xs)) ([], []) = Some (xs, xs)"
  using dec_elems_fresh [of xs d enc zero, OF assms] by simp

section \<open>Documents that hold the same value\<close>

text \<open>
  A JSONB column keeps the value of a document, not its text: the members of an object may
  come back in another order, and a negative zero comes back as 0. Two documents are
  \<open>same_json\<close> when they agree once the members of every object are sorted by key and the zeros
  have lost their sign.
\<close>

fun jnorm :: "json \<Rightarrow> json" where
  "jnorm (JNum n x) = JNum n (pos_zero x)"
| "jnorm (JArr js) = JArr (map jnorm js)"
| "jnorm (JObj kvs) = JObj (sort_key fst (map (\<lambda>(k, v). (k, jnorm v)) kvs))"
| "jnorm j = j"

definition same_json :: "json \<Rightarrow> json \<Rightarrow> bool" where
  "same_json a b \<longleftrightarrow> jnorm a = jnorm b"

fun same_body :: "body \<Rightarrow> body \<Rightarrow> bool" where
  "same_body (Doc a) (Doc b) = same_json a b"
| "same_body (NotJson a) (NotJson b) = (a = b)"
| "same_body _ _ = False"

lemma same_json_refl [simp]: "same_json a a"
  by (simp add: same_json_def)

lemma same_body_refl [simp]: "same_body a a"
  by (cases a) simp_all

end
