(* ===== verification/Order_Domain.thy ===== *)
theory Order_Domain
  imports Ozzo Go_Json
begin

text \<open>
  The order service's domain: orders and their items, the validated input of \<open>CreateOrder\<close>
  (\<open>dto.CreateOrderInput\<close>), the constructor \<open>domain.NewOrder\<close> and the payload of the event that
  asks the inventory to reserve the items.
\<close>

section \<open>Orders\<close>

record order_item =
  oi_id :: uuid
  oi_order_id :: uuid
  oi_product_id :: uuid
  oi_product_name :: string
  oi_unit_price :: float64
  oi_quantity :: goint
  oi_subtotal :: float64

record order =
  od_id :: uuid
  od_customer_id :: uuid
  od_status :: string
  od_total_amount :: float64
  od_created_at :: time
  od_updated_at :: time
  od_items :: "order_item list"

definition OrderStatusPending :: string where "OrderStatusPending = ''PENDING''"
definition OrderStatusConfirmed :: string where "OrderStatusConfirmed = ''CONFIRMED''"
definition OrderStatusFailed :: string where "OrderStatusFailed = ''FAILED''"

lemma order_status_distinct [simp]:
  "OrderStatusPending \<noteq> OrderStatusConfirmed" "OrderStatusConfirmed \<noteq> OrderStatusPending"
  "OrderStatusPending \<noteq> OrderStatusFailed" "OrderStatusFailed \<noteq> OrderStatusPending"
  "OrderStatusConfirmed \<noteq> OrderStatusFailed" "OrderStatusFailed \<noteq> OrderStatusConfirmed"
  by (simp_all add: OrderStatusPending_def OrderStatusConfirmed_def OrderStatusFailed_def)

text \<open>
  \<open>new i\<close> is what the \<open>i\<close>-th call of \<open>uuid.New\<close> in a request returns. \<open>fill_items\<close> is the
  loop of \<open>NewOrder\<close>, which adds to the total in the order of the items.
\<close>

fun fill_items ::
  "(nat \<Rightarrow> uuid) \<Rightarrow> uuid \<Rightarrow> nat \<Rightarrow> order_item list \<Rightarrow> float64 \<Rightarrow> order_item list \<times> float64" where
  "fill_items new orderID i [] amount = ([], amount)"
| "fill_items new orderID i (it # its) amount =
     (let sub = f_mul (oi_unit_price it) (float64_of_int (oi_quantity it));
          it' = it\<lparr>oi_id := new i, oi_order_id := orderID, oi_subtotal := sub\<rparr>;
          (its', amount') = fill_items new orderID (Suc i) its (f_add amount sub)
      in (it' # its', amount'))"

definition NewOrder :: "(nat \<Rightarrow> uuid) \<Rightarrow> time \<Rightarrow> uuid \<Rightarrow> order_item list \<Rightarrow> err + order" where
  "NewOrder new now customerID items =
     (let orderID = new 0;
          (items', amount) = fill_items new orderID 1 items (Zero False)
      in Inr \<lparr>od_id = orderID, od_customer_id = customerID, od_status = OrderStatusPending,
              od_total_amount = amount, od_created_at = now, od_updated_at = now,
              od_items = items'\<rparr>)"

section \<open>The validated input\<close>

record CreateOrderItemInput =
  ci_product_id :: uuid
  ci_product_name :: string
  ci_unit_price :: float64
  ci_quantity :: goint

record CreateOrderInput =
  co_customer_id :: uuid
  co_items :: "CreateOrderItemInput list"

definition ItemInput_Validate :: "ozzo \<Rightarrow> CreateOrderItemInput \<Rightarrow> err option" where
  "ItemInput_Validate V i =
     oz_struct V
       [first_error [oz_required_uuid V (ci_product_id i)],
        first_error [oz_required_string V (ci_product_name i)],
        first_error [oz_min_float V (Zero False) (ci_unit_price i)],
        first_error [oz_required_int V (ci_quantity i), oz_min_int V 1 (ci_quantity i)]]"

fun validate_items :: "ozzo \<Rightarrow> int \<Rightarrow> CreateOrderItemInput list \<Rightarrow> err option" where
  "validate_items V index [] = None"
| "validate_items V index (item # items) =
     (case ItemInput_Validate V item of
        Some e \<Rightarrow> Some (Wrap (''items['' @ itoa index @ '']: '') e)
      | None \<Rightarrow> validate_items V (index + 1) items)"

text \<open>A slice whose elements have a \<open>Validate\<close> method is validated element by element as well.\<close>

definition OrderInput_Validate :: "ozzo \<Rightarrow> CreateOrderInput \<Rightarrow> err option" where
  "OrderInput_Validate V i =
     (let n = length (co_items i)
      in case oz_struct V
           [first_error [oz_required_uuid V (co_customer_id i)],
            first_error [oz_required_len V n, oz_length V 1 0 n,
              oz_each V (map (ItemInput_Validate V) (co_items i))]] of
           Some e \<Rightarrow> Some e
         | None \<Rightarrow> validate_items V 0 (co_items i))"

section \<open>The payload of the reservation request\<close>

definition reserveStockItems :: "(uuid \<Rightarrow> string) \<Rightarrow> order_item list \<Rightarrow> json list" where
  "reserveStockItems ustr items =
     map (\<lambda>item. j_map [(''product_id'', JStr (ustr (oi_product_id item))),
                        (''quantity'', j_int (oi_quantity item))]) items"

definition reservation_payload :: "(uuid \<Rightarrow> string) \<Rightarrow> uuid \<Rightarrow> order \<Rightarrow> body" where
  "reservation_payload ustr messageID order =
     Doc (j_map [(''message_id'', JStr (ustr messageID)),
                 (''order_id'', JStr (ustr (od_id order))),
                 (''items'', JArr (reserveStockItems ustr (od_items order)))])"

definition order_items_of :: "CreateOrderItemInput list \<Rightarrow> order_item list" where
  "order_items_of inputs =
     map (\<lambda>item. \<lparr>oi_id = 0, oi_order_id = 0, oi_product_id = ci_product_id item,
       oi_product_name = ci_product_name item, oi_unit_price = ci_unit_price item,
       oi_quantity = ci_quantity item, oi_subtotal = Zero False\<rparr>) inputs"

section \<open>What validation accepts\<close>

definition item_input_ok :: "CreateOrderItemInput \<Rightarrow> bool" where
  "item_input_ok i \<longleftrightarrow> ci_product_name i \<noteq> [] \<and> f_nonneg (ci_unit_price i) \<and> 1 \<le> sint (ci_quantity i)"

lemma ItemInput_Validate_None:
  assumes "ozzo_laws V"
  shows "ItemInput_Validate V i = None \<longleftrightarrow> item_input_ok i"
  using assms
  by (auto simp: ozzo_laws_def ItemInput_Validate_def item_input_ok_def first_error_None)

lemma validate_items_None:
  "validate_items V k items = None \<longleftrightarrow> (\<forall>i\<in>set items. ItemInput_Validate V i = None)"
  by (induction items arbitrary: k) (auto split: option.splits)

lemma OrderInput_Validate_None:
  assumes V: "ozzo_laws V"
  shows "OrderInput_Validate V i = None \<longleftrightarrow> co_items i \<noteq> [] \<and> (\<forall>it\<in>set (co_items i). item_input_ok it)"
proof -
  let ?n = "length (co_items i)"
  let ?fields = "[first_error [oz_required_uuid V (co_customer_id i)],
    first_error [oz_required_len V ?n, oz_length V 1 0 ?n, oz_each V (map (ItemInput_Validate V) (co_items i))]]"
  have "oz_struct V ?fields = None \<longleftrightarrow> (\<forall>e\<in>set ?fields. e = None)"
    using V by (simp only: ozzo_laws_def)
  also have "\<dots> \<longleftrightarrow> ?n \<noteq> 0 \<and> (\<forall>it\<in>set (co_items i). item_input_ok it)"
    using V by (auto simp: ozzo_laws_def first_error_None ItemInput_Validate_None [OF V] Suc_le_eq)
  finally show ?thesis
    by (auto simp: OrderInput_Validate_def Let_def validate_items_None
        ItemInput_Validate_None [OF V] split: option.splits)
qed

section \<open>What the constructor computes\<close>

definition item_cost :: "order_item \<Rightarrow> float64" where
  "item_cost it = f_mul (oi_unit_price it) (float64_of_int (oi_quantity it))"

lemma fill_items_amount: "snd (fill_items new oid k its t) = foldl f_add t (map item_cost its)"
  by (induction its arbitrary: k t) (simp_all add: item_cost_def Let_def case_prod_unfold)

lemma fill_items_fields:
  "map oi_subtotal (fst (fill_items new oid k its t)) = map item_cost its"
  "map oi_product_id (fst (fill_items new oid k its t)) = map oi_product_id its"
  "map oi_product_name (fst (fill_items new oid k its t)) = map oi_product_name its"
  "map oi_unit_price (fst (fill_items new oid k its t)) = map oi_unit_price its"
  "map oi_quantity (fst (fill_items new oid k its t)) = map oi_quantity its"
  "map oi_order_id (fst (fill_items new oid k its t)) = replicate (length its) oid"
  "length (fst (fill_items new oid k its t)) = length its"
  by (induction its arbitrary: k t) (simp_all add: item_cost_def Let_def case_prod_unfold)

lemma fill_items_ids:
  "map oi_id (fst (fill_items new oid k its t)) = map new [k..<k + length its]"
proof (induction its arbitrary: k t)
  case Nil
  show ?case by simp
next
  case (Cons it its)
  have "[k..<k + length (it # its)] = k # [Suc k..<Suc k + length its]"
    by (subst upt_rec) simp
  then show ?case by (simp only: fill_items.simps Let_def case_prod_unfold fst_conv list.map Cons.IH) simp
qed

lemma NewOrder_fields:
  assumes "NewOrder new now c items = Inr ord"
  shows "od_id ord = new 0" "od_customer_id ord = c" "od_status ord = OrderStatusPending"
    "od_created_at ord = now" "od_updated_at ord = now"
    "od_total_amount ord = foldl f_add (Zero False) (map item_cost items)"
    "map oi_subtotal (od_items ord) = map item_cost items"
    "map oi_product_id (od_items ord) = map oi_product_id items"
    "map oi_product_name (od_items ord) = map oi_product_name items"
    "map oi_unit_price (od_items ord) = map oi_unit_price items"
    "map oi_quantity (od_items ord) = map oi_quantity items"
    "map oi_order_id (od_items ord) = replicate (length items) (new 0)"
    "map oi_id (od_items ord) = map new [1..<1 + length items]"
    "length (od_items ord) = length items"
  using assms fill_items_amount [of new "new 0" 1 items "Zero False"]
    fill_items_fields [of new "new 0" 1 items "Zero False"]
    fill_items_ids [of new "new 0" 1 items "Zero False"]
  by (auto simp: NewOrder_def Let_def case_prod_unfold)

lemma NewOrder_Inr: "\<exists>ord. NewOrder new now c items = Inr ord"
  by (simp add: NewOrder_def Let_def case_prod_unfold)

lemma foldl_f_add_nonneg:
  "f_nonneg t \<Longrightarrow> (\<And>x. x \<in> set xs \<Longrightarrow> f_nonneg x) \<Longrightarrow> f_nonneg (foldl f_add t xs)"
  by (induction xs arbitrary: t) (auto simp: f_add_nonneg)

lemma whole_positive:
  assumes "1 \<le> n"
  shows "f_nonneg (whole n)" and "f_finite (whole n)" and "\<not> (\<exists>b. whole n = Zero b)"
  using assms by (simp_all add: whole_def)

lemma item_cost_nonneg:
  assumes "f_nonneg (oi_unit_price it)" and "1 \<le> sint (oi_quantity it)" and "sint (oi_quantity it) \<le> 2 ^ 53"
  shows "f_nonneg (item_cost it)"
proof -
  have "float64_of_int (oi_quantity it) = whole (sint (oi_quantity it))"
    using assms by (intro float64_of_int_exact) simp
  then show ?thesis
    using f_mul_nonneg [OF assms(1) whole_positive(1,3,2) [OF assms(2)]] by (simp only: item_cost_def)
qed

lemma item_cost_whole:
  assumes "oi_unit_price it = whole p" and "0 \<le> p" and "1 \<le> sint (oi_quantity it)"
    and "sint (oi_quantity it) \<le> 2 ^ 53" and "p * sint (oi_quantity it) \<le> 2 ^ 53"
  shows "item_cost it = whole (p * sint (oi_quantity it))"
proof -
  have "float64_of_int (oi_quantity it) = whole (sint (oi_quantity it))"
    using assms by (intro float64_of_int_exact) simp
  then show ?thesis using assms by (simp add: item_cost_def f_mul_whole)
qed

lemma foldl_f_add_whole:
  assumes "\<forall>n\<in>set ns. 0 \<le> n" and "0 \<le> t" and "t + sum_list ns \<le> 2 ^ 53"
  shows "foldl f_add (whole t) (map whole ns) = whole (t + sum_list ns)"
  using assms
proof (induction ns arbitrary: t)
  case Nil
  show ?case by simp
next
  case (Cons n ns)
  have "0 \<le> sum_list ns" using Cons.prems by (intro sum_list_nonneg) auto
  with Cons.prems have "f_add (whole t) (whole n) = whole (t + n)" by (intro f_add_whole) auto
  then show ?case using Cons.IH [of "t + n"] Cons.prems by (simp add: add.assoc)
qed

end
