(* ===== verification/Gorm.thy ===== *)
theory Gorm
  imports Go_Prelude
begin

text \<open>
  The database as the repositories see it. gorm and PostgreSQL are not part of the
  repository, so a table is a parameter of the model: a record of the gorm calls the code
  makes on it, over an unspecified state of the database. What the repositories rely on is
  the named hypothesis \<open>gorm_laws\<close>, which states the documented behaviour of those calls:

  \<^item> an INSERT or UPDATE that returns no error has taken place, and one that returns an error
    has taken place as a whole or not at all (an error may come after the statement was
    executed, for example a deadline that passes while the reply is on its way);
  \<^item> an INSERT does not take place when it violates the table's primary key, a UNIQUE or a
    CHECK constraint;
  \<^item> a query that returns no error returns the rows that match;
  \<^item> \<open>First\<close> reports \<open>gorm.ErrRecordNotFound\<close> only when it ran and found nothing.

  Nothing is assumed about when a call fails. The tables' constraints are those of the SQL
  migrations, given by a \<open>schema\<close>.
\<close>

record 'r schema =
  sc_key :: "'r \<Rightarrow> uuid"
  sc_check :: "'r \<Rightarrow> bool"
  sc_conflict :: "'r \<Rightarrow> 'r \<Rightarrow> bool"

record ('s, 'r) gorm =
  g_rows :: "'s \<Rightarrow> uuid \<rightharpoonup> 'r"
  g_stored :: "'r \<Rightarrow> 'r"
  g_assigned :: "'r \<Rightarrow> 'r \<Rightarrow> 'r"
  g_create :: "'s \<Rightarrow> 'r list \<Rightarrow> err option \<times> 's"
  g_updates :: "'s \<Rightarrow> ('r \<Rightarrow> bool) \<Rightarrow> ('r \<Rightarrow> 'r) \<Rightarrow> err option \<times> 's"
  g_count :: "'s \<Rightarrow> ('r \<Rightarrow> bool) \<Rightarrow> err + int"
  g_first :: "'s \<Rightarrow> ('r \<Rightarrow> bool) \<Rightarrow> err + 'r"
  g_find :: "'s \<Rightarrow> ('r \<Rightarrow> bool) \<Rightarrow> err + 'r list"
  g_find_ordered :: "'s \<Rightarrow> ('r \<Rightarrow> bool) \<Rightarrow> ('r \<Rightarrow> time) \<Rightarrow> nat \<Rightarrow> err + 'r list"

text \<open>
  \<open>g_stored r\<close> is the row as the table keeps it once \<open>r\<close> is inserted (a column's type may round
  a number or a time), and \<open>g_assigned r r'\<close> the row once an UPDATE has changed \<open>r\<close> to \<open>r'\<close>.
\<close>

definition assign_row :: "('s, 'r) gorm \<Rightarrow> ('r \<Rightarrow> 'r) \<Rightarrow> 'r \<Rightarrow> 'r" where
  "assign_row T f r = g_assigned T r (f r)"

section \<open>What INSERT and UPDATE do to the rows\<close>

definition insertable :: "'r schema \<Rightarrow> (uuid \<rightharpoonup> 'r) \<Rightarrow> 'r \<Rightarrow> bool" where
  "insertable sch m r \<longleftrightarrow>
     m (sc_key sch r) = None \<and> sc_check sch r \<and> (\<forall>r'\<in>ran m. \<not> sc_conflict sch r r')"

fun insert_rows :: "'r schema \<Rightarrow> (uuid \<rightharpoonup> 'r) \<Rightarrow> 'r list \<Rightarrow> (uuid \<rightharpoonup> 'r) option" where
  "insert_rows sch m [] = Some m"
| "insert_rows sch m (r # rs) =
     (if insertable sch m r then insert_rows sch (m(sc_key sch r \<mapsto> r)) rs else None)"

definition update_rows :: "(uuid \<rightharpoonup> 'r) \<Rightarrow> ('r \<Rightarrow> bool) \<Rightarrow> ('r \<Rightarrow> 'r) \<Rightarrow> (uuid \<rightharpoonup> 'r)" where
  "update_rows m p f = (\<lambda>k. case m k of None \<Rightarrow> None | Some r \<Rightarrow> Some (if p r then f r else r))"

definition updatable :: "'r schema \<Rightarrow> (uuid \<rightharpoonup> 'r) \<Rightarrow> ('r \<Rightarrow> bool) \<Rightarrow> ('r \<Rightarrow> 'r) \<Rightarrow> bool" where
  "updatable sch m p f \<longleftrightarrow> (\<forall>r\<in>ran m. p r \<longrightarrow> sc_check sch (f r))"

text \<open>A list holds the rows of a table that satisfy \<open>p\<close>, each once, in some order.\<close>

definition lists_rows :: "('k \<rightharpoonup> 'r) \<Rightarrow> ('r \<Rightarrow> bool) \<Rightarrow> 'r list \<Rightarrow> bool" where
  "lists_rows m p xs \<longleftrightarrow>
     (\<exists>ks. distinct ks \<and> set ks = {k. \<exists>r. m k = Some r \<and> p r} \<and> xs = map (the \<circ> m) ks)"

section \<open>The laws\<close>

definition create_law :: "'r schema \<Rightarrow> ('s, 'r) gorm \<Rightarrow> bool" where
  "create_law sch T \<longleftrightarrow>
     (\<forall>s rs e s'. g_create T s rs = (e, s') \<longrightarrow> (\<forall>r\<in>set rs. sc_key sch r \<noteq> 0) \<longrightarrow>
        insert_rows sch (g_rows T s) (map (g_stored T) rs) = Some (g_rows T s')
        \<or> (e \<noteq> None \<and> g_rows T s' = g_rows T s))"

definition updates_law :: "'r schema \<Rightarrow> ('s, 'r) gorm \<Rightarrow> bool" where
  "updates_law sch T \<longleftrightarrow>
     (\<forall>s p f e s'. g_updates T s p f = (e, s') \<longrightarrow> (\<forall>r. sc_key sch (f r) = sc_key sch r) \<longrightarrow>
        (updatable sch (g_rows T s) p (assign_row T f)
           \<and> g_rows T s' = update_rows (g_rows T s) p (assign_row T f))
        \<or> (e \<noteq> None \<and> g_rows T s' = g_rows T s))"

definition query_law :: "('s, 'r) gorm \<Rightarrow> bool" where
  "query_law T \<longleftrightarrow>
     (\<forall>s p n. g_count T s p = Inr n \<longrightarrow>
        finite (dom (g_rows T s)) \<and> n = int (card {k. \<exists>r. g_rows T s k = Some r \<and> p r})) \<and>
     (\<forall>s p r. g_first T s p = Inr r \<longrightarrow> r \<in> ran (g_rows T s) \<and> p r) \<and>
     (\<forall>s p e. g_first T s p = Inl e \<longrightarrow> errors_Is e ErrRecordNotFound \<longrightarrow>
        (\<forall>r\<in>ran (g_rows T s). \<not> p r)) \<and>
     (\<forall>s p xs. g_find T s p = Inr xs \<longrightarrow> lists_rows (g_rows T s) p xs) \<and>
     (\<forall>s p key n xs. g_find_ordered T s p key n = Inr xs \<longrightarrow>
        (\<exists>ys. lists_rows (g_rows T s) p ys \<and> sorted (map key ys) \<and> xs = take n ys))"

definition key_law :: "'r schema \<Rightarrow> ('s, 'r) gorm \<Rightarrow> bool" where
  "key_law sch T \<longleftrightarrow>
     (\<forall>s k r. g_rows T s k = Some r \<longrightarrow> sc_key sch r = k) \<and>
     (\<forall>r. sc_key sch (g_stored T r) = sc_key sch r) \<and>
     (\<forall>r r'. sc_key sch (g_assigned T r r') = sc_key sch r')"

definition gorm_laws :: "'r schema \<Rightarrow> ('s, 'r) gorm \<Rightarrow> bool" where
  "gorm_laws sch T \<longleftrightarrow> create_law sch T \<and> updates_law sch T \<and> query_law T \<and> key_law sch T"

text \<open>A statement on one table leaves every other table as it is.\<close>

definition gorm_frame :: "('s, 'r) gorm \<Rightarrow> ('s, 'q) gorm \<Rightarrow> bool" where
  "gorm_frame T U \<longleftrightarrow>
     (\<forall>s rs. g_rows U (snd (g_create T s rs)) = g_rows U s) \<and>
     (\<forall>s p f. g_rows U (snd (g_updates T s p f)) = g_rows U s)"

text \<open>
  \<open>db.Transaction(f)\<close>: without an error the whole body was executed and committed; with an
  error either all of it took effect (the commit's reply was lost) or none of it did.
  \<open>same\<close> says that two database states hold the same rows.
\<close>

definition tx_laws :: "('s \<Rightarrow> 's \<Rightarrow> bool) \<Rightarrow> ('s \<Rightarrow> 's act \<Rightarrow> err option \<times> 's) \<Rightarrow> bool" where
  "tx_laws same tx \<longleftrightarrow>
     (\<forall>s f e s'. tx s f = (e, s') \<longrightarrow>
        (\<exists>s1. f s = (None, s1) \<and> same s1 s') \<or> (e \<noteq> None \<and> same s s'))"

section \<open>Consequences used by the repositories\<close>

lemma update_rows_Some:
  "update_rows m p f k = Some r' \<longleftrightarrow> (\<exists>r. m k = Some r \<and> r' = (if p r then f r else r))"
  by (auto simp: update_rows_def split: option.splits)

lemma update_rows_None: "update_rows m p f k = None \<longleftrightarrow> m k = None"
  by (auto simp: update_rows_def split: option.splits)

lemma dom_update_rows [simp]: "dom (update_rows m p f) = dom m"
  by (auto simp: dom_def update_rows_def split: option.splits)

lemma update_rows_unmatched: "(\<forall>r\<in>ran m. \<not> p r) \<Longrightarrow> update_rows m p f = m"
  by (rule ext) (auto simp: update_rows_def ran_def split: option.splits)

lemma insert_rows_grow: "insert_rows sch m rs = Some m' \<Longrightarrow> m k = Some x \<Longrightarrow> m' k = Some x"
  by (induction rs arbitrary: m) (fastforce simp: insertable_def split: if_splits)+

lemma insert_rows_added:
  assumes "insert_rows sch m rs = Some m'" and "r \<in> set rs"
  shows "m' (sc_key sch r) = Some r \<and> sc_check sch r \<and> m (sc_key sch r) = None"
  using assms
proof (induction rs arbitrary: m)
  case Nil
  then show ?case by simp
next
  case (Cons q rs)
  then have ins: "insertable sch m q" and rest: "insert_rows sch (m(sc_key sch q \<mapsto> q)) rs = Some m'"
    by (auto split: if_splits)
  show ?case
  proof (cases "r \<in> set rs")
    case True
    from Cons.IH [OF rest True] show ?thesis by (auto split: if_splits)
  next
    case False
    then have "r = q" using Cons.prems(2) by simp
    then show ?thesis using ins insert_rows_grow [OF rest, of "sc_key sch q" q] by (simp add: insertable_def)
  qed
qed

lemma insert_rows_dom: "insert_rows sch m rs = Some m' \<Longrightarrow> m' k = Some r \<Longrightarrow> m k = Some r \<or> r \<in> set rs"
  by (induction rs arbitrary: m) (fastforce split: if_splits)+

lemma insert_rows_single:
  "insert_rows sch m [r] = Some m' \<longleftrightarrow> insertable sch m r \<and> m' = m(sc_key sch r \<mapsto> r)"
  by auto

lemma gorm_create_cases [consumes 3]:
  assumes "gorm_laws sch T" and "g_create T s rs = (e, s')" and "\<forall>r\<in>set rs. sc_key sch r \<noteq> 0"
  obtains (applied) "insert_rows sch (g_rows T s) (map (g_stored T) rs) = Some (g_rows T s')"
    | (failed) "e \<noteq> None" and "g_rows T s' = g_rows T s"
  using assms unfolding gorm_laws_def create_law_def by blast

lemma gorm_updates_cases [consumes 3]:
  assumes "gorm_laws sch T" and "g_updates T s p f = (e, s')"
    and "\<And>r. sc_key sch (f r) = sc_key sch r"
  obtains (applied) "updatable sch (g_rows T s) p (assign_row T f)"
      and "g_rows T s' = update_rows (g_rows T s) p (assign_row T f)"
    | (failed) "e \<noteq> None" and "g_rows T s' = g_rows T s"
  using assms unfolding gorm_laws_def updates_law_def by blast

lemma gorm_create_None:
  assumes "gorm_laws sch T" and "g_create T s rs = (None, s')" and "\<forall>r\<in>set rs. sc_key sch r \<noteq> 0"
  shows "insert_rows sch (g_rows T s) (map (g_stored T) rs) = Some (g_rows T s')"
  using gorm_create_cases [OF assms] by auto

lemma gorm_updates_None:
  assumes "gorm_laws sch T" and "g_updates T s p f = (None, s')"
    and "\<And>r. sc_key sch (f r) = sc_key sch r"
  shows "updatable sch (g_rows T s) p (assign_row T f)"
    and "g_rows T s' = update_rows (g_rows T s) p (assign_row T f)"
  using gorm_updates_cases [OF assms] by auto

lemma gorm_create_one_None:
  assumes "gorm_laws sch T" and "g_create T s [r] = (None, s')" and "sc_key sch r \<noteq> 0"
  shows "insertable sch (g_rows T s) (g_stored T r)"
    and "g_rows T s' = (g_rows T s)(sc_key sch (g_stored T r) \<mapsto> g_stored T r)"
  using gorm_create_None [OF assms(1,2)] assms(3) by (auto split: if_splits)

lemma gorm_count_pos:
  assumes "gorm_laws sch T" and "g_count T s p = Inr n"
  shows "0 < n \<longleftrightarrow> (\<exists>r\<in>ran (g_rows T s). p r)"
proof -
  let ?K = "{k. \<exists>r. g_rows T s k = Some r \<and> p r}"
  from assms have fin: "finite (dom (g_rows T s))" and n: "n = int (card ?K)"
    unfolding gorm_laws_def query_law_def by blast+
  have "finite ?K" by (rule finite_subset [OF _ fin]) auto
  then have "0 < n \<longleftrightarrow> ?K \<noteq> {}" by (simp add: n card_gt_0_iff)
  also have "\<dots> \<longleftrightarrow> (\<exists>r\<in>ran (g_rows T s). p r)" by (auto simp: ran_def)
  finally show ?thesis .
qed

lemma gorm_first_Inr:
  "gorm_laws sch T \<Longrightarrow> g_first T s p = Inr r \<Longrightarrow> r \<in> ran (g_rows T s) \<and> p r"
  unfolding gorm_laws_def query_law_def by blast

lemma gorm_first_not_found:
  "gorm_laws sch T \<Longrightarrow> g_first T s p = Inl e \<Longrightarrow> errors_Is e ErrRecordNotFound \<Longrightarrow>
     r \<in> ran (g_rows T s) \<Longrightarrow> \<not> p r"
  unfolding gorm_laws_def query_law_def by blast

lemma lists_rows_set: "lists_rows m p xs \<Longrightarrow> set xs = {r \<in> ran m. p r}"
  by (force simp: lists_rows_def ran_def)

lemma lists_rows_length:
  assumes "lists_rows m p xs"
  shows "length xs = card {k. \<exists>r. m k = Some r \<and> p r}"
  using assms unfolding lists_rows_def by (metis distinct_card length_map)

lemma gorm_find_set:
  "gorm_laws sch T \<Longrightarrow> g_find T s p = Inr xs \<Longrightarrow> set xs = {r \<in> ran (g_rows T s). p r}"
  unfolding gorm_laws_def query_law_def by (blast dest: lists_rows_set)

lemma gorm_find_orderedE:
  assumes "gorm_laws sch T" and "g_find_ordered T s p key n = Inr xs"
  obtains ys where "lists_rows (g_rows T s) p ys" and "sorted (map key ys)" and "xs = take n ys"
  using assms unfolding gorm_laws_def query_law_def by blast

lemma gorm_key: "gorm_laws sch T \<Longrightarrow> g_rows T s k = Some r \<Longrightarrow> sc_key sch r = k"
  unfolding gorm_laws_def key_law_def by blast

lemma gorm_stored_key: "gorm_laws sch T \<Longrightarrow> sc_key sch (g_stored T r) = sc_key sch r"
  unfolding gorm_laws_def key_law_def by blast

lemma gorm_rows_ran: "gorm_laws sch T \<Longrightarrow> r \<in> ran (g_rows T s) \<longleftrightarrow> g_rows T s (sc_key sch r) = Some r"
  by (auto simp: ran_def dest: gorm_key)

lemma gorm_frameD:
  assumes "gorm_frame T U"
  shows "g_rows U (snd (g_create T s rs)) = g_rows U s"
    and "g_rows U (snd (g_updates T s p f)) = g_rows U s"
    and "g_create T s rs = (e, s') \<Longrightarrow> g_rows U s' = g_rows U s"
    and "g_updates T s p f = (e, s') \<Longrightarrow> g_rows U s' = g_rows U s"
proof -
  show c: "g_rows U (snd (g_create T s rs)) = g_rows U s"
    and u: "g_rows U (snd (g_updates T s p f)) = g_rows U s"
    using assms by (auto simp: gorm_frame_def)
  from c show "g_create T s rs = (e, s') \<Longrightarrow> g_rows U s' = g_rows U s" by simp
  from u show "g_updates T s p f = (e, s') \<Longrightarrow> g_rows U s' = g_rows U s" by simp
qed

lemma tx_cases [consumes 2]:
  assumes "tx_laws same tx" and "tx s f = (e, s')"
  obtains (committed) s1 where "f s = (None, s1)" and "same s1 s'"
    | (rolled_back) "e \<noteq> None" and "same s s'"
  using assms unfolding tx_laws_def by blast

lemma tx_None:
  assumes "tx_laws same tx" and "tx s f = (None, s')"
  obtains s1 where "f s = (None, s1)" and "same s1 s'"
  using assms unfolding tx_laws_def by blast

end
