(* ===== verification/Amqp.thy ===== *)
theory Amqp
  imports Go_Json
begin

text \<open>
  The AMQP client (\<open>amqp091-go\<close>) and the broker behind it are not part of the repository. A
  channel is modelled by the calls the code has made on it, in order (\<open>chan\<close>, the latest call
  last), and the broker by a parameter: a record of functions that give the reply to the latest
  call, each of which may depend on every call made so far. Nothing is assumed of the replies,
  so a theorem holds for every behaviour of the broker, for lost connections and for deadlines
  that pass. What the code does is the sequence of calls it makes.
\<close>

section \<open>Messages\<close>

datatype hval =
    HInt goint
  | HInt8 "8 word"
  | HInt16 "16 word"
  | HInt32 int32
  | HInt64 "64 word"
  | HString string
  | HTime time
  | HOther string

text \<open>An \<open>amqp.Table\<close>: nil, or a map from keys to values.\<close>

type_synonym table = "(string \<rightharpoonup> hval) option"

text \<open>
  \<open>HTime t\<close> stands for the RFC 3339 text of the instant \<open>t\<close>. A publishing and a delivery carry
  the same properties; a delivery has the tag by which it is settled as well.
\<close>

record publishing =
  p_headers :: table
  p_content_type :: string
  p_content_encoding :: string
  p_persistent :: bool
  p_priority :: nat
  p_correlation_id :: string
  p_reply_to :: string
  p_message_id :: string
  p_timestamp :: time
  p_type :: string
  p_app_id :: string
  p_body :: body

record delivery = publishing +
  d_tag :: nat

section \<open>Calls and replies\<close>

datatype amqp_call =
    ExchangeDeclare string string bool bool bool bool
  | QueueDeclare string bool bool bool bool table
  | QueueBind string string string bool
  | ConfirmMode bool
  | Consume string string bool bool bool bool
  | PublishCall string string bool bool publishing
  | WaitConfirm
  | RecvReturn
  | AckCall nat bool
  | NackCall nat bool bool

type_synonym chan = "amqp_call list"

text \<open>What a non-blocking receive on the channel of returned messages finds.\<close>

datatype amqp_return = NoReturn | ReturnsClosed | Returned int string string

record amqp =
  reply_err :: "chan \<Rightarrow> err option"
  reply_acked :: "chan \<Rightarrow> bool"
  reply_return :: "chan \<Rightarrow> amqp_return"
  reply_queue :: "chan \<Rightarrow> string"

definition call :: "amqp \<Rightarrow> amqp_call \<Rightarrow> chan act" where
  "call B c h = (reply_err B (h @ [c]), h @ [c])"

lemma call_snd [simp]: "snd (call B c h) = h @ [c]"
  by (simp add: call_def)

lemma call_fst [simp]: "fst (call B c h) = reply_err B (h @ [c])"
  by (simp add: call_def)

text \<open>\<open>fmt.Errorf("...: %w", err)\<close> around the error of a call.\<close>

definition wrapping :: "string \<Rightarrow> 's act \<Rightarrow> 's act" where
  "wrapping m f s = (case f s of (Some e, s') \<Rightarrow> (Some (Wrap m e), s') | (None, s') \<Rightarrow> (None, s'))"

lemma wrapping_snd [simp]: "snd (wrapping m f s) = snd (f s)"
  by (auto simp: wrapping_def split: prod.splits option.splits)

lemma wrapping_None_iff: "wrapping m f s = (None, s') \<longleftrightarrow> f s = (None, s')"
  by (auto simp: wrapping_def split: prod.splits option.splits)

text \<open>Every action only adds calls at the end of the channel.\<close>

definition extends :: "chan act \<Rightarrow> bool" where
  "extends f \<longleftrightarrow> (\<forall>h. \<exists>cs. snd (f h) = h @ cs)"

lemma extends_call [simp, intro]: "extends (call B c)"
  by (simp add: extends_def)

lemma extends_seq [intro]: "extends f \<Longrightarrow> extends g \<Longrightarrow> extends (seq f g)"
  unfolding extends_def by (metis append_assoc seq_snd)

lemma extends_wrapping [intro]: "extends f \<Longrightarrow> extends (wrapping m f)"
  by (simp add: extends_def)

section \<open>Publishing with confirmation\<close>

text \<open>
  \<open>PublishWithDeferredConfirmWithContext\<close> followed by \<open>confirmation.WaitContext\<close>: an error of
  either, or the message \<open>nack\<close> when the broker answers with a negative acknowledgement.
\<close>

definition confirmed_publish ::
  "amqp \<Rightarrow> string \<Rightarrow> string \<Rightarrow> publishing \<Rightarrow> string \<Rightarrow> chan act" where
  "confirmed_publish B exchange key msg nack =
     seq (call B (PublishCall exchange key True False msg))
      (seq (call B WaitConfirm)
        (\<lambda>h. (if reply_acked B h then None else Some (Msg nack), h)))"

lemma extends_confirmed_publish [intro]: "extends (confirmed_publish B ex k m n)"
  unfolding confirmed_publish_def
  by (intro extends_seq extends_call) (simp add: extends_def)

text \<open>The broker has confirmed a publish that this channel made in the calls \<open>h\<close>.\<close>

definition confirmed_at :: "amqp \<Rightarrow> chan \<Rightarrow> string \<Rightarrow> string \<Rightarrow> publishing \<Rightarrow> bool" where
  "confirmed_at B h exchange key msg \<longleftrightarrow>
     reply_err B (h @ [PublishCall exchange key True False msg]) = None
     \<and> reply_err B (h @ [PublishCall exchange key True False msg, WaitConfirm]) = None
     \<and> reply_acked B (h @ [PublishCall exchange key True False msg, WaitConfirm])"

definition broker_confirmed :: "amqp \<Rightarrow> chan \<Rightarrow> string \<Rightarrow> string \<Rightarrow> publishing \<Rightarrow> bool" where
  "broker_confirmed B h exchange key msg \<longleftrightarrow>
     (\<exists>h1 h2. h = h1 @ [PublishCall exchange key True False msg, WaitConfirm] @ h2
        \<and> confirmed_at B h1 exchange key msg)"

lemma broker_confirmed_append: "broker_confirmed B h ex k m \<Longrightarrow> broker_confirmed B (h @ cs) ex k m"
  unfolding broker_confirmed_def by (metis append_assoc)

lemma confirmed_publish_None:
  assumes "confirmed_publish B ex k m n h = (None, h')"
  shows "h' = h @ [PublishCall ex k True False m, WaitConfirm]"
    and "confirmed_at B h ex k m" and "broker_confirmed B h' ex k m"
proof -
  from assms show h': "h' = h @ [PublishCall ex k True False m, WaitConfirm]"
    and at: "confirmed_at B h ex k m"
    by (auto simp: confirmed_publish_def seq_None_iff call_def confirmed_at_def split: if_splits)
  then show "broker_confirmed B h' ex k m" unfolding broker_confirmed_def by force
qed

lemma confirmed_publish_cases:
  "confirmed_publish B ex k m n h =
     (case reply_err B (h @ [PublishCall ex k True False m]) of
        Some e \<Rightarrow> (Some e, h @ [PublishCall ex k True False m])
      | None \<Rightarrow> (case reply_err B (h @ [PublishCall ex k True False m, WaitConfirm]) of
          Some e \<Rightarrow> (Some e, h @ [PublishCall ex k True False m, WaitConfirm])
        | None \<Rightarrow> (if reply_acked B (h @ [PublishCall ex k True False m, WaitConfirm])
            then None else Some (Msg n), h @ [PublishCall ex k True False m, WaitConfirm])))"
  by (auto simp: confirmed_publish_def seq_def call_def split: option.splits)

lemma confirmed_publish_calls:
  "snd (confirmed_publish B ex k m n h) =
     (if reply_err B (h @ [PublishCall ex k True False m]) = None
      then h @ [PublishCall ex k True False m, WaitConfirm]
      else h @ [PublishCall ex k True False m])"
  by (auto simp: confirmed_publish_def seq_def call_def split: option.splits)

end
