(* ===== verification/Publisher.thy ===== *)
theory Publisher
  imports Amqp
begin

text \<open>
  The publisher each write-side service owns (\<open>RabbitMQPublisher\<close>). The three copies of
  \<open>rabbitmq_publisher.go\<close> differ in \<open>eventRoutingKey\<close> only, so \<open>publish\<close> takes the routing
  function of its service. The mutex makes the calls of one \<open>Publish\<close> contiguous.
\<close>

section \<open>Routing keys\<close>

definition unsupported_event :: "string \<Rightarrow> err" where
  "unsupported_event eventType = Msg (''unsupported event type: '' @ eventType)"

definition order_eventRoutingKey :: "string \<Rightarrow> err + string" where
  "order_eventRoutingKey eventType =
     (if eventType = ''ReserveStockRequested'' then Inr ''order.created''
      else Inl (unsupported_event eventType))"

definition inventory_eventRoutingKey :: "string \<Rightarrow> err + string" where
  "inventory_eventRoutingKey eventType =
     (if eventType = ''StockReserved'' then Inr ''stock.reserved''
      else if eventType = ''StockReservationFailed'' then Inr ''stock.notreserved''
      else Inl (unsupported_event eventType))"

definition catalog_eventRoutingKey :: "string \<Rightarrow> err + string" where
  "catalog_eventRoutingKey eventType =
     (if eventType = ''ProductCreated'' then Inr ''product.created''
      else Inl (unsupported_event eventType))"

section \<open>The publisher\<close>

definition NewRabbitMQPublisher :: "amqp \<Rightarrow> string \<Rightarrow> chan act" where
  "NewRabbitMQPublisher B exchange =
     seq (call B (ExchangeDeclare exchange ''topic'' True False False False))
       (call B (ConfirmMode False))"

definition event_publishing :: "body \<Rightarrow> publishing" where
  "event_publishing payload =
     \<lparr>p_headers = None, p_content_type = ''application/json'', p_content_encoding = '''',
      p_persistent = True, p_priority = 0, p_correlation_id = '''', p_reply_to = '''',
      p_message_id = '''', p_timestamp = 0, p_type = '''', p_app_id = '''', p_body = payload\<rparr>"

text \<open>The \<open>select\<close> on the returns channel after the confirmation.\<close>

definition check_returned :: "amqp \<Rightarrow> chan act" where
  "check_returned B h =
     (case reply_return B (h @ [RecvReturn]) of
        NoReturn \<Rightarrow> None
      | ReturnsClosed \<Rightarrow> Some (Msg ''RabbitMQ return notification channel closed'')
      | Returned code reason key \<Rightarrow>
          Some (Msg (''RabbitMQ could not route message: code='' @ itoa code @
            '' reason='' @ reason @ '' routing_key='' @ key)),
      h @ [RecvReturn])"

definition Publish :: "(string \<Rightarrow> err + string) \<Rightarrow> amqp \<Rightarrow> string \<Rightarrow> string \<Rightarrow> body \<Rightarrow> chan act" where
  "Publish route B exchange eventType payload h =
     (case route eventType of
        Inl e \<Rightarrow> (Some e, h)
      | Inr key \<Rightarrow>
          seq (confirmed_publish B exchange key (event_publishing payload)
                 ''RabbitMQ negatively acknowledged message'')
            (check_returned B) h)"

definition order_Publish :: "amqp \<Rightarrow> string \<Rightarrow> string \<Rightarrow> body \<Rightarrow> chan act" where
  "order_Publish = Publish order_eventRoutingKey"

definition inventory_Publish :: "amqp \<Rightarrow> string \<Rightarrow> string \<Rightarrow> body \<Rightarrow> chan act" where
  "inventory_Publish = Publish inventory_eventRoutingKey"

definition catalog_Publish :: "amqp \<Rightarrow> string \<Rightarrow> string \<Rightarrow> body \<Rightarrow> chan act" where
  "catalog_Publish = Publish catalog_eventRoutingKey"

text \<open>
  The interface \<open>port.EventPublisher\<close>: what has been accepted stays accepted, and a call that
  returns no error has had its message accepted.
\<close>

locale event_publisher =
  fixes publish :: "'p \<Rightarrow> string \<Rightarrow> body \<Rightarrow> err option \<times> 'p"
    and accepted :: "'p \<Rightarrow> (string \<times> body) set"
  assumes accepted_mono: "publish p t b = (e, p') \<Longrightarrow> accepted p \<subseteq> accepted p'"
    and accepted_ok: "publish p t b = (None, p') \<Longrightarrow> (t, b) \<in> accepted p'"

text \<open>
  For RabbitMQ, accepted means: published to the service's exchange under the routing key of
  its type, confirmed by the broker, and not reported as unroutable.
\<close>

definition rabbit_accepted ::
  "(string \<Rightarrow> err + string) \<Rightarrow> amqp \<Rightarrow> string \<Rightarrow> chan \<Rightarrow> (string \<times> body) set" where
  "rabbit_accepted route B exchange h =
     {(t, b). \<exists>key h1 h2. route t = Inr key
        \<and> h = h1 @ [PublishCall exchange key True False (event_publishing b), WaitConfirm, RecvReturn] @ h2
        \<and> confirmed_at B h1 exchange key (event_publishing b)
        \<and> reply_return B (h1 @ [PublishCall exchange key True False (event_publishing b),
             WaitConfirm, RecvReturn]) = NoReturn}"

lemma extends_Publish [intro]: "extends (Publish route B ex t b)"
  unfolding extends_def
proof
  fix h
  show "\<exists>cs. snd (Publish route B ex t b h) = h @ cs"
  proof (cases "route t")
    case (Inl e)
    then show ?thesis by (simp add: Publish_def)
  next
    case (Inr key)
    have "extends (seq (confirmed_publish B ex key (event_publishing b)
        ''RabbitMQ negatively acknowledged message'') (check_returned B))"
      by (intro extends_seq extends_confirmed_publish) (simp add: extends_def check_returned_def)
    then show ?thesis unfolding extends_def by (simp add: Publish_def Inr)
  qed
qed

lemma rabbit_accepted_append: "rabbit_accepted route B ex h \<subseteq> rabbit_accepted route B ex (h @ cs)"
  unfolding rabbit_accepted_def by clarsimp (metis append_assoc append_Cons)

lemma Publish_None:
  assumes "Publish route B ex t b h = (None, h')"
  obtains key where "route t = Inr key"
    and "h' = h @ [PublishCall ex key True False (event_publishing b), WaitConfirm, RecvReturn]"
    and "confirmed_at B h ex key (event_publishing b)"
    and "reply_return B h' = NoReturn"
proof -
  from assms obtain key h1 where k: "route t = Inr key"
    and c: "confirmed_publish B ex key (event_publishing b)
        ''RabbitMQ negatively acknowledged message'' h = (None, h1)"
    and r: "check_returned B h1 = (None, h')"
    by (auto simp: Publish_def seq_None_iff split: sum.splits)
  from r have h': "h' = h1 @ [RecvReturn]" and ret: "reply_return B h' = NoReturn"
    by (auto simp: check_returned_def split: amqp_return.splits)
  from confirmed_publish_None(1,2) [OF c] have
    "h' = h @ [PublishCall ex key True False (event_publishing b), WaitConfirm, RecvReturn]"
    and "confirmed_at B h ex key (event_publishing b)"
    unfolding h' by simp_all
  with k ret show thesis using that by blast
qed

lemma Publish_accepted:
  assumes "Publish route B ex t b h = (None, h')"
  shows "(t, b) \<in> rabbit_accepted route B ex h'"
  using assms by (rule Publish_None) (auto simp: rabbit_accepted_def)

interpretation rabbit: event_publisher "\<lambda>h t b. Publish route B exchange t b h"
    "rabbit_accepted route B exchange"
  for route B exchange
proof
  fix h t b e h'
  assume run: "Publish route B exchange t b h = (e, h')"
  obtain cs where "snd (Publish route B exchange t b h) = h @ cs"
    using extends_Publish unfolding extends_def by blast
  with run show "rabbit_accepted route B exchange h \<subseteq> rabbit_accepted route B exchange h'"
    using rabbit_accepted_append by simp
next
  fix h t b h'
  assume "Publish route B exchange t b h = (None, h')"
  then show "(t, b) \<in> rabbit_accepted route B exchange h'" by (rule Publish_accepted)
qed

end
