(* ===== verification/Outbox.thy ===== *)
theory Outbox
  imports Gorm Publisher
begin

text \<open>
  The transactional outbox, which the three write-side services share in three copies: the
  message (\<open>domain.OutboxMessage\<close>), its table, the repository \<open>outboxRepositoryPG\<close> and the
  worker that publishes what is pending. The interfaces \<open>port.OutboxRepository\<close> and
  \<open>port.EventPublisher\<close> are locales; the worker's lemmas are proved inside them and hold for
  the PostgreSQL repository and the RabbitMQ publisher by interpretation.
\<close>

section \<open>The message and its row\<close>

record outbox_message =
  om_id :: uuid
  om_aggregate_id :: uuid
  om_aggregate_type :: string
  om_event_type :: string
  om_payload :: body
  om_retry_count :: goint
  om_created_at :: time
  om_processed_at :: "time option"

record outbox_row =
  ob_id :: uuid
  ob_aggregate_id :: uuid
  ob_aggregate_type :: string
  ob_event_type :: string
  ob_payload :: body
  ob_retry_count :: goint
  ob_created_at :: time
  ob_processed_at :: "time option"

definition toOutboxDataModel :: "outbox_message \<Rightarrow> outbox_row" where
  "toOutboxDataModel m =
     \<lparr>ob_id = om_id m, ob_aggregate_id = om_aggregate_id m, ob_aggregate_type = om_aggregate_type m,
      ob_event_type = om_event_type m, ob_payload = om_payload m, ob_retry_count = om_retry_count m,
      ob_created_at = om_created_at m, ob_processed_at = om_processed_at m\<rparr>"

definition fromOutboxDataModel :: "outbox_row \<Rightarrow> outbox_message" where
  "fromOutboxDataModel m =
     \<lparr>om_id = ob_id m, om_aggregate_id = ob_aggregate_id m, om_aggregate_type = ob_aggregate_type m,
      om_event_type = ob_event_type m, om_payload = ob_payload m, om_retry_count = ob_retry_count m,
      om_created_at = ob_created_at m, om_processed_at = ob_processed_at m\<rparr>"

text \<open>
  The table's constraints from the migrations: \<open>VARCHAR(100)\<close> counts characters, \<open>INT\<close> is a
  32-bit column, and a \<open>JSONB\<close> column takes JSON only.
\<close>

definition utf8_length :: "string \<Rightarrow> nat" where
  "utf8_length s = length (filter (\<lambda>c. \<not> (CHR 0x80 \<le> c \<and> c \<le> CHR 0xBF)) s)"

definition int4 :: "goint \<Rightarrow> bool" where
  "int4 n \<longleftrightarrow> - (2 ^ 31) \<le> sint n \<and> sint n < 2 ^ 31"

fun is_json :: "body \<Rightarrow> bool" where
  "is_json (Doc j) = True"
| "is_json (NotJson s) = False"

definition outbox_schema :: "outbox_row schema" where
  "outbox_schema =
     \<lparr>sc_key = ob_id,
      sc_check = (\<lambda>r. utf8_length (ob_aggregate_type r) \<le> 100 \<and> utf8_length (ob_event_type r) \<le> 100
        \<and> is_json (ob_payload r) \<and> int4 (ob_retry_count r)),
      sc_conflict = (\<lambda>r r'. False)\<rparr>"

text \<open>
  What the columns keep, whatever their rounding of times: an inserted row keeps its type, its
  aggregate, its counter, whether it is processed, and the value of its JSON payload; an
  UPDATE leaves the columns it does not set.
\<close>

definition outbox_columns :: "('s, outbox_row) gorm \<Rightarrow> bool" where
  "outbox_columns T \<longleftrightarrow>
     (\<forall>r. ob_event_type (g_stored T r) = ob_event_type r
        \<and> ob_aggregate_id (g_stored T r) = ob_aggregate_id r
        \<and> ob_retry_count (g_stored T r) = ob_retry_count r
        \<and> (ob_processed_at (g_stored T r) = None \<longleftrightarrow> ob_processed_at r = None)
        \<and> same_body (ob_payload (g_stored T r)) (ob_payload r)) \<and>
     (\<forall>r r'. ob_event_type (g_assigned T r r') = ob_event_type r'
        \<and> ob_aggregate_id (g_assigned T r r') = ob_aggregate_id r'
        \<and> ob_retry_count (g_assigned T r r') = ob_retry_count r'
        \<and> (ob_processed_at (g_assigned T r r') = None \<longleftrightarrow> ob_processed_at r' = None)
        \<and> (ob_payload r' = ob_payload r \<longrightarrow> ob_payload (g_assigned T r r') = ob_payload r)
        \<and> (ob_created_at r' = ob_created_at r \<longrightarrow> ob_created_at (g_assigned T r r') = ob_created_at r))"

definition outbox_laws :: "('s, outbox_row) gorm \<Rightarrow> bool" where
  "outbox_laws T \<longleftrightarrow> gorm_laws outbox_schema T \<and> outbox_columns T"

section \<open>The repository\<close>

definition FindUnprocessed :: "('s, outbox_row) gorm \<Rightarrow> 's \<Rightarrow> nat \<Rightarrow> err + outbox_message list" where
  "FindUnprocessed T s limit =
     (case g_find_ordered T s (\<lambda>r. ob_processed_at r = None) ob_created_at limit of
        Inl e \<Rightarrow> Inl e
      | Inr models \<Rightarrow> Inr (map fromOutboxDataModel models))"

text \<open>\<open>clock i\<close> is what \<open>time.Now().UTC()\<close> returns while message \<open>i\<close> is marked.\<close>

definition MarkAsProcessed :: "('s, outbox_row) gorm \<Rightarrow> (uuid \<Rightarrow> time) \<Rightarrow> 's \<Rightarrow> uuid \<Rightarrow> err option \<times> 's" where
  "MarkAsProcessed T clock s i =
     g_updates T s (\<lambda>r. ob_id r = i) (\<lambda>r. r\<lparr>ob_processed_at := Some (clock i)\<rparr>)"

definition IncrementRetry :: "('s, outbox_row) gorm \<Rightarrow> 's \<Rightarrow> uuid \<Rightarrow> err option \<times> 's" where
  "IncrementRetry T s i =
     g_updates T s (\<lambda>r. ob_id r = i) (\<lambda>r. r\<lparr>ob_retry_count := ob_retry_count r + 1\<rparr>)"

section \<open>The worker\<close>

text \<open>
  The worker holds the two ports as interface values, so its functions take the ports' methods
  as arguments. A pass works on the store's state and on the publisher's.
\<close>

fun process_each ::
  "('s \<Rightarrow> uuid \<Rightarrow> err option \<times> 's) \<Rightarrow> ('s \<Rightarrow> uuid \<Rightarrow> err option \<times> 's)
   \<Rightarrow> ('p \<Rightarrow> string \<Rightarrow> body \<Rightarrow> err option \<times> 'p) \<Rightarrow> outbox_message list \<Rightarrow> 's \<times> 'p \<Rightarrow> 's \<times> 'p" where
  "process_each mark incr publish [] (s, p) = (s, p)"
| "process_each mark incr publish (m # ms) (s, p) =
     (case publish p (om_event_type m) (om_payload m) of
        (Some e, p') \<Rightarrow> process_each mark incr publish ms (snd (incr s (om_id m)), p')
      | (None, p') \<Rightarrow> process_each mark incr publish ms (snd (mark s (om_id m)), p'))"

definition process ::
  "('s \<Rightarrow> nat \<Rightarrow> err + outbox_message list) \<Rightarrow> ('s \<Rightarrow> uuid \<Rightarrow> err option \<times> 's)
   \<Rightarrow> ('s \<Rightarrow> uuid \<Rightarrow> err option \<times> 's) \<Rightarrow> ('p \<Rightarrow> string \<Rightarrow> body \<Rightarrow> err option \<times> 'p)
   \<Rightarrow> nat \<Rightarrow> 's \<times> 'p \<Rightarrow> 's \<times> 'p" where
  "process find_un mark incr publish batchSize sp =
     (case find_un (fst sp) batchSize of
        Inl e \<Rightarrow> sp
      | Inr messages \<Rightarrow> process_each mark incr publish messages sp)"

text \<open>
  \<open>Start\<close> waits for a tick or for the context's end; None says that it is still waiting when
  the given events are used up.
\<close>

datatype worker_event = Tick | WorkerDone

fun worker_start :: "('w \<Rightarrow> 'w) \<Rightarrow> worker_event list \<Rightarrow> 'w \<Rightarrow> bool \<times> 'w" where
  "worker_start proc [] w = (False, w)"
| "worker_start proc (WorkerDone # es) w = (True, w)"
| "worker_start proc (Tick # es) w = worker_start proc es (proc w)"

section \<open>The interfaces\<close>

locale outbox_repository =
  fixes invar :: "'s \<Rightarrow> bool"
    and content :: "'s \<Rightarrow> uuid \<Rightarrow> (string \<times> body) option"
    and pending :: "'s \<Rightarrow> uuid set"
    and retries :: "'s \<Rightarrow> uuid \<Rightarrow> goint option"
    and find :: "'s \<Rightarrow> nat \<Rightarrow> err + outbox_message list"
    and mark :: "'s \<Rightarrow> uuid \<Rightarrow> err option \<times> 's"
    and incr :: "'s \<Rightarrow> uuid \<Rightarrow> err option \<times> 's"
  assumes find_pending: "invar s \<Longrightarrow> find s n = Inr ms \<Longrightarrow> m \<in> set ms \<Longrightarrow>
      om_id m \<in> pending s \<and> content s (om_id m) = Some (om_event_type m, om_payload m)"
    and find_count: "invar s \<Longrightarrow> find s n = Inr ms \<Longrightarrow>
      finite (pending s) \<and> length ms = min n (card (pending s))"
    and find_distinct: "invar s \<Longrightarrow> find s n = Inr ms \<Longrightarrow> distinct (map om_id ms)"
    and mark_keeps: "invar s \<Longrightarrow> mark s i = (e, s') \<Longrightarrow> invar s' \<and> content s' = content s"
    and mark_pending: "invar s \<Longrightarrow> mark s i = (e, s') \<Longrightarrow>
      pending s' = pending s - {i} \<or> e \<noteq> None \<and> pending s' = pending s"
    and incr_keeps: "invar s \<Longrightarrow> incr s i = (e, s') \<Longrightarrow>
      invar s' \<and> content s' = content s \<and> pending s' = pending s"
    and incr_retries: "invar s \<Longrightarrow> incr s i = (None, s') \<Longrightarrow>
      retries s' i = map_option (\<lambda>n. n + 1) (retries s i)"

locale outbox_worker = outbox_repository + event_publisher
begin

text \<open>Induction over the messages of a pass; what one message does is the same in each proof.\<close>

lemma each_keeps:
  assumes "invar s" and "process_each mark incr publish ms (s, p) = (s', p')"
  shows "invar s' \<and> content s' = content s \<and> pending s' \<subseteq> pending s \<and> accepted p \<subseteq> accepted p'"
  using assms
proof (induction ms arbitrary: s p)
  case Nil
  then show ?case by simp
next
  case (Cons m ms)
  obtain e q where q: "publish p (om_event_type m) (om_payload m) = (e, q)" by fastforce
  obtain em sm where sm: "mark s (om_id m) = (em, sm)" by fastforce
  obtain ei si where si: "incr s (om_id m) = (ei, si)" by fastforce
  define t where "t = (if e = None then sm else si)"
  have t: "invar t" "content t = content s" "pending t \<subseteq> pending s"
    using mark_keeps [OF Cons.prems(1) sm] mark_pending [OF Cons.prems(1) sm]
      incr_keeps [OF Cons.prems(1) si] by (auto simp: t_def)
  have "process_each mark incr publish ms (t, q) = (s', p')"
    using Cons.prems(2) q sm si by (cases e) (auto simp: t_def)
  from Cons.IH [OF t(1) this] t accepted_mono [OF q] show ?case by auto
qed

lemma each_accepted:
  assumes "invar s" and "process_each mark incr publish ms (s, p) = (s', p')"
    and "\<And>m. m \<in> set ms \<Longrightarrow> content s (om_id m) = Some (om_event_type m, om_payload m)"
    and "i \<in> pending s" and "i \<notin> pending s'" and "content s i = Some tb"
  shows "tb \<in> accepted p'"
  using assms
proof (induction ms arbitrary: s p)
  case Nil
  then show ?case by simp
next
  case (Cons m ms)
  obtain e q where q: "publish p (om_event_type m) (om_payload m) = (e, q)" by fastforce
  obtain em sm where sm: "mark s (om_id m) = (em, sm)" by fastforce
  obtain ei si where si: "incr s (om_id m) = (ei, si)" by fastforce
  show ?case
  proof (cases e)
    case None
    with Cons.prems(2) q sm have rest: "process_each mark incr publish ms (sm, q) = (s', p')" by simp
    have keep: "invar sm" "content sm = content s"
      using mark_keeps [OF Cons.prems(1) sm] by auto
    show ?thesis
    proof (cases "i \<in> pending sm")
      case True
      with Cons.IH [OF keep(1) rest] Cons.prems keep show ?thesis by simp
    next
      case False
      then have "i = om_id m" using mark_pending [OF Cons.prems(1) sm] Cons.prems(4) by auto
      then have "tb = (om_event_type m, om_payload m)" using Cons.prems(3,6) by simp
      then have "tb \<in> accepted q" using accepted_ok q None by simp
      then show ?thesis using each_keeps [OF keep(1) rest] by blast
    qed
  next
    case (Some x)
    with Cons.prems(2) q si have rest: "process_each mark incr publish ms (si, q) = (s', p')" by simp
    have "invar si" "content si = content s" "pending si = pending s"
      using incr_keeps [OF Cons.prems(1) si] by auto
    with Cons.IH [OF _ rest] Cons.prems show ?thesis by simp
  qed
qed

theorem process_keeps:
  assumes "invar s" and "process find mark incr publish n (s, p) = (s', p')"
  shows "invar s' \<and> content s' = content s \<and> pending s' \<subseteq> pending s \<and> accepted p \<subseteq> accepted p'"
  using assms each_keeps by (auto simp: process_def split: sum.splits)

theorem process_accepted:
  assumes "invar s" and "process find mark incr publish n (s, p) = (s', p')"
    and "i \<in> pending s" and "i \<notin> pending s'" and "content s i = Some tb"
  shows "tb \<in> accepted p'"
proof (cases "find s n")
  case (Inl e)
  with assms show ?thesis by (simp add: process_def)
next
  case (Inr ms)
  with assms(2) have "process_each mark incr publish ms (s, p) = (s', p')" by (simp add: process_def)
  then show ?thesis
    using find_pending [OF assms(1) Inr] assms(1,3-5) by (intro each_accepted [of s ms p s' p' i]) auto
qed

text \<open>A failing message does not hold up the others: each is attempted, in the order found.\<close>

lemma each_retires:
  assumes "invar s" and "process_each mark incr publish ms (s, p) = (s', p')" and "good s"
    and "\<And>p m. m \<in> set ms \<Longrightarrow> fst (publish p (om_event_type m) (om_payload m)) = None"
    and "\<And>t i. good t \<Longrightarrow> fst (mark t i) = None \<and> good (snd (mark t i))"
  shows "good s' \<and> (\<forall>m\<in>set ms. om_id m \<notin> pending s')"
  using assms
proof (induction ms arbitrary: s p)
  case Nil
  then show ?case by simp
next
  case (Cons x ms)
  obtain q where q: "publish p (om_event_type x) (om_payload x) = (None, q)"
    using Cons.prems(4) [of x p] by (metis list.set_intros(1) prod.collapse)
  obtain sm where sm: "mark s (om_id x) = (None, sm)" and good: "good sm"
    using Cons.prems(5) [OF Cons.prems(3), of "om_id x"] by (cases "mark s (om_id x)") auto
  from Cons.prems(2) q sm have rest: "process_each mark incr publish ms (sm, q) = (s', p')" by simp
  have keep: "invar sm" using mark_keeps [OF Cons.prems(1) sm] by simp
  have "good s' \<and> (\<forall>m\<in>set ms. om_id m \<notin> pending s')"
    using Cons.prems(4) by (intro Cons.IH [OF keep rest good _ Cons.prems(5)]) auto
  moreover have "om_id x \<notin> pending s'"
    using mark_pending [OF Cons.prems(1) sm] each_keeps [OF keep rest] by auto
  ultimately show ?case by simp
qed

theorem process_retires:
  assumes "invar s" and "find s n = Inr ms"
    and "process find mark incr publish n (s, p) = (s', p')" and "good s"
    and "\<And>p m. m \<in> set ms \<Longrightarrow> fst (publish p (om_event_type m) (om_payload m)) = None"
    and "\<And>t i. good t \<Longrightarrow> fst (mark t i) = None \<and> good (snd (mark t i))"
  shows "good s' \<and> (\<forall>m\<in>set ms. om_id m \<notin> pending s')"
proof -
  have "process_each mark incr publish ms (s, p) = (s', p')" using assms(2,3) by (simp add: process_def)
  then show ?thesis by (rule each_retires [OF assms(1) _ assms(4-6)])
qed

text \<open>A pass in which nothing fails retires a batch, so repeated passes empty the outbox.\<close>

lemma process_batch:
  assumes "invar s" and "find s n = Inr ms" and "process find mark incr publish n (s, p) = (s', p')" and "good s"
    and "\<And>p m. m \<in> set ms \<Longrightarrow> fst (publish p (om_event_type m) (om_payload m)) = None"
    and "\<And>t i. good t \<Longrightarrow> fst (mark t i) = None \<and> good (snd (mark t i))"
  shows "good s'" and "finite (pending s')" and "card (pending s') \<le> card (pending s) - n"
proof -
  note count = find_count [OF assms(1,2)] and retired = process_retires [OF assms]
  then show "good s'" by blast
  have sub: "pending s' \<subseteq> pending s" using process_keeps [OF assms(1,3)] by blast
  then show fin: "finite (pending s')" using count finite_subset by blast
  have "pending s' \<subseteq> pending s - om_id ` set ms"
    using sub retired by blast
  then have "card (pending s') \<le> card (pending s - om_id ` set ms)"
    using count by (intro card_mono) auto
  also have "\<dots> = card (pending s) - card (om_id ` set ms)"
    using find_pending [OF assms(1,2)] by (intro card_Diff_subset) auto
  also have "card (om_id ` set ms) = length ms"
    using find_distinct [OF assms(1,2)] by (metis distinct_card length_map set_map)
  finally show "card (pending s') \<le> card (pending s) - n" using count by auto
qed

theorem passes_drain:
  assumes "invar s" and "finite (pending s)" and "card (pending s) \<le> k * n" and "good s"
    and "\<And>t. good t \<Longrightarrow> \<exists>ms. find t n = Inr ms"
    and "\<And>p i t b. i \<in> pending s \<Longrightarrow> content s i = Some (t, b) \<Longrightarrow> fst (publish p t b) = None"
    and "\<And>t i. good t \<Longrightarrow> fst (mark t i) = None \<and> good (snd (mark t i))"
  shows "pending (fst (snd (worker_start (process find mark incr publish n) (replicate k Tick) (s, p)))) = {}"
  using assms(1-4,6)
proof (induction k arbitrary: s p)
  case 0
  then show ?case by simp
next
  case (Suc k)
  obtain s' p' where run: "process find mark incr publish n (s, p) = (s', p')" by fastforce
  obtain ms where ms: "find s n = Inr ms" using assms(5) Suc.prems(4) by blast
  have pub: "fst (publish p (om_event_type m) (om_payload m)) = None" if "m \<in> set ms" for p m
    using find_pending [OF Suc.prems(1) ms that] Suc.prems(5) by blast
  note batch = process_batch [OF Suc.prems(1) ms run Suc.prems(4) pub assms(7)]
  note keep = process_keeps [OF Suc.prems(1) run]
  have "pending (fst (snd (worker_start (process find mark incr publish n) (replicate k Tick) (s', p')))) = {}"
  proof (rule Suc.IH)
    show "invar s'" and "finite (pending s')" and "good s'" using keep batch by auto
    show "card (pending s') \<le> k * n" using batch Suc.prems(3) by simp
    show "fst (publish p t b) = None" if "i \<in> pending s'" "content s' i = Some (t, b)" for p i t b
      using keep that Suc.prems(5) [of i t b p] by auto
  qed
  then show ?case using run by simp
qed

end

section \<open>The PostgreSQL repository provides the interface\<close>

definition outbox_content :: "('s, outbox_row) gorm \<Rightarrow> 's \<Rightarrow> uuid \<Rightarrow> (string \<times> body) option" where
  "outbox_content T s i = map_option (\<lambda>r. (ob_event_type r, ob_payload r)) (g_rows T s i)"

definition outbox_pending :: "('s, outbox_row) gorm \<Rightarrow> 's \<Rightarrow> uuid set" where
  "outbox_pending T s = {i. \<exists>r. g_rows T s i = Some r \<and> ob_processed_at r = None}"

definition outbox_retries :: "('s, outbox_row) gorm \<Rightarrow> 's \<Rightarrow> uuid \<Rightarrow> goint option" where
  "outbox_retries T s i = map_option ob_retry_count (g_rows T s i)"

lemma outbox_key: "outbox_laws T \<Longrightarrow> g_rows T s k = Some r \<Longrightarrow> ob_id r = k"
  using gorm_key [of outbox_schema T s k r] by (simp add: outbox_laws_def outbox_schema_def)

lemma FindUnprocessed_rows:
  assumes laws: "outbox_laws T" and run: "FindUnprocessed T s n = Inr ms"
  obtains ks where "distinct ks" and "map om_id ms = ks"
    and "finite (outbox_pending T s)" and "length ks = min n (card (outbox_pending T s))"
    and "\<And>m. m \<in> set ms \<Longrightarrow>
      \<exists>r. g_rows T s (om_id m) = Some r \<and> ob_processed_at r = None \<and> m = fromOutboxDataModel r"
proof -
  from run obtain xs where find: "g_find_ordered T s (\<lambda>r. ob_processed_at r = None) ob_created_at n = Inr xs"
    and ms: "ms = map fromOutboxDataModel xs"
    by (auto simp: FindUnprocessed_def split: sum.splits)
  have gl: "gorm_laws outbox_schema T" using laws by (simp add: outbox_laws_def)
  from gorm_find_orderedE [OF gl find] obtain ys
    where rows: "lists_rows (g_rows T s) (\<lambda>r. ob_processed_at r = None) ys" and xs: "xs = take n ys" .
  then obtain ks where ks: "distinct ks"
    "set ks = {k. \<exists>r. g_rows T s k = Some r \<and> ob_processed_at r = None}"
    "ys = map (the \<circ> g_rows T s) ks" unfolding lists_rows_def by blast
  have ids: "map om_id ms = take n ks"
    unfolding ms xs ks(3) take_map
    using ks(2) by (auto simp: fromOutboxDataModel_def dest!: in_set_takeD intro!: map_idI outbox_key [OF laws])
  show thesis
  proof (rule that [of "take n ks"])
    show "distinct (take n ks)" using ks(1) by simp
    have "set ks = outbox_pending T s" using ks(2) by (simp add: outbox_pending_def)
    then show "finite (outbox_pending T s)" and "length (take n ks) = min n (card (outbox_pending T s))"
      using distinct_card [OF ks(1)] by (metis List.finite_set, simp)
    show "map om_id ms = take n ks" by (rule ids)
    fix m assume "m \<in> set ms"
    then obtain k where k: "k \<in> set ks" and m: "m = fromOutboxDataModel (the (g_rows T s k))"
      unfolding ms xs ks(3) take_map by (auto dest: in_set_takeD)
    from k ks(2) obtain r where r: "g_rows T s k = Some r" "ob_processed_at r = None" by blast
    with m have "om_id m = k" using outbox_key [OF laws r(1)] by (simp add: fromOutboxDataModel_def)
    with r m show "\<exists>r. g_rows T s (om_id m) = Some r \<and> ob_processed_at r = None
        \<and> m = fromOutboxDataModel r" by simp
  qed
qed

lemma MarkAsProcessed_cases:
  assumes laws: "outbox_laws T" and run: "MarkAsProcessed T clock s i = (e, s')"
  shows "outbox_content T s' = outbox_content T s"
    and "outbox_pending T s' = outbox_pending T s - {i} \<or> e \<noteq> None \<and> outbox_pending T s' = outbox_pending T s"
proof -
  let ?f = "\<lambda>r. r\<lparr>ob_processed_at := Some (clock i)\<rparr>"
  have gl: "gorm_laws outbox_schema T" and cols: "outbox_columns T"
    using laws by (simp_all add: outbox_laws_def)
  have key: "sc_key outbox_schema (?f r) = sc_key outbox_schema r" for r
    by (simp add: outbox_schema_def)
  have a: "ob_event_type (assign_row T ?f r) = ob_event_type r"
    "ob_payload (assign_row T ?f r) = ob_payload r" "ob_processed_at (assign_row T ?f r) \<noteq> None" for r
    using cols by (simp_all add: outbox_columns_def assign_row_def)
  have "outbox_content T s' = outbox_content T s \<and>
    (outbox_pending T s' = outbox_pending T s - {i} \<or> e \<noteq> None \<and> outbox_pending T s' = outbox_pending T s)"
    using gl run [unfolded MarkAsProcessed_def] key
  proof (cases rule: gorm_updates_cases)
    case applied
    have "outbox_content T s' = outbox_content T s"
      by (rule ext) (simp add: outbox_content_def applied(2) update_rows_def a split: option.splits)
    moreover have "outbox_pending T s' = outbox_pending T s - {i}"
    proof (rule set_eqI)
      fix k
      show "k \<in> outbox_pending T s' \<longleftrightarrow> k \<in> outbox_pending T s - {i}"
        using a(3) outbox_key [OF laws, of s k]
        by (cases "g_rows T s k") (auto simp: outbox_pending_def applied(2) update_rows_def)
    qed
    ultimately show ?thesis by blast
  next
    case failed
    then show ?thesis by (auto simp: outbox_content_def outbox_pending_def)
  qed
  then show "outbox_content T s' = outbox_content T s"
    and "outbox_pending T s' = outbox_pending T s - {i} \<or> e \<noteq> None \<and> outbox_pending T s' = outbox_pending T s"
    by blast+
qed

lemma IncrementRetry_cases:
  assumes laws: "outbox_laws T" and run: "IncrementRetry T s i = (e, s')"
  shows "outbox_content T s' = outbox_content T s" and "outbox_pending T s' = outbox_pending T s"
    and "e = None \<Longrightarrow> outbox_retries T s' i = map_option (\<lambda>n. n + 1) (outbox_retries T s i)"
proof -
  let ?f = "\<lambda>r. r\<lparr>ob_retry_count := ob_retry_count r + 1\<rparr>"
  have gl: "gorm_laws outbox_schema T" and cols: "outbox_columns T"
    using laws by (simp_all add: outbox_laws_def)
  have key: "sc_key outbox_schema (?f r) = sc_key outbox_schema r" for r
    by (simp add: outbox_schema_def)
  have a: "ob_event_type (assign_row T ?f r) = ob_event_type r"
    "ob_payload (assign_row T ?f r) = ob_payload r"
    "ob_processed_at (assign_row T ?f r) = None \<longleftrightarrow> ob_processed_at r = None"
    "ob_retry_count (assign_row T ?f r) = ob_retry_count r + 1" for r
    using cols by (simp_all add: outbox_columns_def assign_row_def)
  have "outbox_content T s' = outbox_content T s \<and> outbox_pending T s' = outbox_pending T s
    \<and> (e = None \<longrightarrow> outbox_retries T s' i = map_option (\<lambda>n. n + 1) (outbox_retries T s i))"
    using gl run [unfolded IncrementRetry_def] key
  proof (cases rule: gorm_updates_cases)
    case applied
    have "outbox_content T s' = outbox_content T s"
      by (rule ext) (simp add: outbox_content_def applied(2) update_rows_def a split: option.splits)
    moreover have "outbox_pending T s' = outbox_pending T s"
      using a(3) by (auto simp: outbox_pending_def applied(2) update_rows_Some split: if_splits)
    moreover have "outbox_retries T s' i = map_option (\<lambda>n. n + 1) (outbox_retries T s i)"
      using a(4) outbox_key [OF laws, of s i]
      by (auto simp: outbox_retries_def applied(2) update_rows_def split: option.splits)
    ultimately show ?thesis by blast
  next
    case failed
    then show ?thesis by (auto simp: outbox_content_def outbox_pending_def)
  qed
  then show "outbox_content T s' = outbox_content T s" and "outbox_pending T s' = outbox_pending T s"
    and "e = None \<Longrightarrow> outbox_retries T s' i = map_option (\<lambda>n. n + 1) (outbox_retries T s i)"
    by blast+
qed

interpretation pg_outbox: outbox_repository "\<lambda>_. outbox_laws T" "outbox_content T"
    "outbox_pending T" "outbox_retries T" "FindUnprocessed T" "MarkAsProcessed T clock" "IncrementRetry T"
  for T :: "('s, outbox_row) gorm" and clock
proof
  fix s :: 's and n ms m
  assume laws: "outbox_laws T" and run: "FindUnprocessed T s n = Inr ms"
  from FindUnprocessed_rows [OF this] obtain ks where ks: "distinct ks" "map om_id ms = ks"
    "finite (outbox_pending T s)" "length ks = min n (card (outbox_pending T s))"
    and rows: "\<And>m. m \<in> set ms \<Longrightarrow>
      \<exists>r. g_rows T s (om_id m) = Some r \<and> ob_processed_at r = None \<and> m = fromOutboxDataModel r"
    by metis
  from ks show "finite (outbox_pending T s) \<and> length ms = min n (card (outbox_pending T s))"
    and "distinct (map om_id ms)" by auto
  show "om_id m \<in> outbox_pending T s \<and> outbox_content T s (om_id m) = Some (om_event_type m, om_payload m)"
    if "m \<in> set ms"
    using rows [OF that] by (auto simp: outbox_pending_def outbox_content_def fromOutboxDataModel_def)
next
  fix s s' :: 's and i e
  assume "outbox_laws T" and "MarkAsProcessed T clock s i = (e, s')"
  from MarkAsProcessed_cases [OF this] this(1)
  show "outbox_laws T \<and> outbox_content T s' = outbox_content T s"
    and "outbox_pending T s' = outbox_pending T s - {i} \<or> e \<noteq> None \<and> outbox_pending T s' = outbox_pending T s"
    by simp_all
next
  fix s s' :: 's and i e
  assume "outbox_laws T" and "IncrementRetry T s i = (e, s')"
  from IncrementRetry_cases [OF this] this(1)
  show "outbox_laws T \<and> outbox_content T s' = outbox_content T s \<and> outbox_pending T s' = outbox_pending T s"
    by simp
next
  fix s s' :: 's and i
  assume "outbox_laws T" and "IncrementRetry T s i = (None, s')"
  from IncrementRetry_cases [OF this]
  show "outbox_retries T s' i = map_option (\<lambda>n. n + 1) (outbox_retries T s i)" by simp
qed

text \<open>What a new row adds to the content of the outbox.\<close>

lemma outbox_row_added:
  assumes "outbox_laws T" and "g_rows T s' = (g_rows T s)(ob_id r \<mapsto> g_stored T r)"
  shows "outbox_content T s' = (outbox_content T s)(ob_id r \<mapsto> (ob_event_type r, ob_payload (g_stored T r)))"
    and "same_body (ob_payload (g_stored T r)) (ob_payload r)"
proof -
  have cols: "outbox_columns T" using assms(1) by (simp add: outbox_laws_def)
  then have "ob_event_type (g_stored T r) = ob_event_type r" unfolding outbox_columns_def by blast
  then show "outbox_content T s' = (outbox_content T s)(ob_id r \<mapsto> (ob_event_type r, ob_payload (g_stored T r)))"
    by (auto simp: outbox_content_def assms(2))
  show "same_body (ob_payload (g_stored T r)) (ob_payload r)" using cols unfolding outbox_columns_def by blast
qed

section \<open>The services' workers\<close>

text \<open>
  Each service's module gives its worker the PostgreSQL repository and the RabbitMQ publisher
  with the service's routing; \<open>Start\<close> runs \<open>process\<close> at each tick.
\<close>

definition outbox_process ::
  "(string \<Rightarrow> err + string) \<Rightarrow> ('s, outbox_row) gorm \<Rightarrow> (uuid \<Rightarrow> time) \<Rightarrow> amqp \<Rightarrow> string \<Rightarrow> nat
   \<Rightarrow> 's \<times> chan \<Rightarrow> 's \<times> chan" where
  "outbox_process route T clock B exchange batchSize =
     process (FindUnprocessed T) (MarkAsProcessed T clock) (IncrementRetry T)
       (\<lambda>h t b. Publish route B exchange t b h) batchSize"

definition order_outbox_process ::
  "('s, outbox_row) gorm \<Rightarrow> (uuid \<Rightarrow> time) \<Rightarrow> amqp \<Rightarrow> string \<Rightarrow> nat \<Rightarrow> 's \<times> chan \<Rightarrow> 's \<times> chan" where
  "order_outbox_process = outbox_process order_eventRoutingKey"

definition inventory_outbox_process ::
  "('s, outbox_row) gorm \<Rightarrow> (uuid \<Rightarrow> time) \<Rightarrow> amqp \<Rightarrow> string \<Rightarrow> nat \<Rightarrow> 's \<times> chan \<Rightarrow> 's \<times> chan" where
  "inventory_outbox_process = outbox_process inventory_eventRoutingKey"

definition catalog_outbox_process ::
  "('s, outbox_row) gorm \<Rightarrow> (uuid \<Rightarrow> time) \<Rightarrow> amqp \<Rightarrow> string \<Rightarrow> nat \<Rightarrow> 's \<times> chan \<Rightarrow> 's \<times> chan" where
  "catalog_outbox_process = outbox_process catalog_eventRoutingKey"

interpretation worker: outbox_worker "\<lambda>_. outbox_laws T" "outbox_content T"
    "outbox_pending T" "outbox_retries T" "FindUnprocessed T" "MarkAsProcessed T clock" "IncrementRetry T"
    "\<lambda>h t b. Publish route B exchange t b h" "rabbit_accepted route B exchange"
  for T :: "('s, outbox_row) gorm" and clock route B exchange
  ..

end
