(* ===== verification/Inbox.thy ===== *)
theory Inbox
  imports Outbox
begin

text \<open>
  The inbox table of the consuming services, by which a message is handled once: the table
  \<open>inbox_messages\<close> with \<open>message_id\<close> UNIQUE, the query for a message and the insertion of one.
  The order and the inventory service have a copy each.
\<close>

record inbox_row =
  ib_id :: uuid
  ib_message_id :: uuid
  ib_event_type :: string
  ib_payload :: body
  ib_processed_at :: time

definition inbox_schema :: "inbox_row schema" where
  "inbox_schema =
     \<lparr>sc_key = ib_id,
      sc_check = (\<lambda>r. utf8_length (ib_event_type r) \<le> 100 \<and> is_json (ib_payload r)),
      sc_conflict = (\<lambda>r r'. ib_message_id r = ib_message_id r')\<rparr>"

definition inbox_columns :: "('s, inbox_row) gorm \<Rightarrow> bool" where
  "inbox_columns T \<longleftrightarrow> (\<forall>r. ib_message_id (g_stored T r) = ib_message_id r)"

definition inbox_laws :: "('s, inbox_row) gorm \<Rightarrow> bool" where
  "inbox_laws T \<longleftrightarrow> gorm_laws inbox_schema T \<and> inbox_columns T"

definition inbox_has :: "('s, inbox_row) gorm \<Rightarrow> 's \<Rightarrow> uuid \<Rightarrow> err + bool" where
  "inbox_has T s messageID =
     (case g_count T s (\<lambda>r. ib_message_id r = messageID) of
        Inl e \<Rightarrow> Inl e
      | Inr count \<Rightarrow> Inr (0 < count))"

definition inbox_insert ::
  "('s, inbox_row) gorm \<Rightarrow> uuid \<Rightarrow> time \<Rightarrow> 's \<Rightarrow> uuid \<Rightarrow> string \<Rightarrow> body \<Rightarrow> err option \<times> 's" where
  "inbox_insert T new now s messageID eventType payload =
     g_create T s
       [\<lparr>ib_id = new, ib_message_id = messageID, ib_event_type = eventType, ib_payload = payload,
         ib_processed_at = now\<rparr>]"

definition inbox_ids :: "('s, inbox_row) gorm \<Rightarrow> 's \<Rightarrow> uuid set" where
  "inbox_ids T s = ib_message_id ` ran (g_rows T s)"

lemma inbox_has_iff:
  assumes "inbox_laws T" and "inbox_has T s m = Inr b"
  shows "b \<longleftrightarrow> m \<in> inbox_ids T s"
proof -
  from assms obtain n where n: "g_count T s (\<lambda>r. ib_message_id r = m) = Inr n" and b: "b = (0 < n)"
    by (auto simp: inbox_has_def split: sum.splits)
  have "gorm_laws inbox_schema T" using assms(1) by (simp add: inbox_laws_def)
  from gorm_count_pos [OF this n] show ?thesis by (auto simp: b inbox_ids_def)
qed

lemma inbox_insert_cases [consumes 3, case_names inserted failed]:
  assumes laws: "inbox_laws T" and new: "new \<noteq> 0"
    and run: "inbox_insert T new now s m t p = (e, s')"
  obtains "m \<notin> inbox_ids T s" "inbox_ids T s' = insert m (inbox_ids T s)"
  | "e \<noteq> None" "inbox_ids T s' = inbox_ids T s"
proof -
  let ?r = "\<lparr>ib_id = new, ib_message_id = m, ib_event_type = t, ib_payload = p, ib_processed_at = now\<rparr>"
  have gl: "gorm_laws inbox_schema T" and cols: "inbox_columns T"
    using laws by (simp_all add: inbox_laws_def)
  note run = run [unfolded inbox_insert_def]
  have nz: "\<forall>r\<in>set [?r]. sc_key inbox_schema r \<noteq> 0" using new by (simp add: inbox_schema_def)
  show thesis
    using gl run nz
  proof (cases rule: gorm_create_cases)
    case applied
    let ?q = "g_stored T ?r"
    from applied have ins: "insertable inbox_schema (g_rows T s) ?q"
      and rows: "g_rows T s' = (g_rows T s)(sc_key inbox_schema ?q \<mapsto> ?q)"
      by (auto split: if_splits)
    have m: "ib_message_id ?q = m" using cols by (simp add: inbox_columns_def)
    from ins have fresh: "g_rows T s (sc_key inbox_schema ?q) = None"
      and "m \<notin> inbox_ids T s"
      using m by (auto simp: insertable_def inbox_schema_def inbox_ids_def)
    moreover have "inbox_ids T s' = insert m (inbox_ids T s)"
      using fresh m by (simp add: inbox_ids_def rows)
    ultimately show ?thesis using that(1) by blast
  next
    case failed
    then show ?thesis using that(2) by (auto simp: inbox_ids_def)
  qed
qed

end
