(* ===== verification/Order_Repository.thy ===== *)
theory Order_Repository
  imports Order_Domain Inbox
begin

text \<open>
  The order service's PostgreSQL repositories: \<open>orderRepositoryPG\<close> and
  \<open>inboxMessageRepositoryPG\<close>, over one database with the tables of
  \<open>migrations/001_create_order_tables.sql\<close>.
\<close>

section \<open>The tables\<close>

record order_row =
  or_id :: uuid
  or_customer_id :: uuid
  or_status :: string
  or_total_amount :: float64
  or_created_at :: time
  or_updated_at :: time

record order_item_row =
  ir_id :: uuid
  ir_order_id :: uuid
  ir_product_id :: uuid
  ir_product_name :: string
  ir_unit_price :: float64
  ir_quantity :: goint
  ir_subtotal :: float64

text \<open>
  A CHECK holds unless it is false; PostgreSQL orders NaN above every number, so \<open>x >= 0\<close> does
  not reject it.
\<close>

definition order_schema :: "order_row schema" where
  "order_schema =
     \<lparr>sc_key = or_id,
      sc_check = (\<lambda>r. or_status r \<in> {OrderStatusPending, OrderStatusConfirmed, OrderStatusFailed}
        \<and> \<not> f_less (or_total_amount r) (Zero False)),
      sc_conflict = (\<lambda>r r'. False)\<rparr>"

definition order_item_schema :: "order_item_row schema" where
  "order_item_schema =
     \<lparr>sc_key = ir_id,
      sc_check = (\<lambda>r. utf8_length (ir_product_name r) \<le> 255 \<and> \<not> f_less (ir_unit_price r) (Zero False)
        \<and> int4 (ir_quantity r) \<and> 0 < sint (ir_quantity r) \<and> \<not> f_less (ir_subtotal r) (Zero False)),
      sc_conflict = (\<lambda>r r'. False)\<rparr>"

record 's order_db =
  db_orders :: "('s, order_row) gorm"
  db_items :: "('s, order_item_row) gorm"
  db_outbox :: "('s, outbox_row) gorm"
  db_inbox :: "('s, inbox_row) gorm"
  db_tx :: "'s \<Rightarrow> 's act \<Rightarrow> err option \<times> 's"

definition same_order_rows :: "'s order_db \<Rightarrow> 's \<Rightarrow> 's \<Rightarrow> bool" where
  "same_order_rows D s s' \<longleftrightarrow>
     g_rows (db_orders D) s' = g_rows (db_orders D) s \<and> g_rows (db_items D) s' = g_rows (db_items D) s \<and>
     g_rows (db_outbox D) s' = g_rows (db_outbox D) s \<and> g_rows (db_inbox D) s' = g_rows (db_inbox D) s"

text \<open>
  What the columns keep: UUID, INT and text columns keep their value; \<open>NUMERIC(12, 2)\<close> keeps a
  whole number that fits; an UPDATE keeps the columns it does not set.
\<close>

definition numeric_12_2 :: "(float64 \<Rightarrow> float64) \<Rightarrow> bool" where
  "numeric_12_2 f \<longleftrightarrow> (\<forall>n. \<bar>n\<bar> < 10 ^ 10 \<longrightarrow> f (whole n) = whole n)"

definition order_columns :: "('s, order_row) gorm \<Rightarrow> bool" where
  "order_columns T \<longleftrightarrow>
     (\<exists>num ts. numeric_12_2 num \<and>
        (\<forall>r. g_stored T r = r\<lparr>or_total_amount := num (or_total_amount r),
           or_created_at := ts (or_created_at r), or_updated_at := ts (or_updated_at r)\<rparr>) \<and>
        (\<forall>r r'. or_total_amount r' = or_total_amount r \<longrightarrow> or_created_at r' = or_created_at r \<longrightarrow>
           g_assigned T r r' = r'\<lparr>or_updated_at := ts (or_updated_at r')\<rparr>))"

definition order_item_columns :: "('s, order_item_row) gorm \<Rightarrow> bool" where
  "order_item_columns T \<longleftrightarrow>
     (\<exists>num. numeric_12_2 num \<and>
        (\<forall>r. g_stored T r = r\<lparr>ir_unit_price := num (ir_unit_price r), ir_subtotal := num (ir_subtotal r)\<rparr>))"

definition order_db_laws :: "'s order_db \<Rightarrow> bool" where
  "order_db_laws D \<longleftrightarrow>
     gorm_laws order_schema (db_orders D) \<and> order_columns (db_orders D) \<and>
     gorm_laws order_item_schema (db_items D) \<and> order_item_columns (db_items D) \<and>
     outbox_laws (db_outbox D) \<and>
     inbox_laws (db_inbox D) \<and>
     gorm_frame (db_orders D) (db_items D) \<and> gorm_frame (db_orders D) (db_outbox D) \<and>
     gorm_frame (db_orders D) (db_inbox D) \<and> gorm_frame (db_items D) (db_orders D) \<and>
     gorm_frame (db_items D) (db_outbox D) \<and> gorm_frame (db_items D) (db_inbox D) \<and>
     gorm_frame (db_outbox D) (db_orders D) \<and> gorm_frame (db_outbox D) (db_items D) \<and>
     gorm_frame (db_outbox D) (db_inbox D) \<and> gorm_frame (db_inbox D) (db_orders D) \<and>
     gorm_frame (db_inbox D) (db_items D) \<and> gorm_frame (db_inbox D) (db_outbox D) \<and>
     tx_laws (same_order_rows D) (db_tx D)"

section \<open>Conversions\<close>

definition toOrderDataModel :: "order \<Rightarrow> order_row" where
  "toOrderDataModel ord =
     \<lparr>or_id = od_id ord, or_customer_id = od_customer_id ord, or_status = od_status ord,
      or_total_amount = od_total_amount ord, or_created_at = od_created_at ord,
      or_updated_at = od_updated_at ord\<rparr>"

definition toOrderItemDataModels :: "order_item list \<Rightarrow> order_item_row list" where
  "toOrderItemDataModels items =
     map (\<lambda>item. \<lparr>ir_id = oi_id item, ir_order_id = oi_order_id item, ir_product_id = oi_product_id item,
       ir_product_name = oi_product_name item, ir_unit_price = oi_unit_price item,
       ir_quantity = oi_quantity item, ir_subtotal = oi_subtotal item\<rparr>) items"

definition toDomainOrderItems :: "order_item_row list \<Rightarrow> order_item list" where
  "toDomainOrderItems items =
     map (\<lambda>item. \<lparr>oi_id = ir_id item, oi_order_id = ir_order_id item, oi_product_id = ir_product_id item,
       oi_product_name = ir_product_name item, oi_unit_price = ir_unit_price item,
       oi_quantity = ir_quantity item, oi_subtotal = ir_subtotal item\<rparr>) items"

definition toDomainOrder :: "order_row \<Rightarrow> order_item_row list \<Rightarrow> order" where
  "toDomainOrder m items =
     \<lparr>od_id = or_id m, od_customer_id = or_customer_id m, od_status = or_status m,
      od_total_amount = or_total_amount m, od_created_at = or_created_at m,
      od_updated_at = or_updated_at m, od_items = toDomainOrderItems items\<rparr>"

text \<open>A model and the items \<open>Preload\<close> has attached to it.\<close>

definition toDomainOrders :: "(order_row \<times> order_item_row list) list \<Rightarrow> order list" where
  "toDomainOrders models = map (\<lambda>(m, items). toDomainOrder m items) models"

section \<open>The operations\<close>

definition CreateWithOutbox :: "'s order_db \<Rightarrow> 's \<Rightarrow> order \<Rightarrow> outbox_message \<Rightarrow> err option \<times> 's" where
  "CreateWithOutbox D s ord message =
     db_tx D s
       (seq (\<lambda>s. g_create (db_orders D) s [toOrderDataModel ord])
       (seq (\<lambda>s. g_create (db_items D) s (toOrderItemDataModels (od_items ord)))
            (\<lambda>s. g_create (db_outbox D) s [toOutboxDataModel message])))"

definition ConfirmOrder :: "'s order_db \<Rightarrow> time \<Rightarrow> 's \<Rightarrow> uuid \<Rightarrow> err option \<times> 's" where
  "ConfirmOrder D now s orderID =
     g_updates (db_orders D) s (\<lambda>r. or_id r = orderID \<and> or_status r = OrderStatusPending)
       (\<lambda>r. r\<lparr>or_status := OrderStatusConfirmed, or_updated_at := now\<rparr>)"

definition RejectOrder :: "'s order_db \<Rightarrow> time \<Rightarrow> 's \<Rightarrow> uuid \<Rightarrow> err option \<times> 's" where
  "RejectOrder D now s orderID =
     g_updates (db_orders D) s (\<lambda>r. or_id r = orderID \<and> or_status r = OrderStatusPending)
       (\<lambda>r. r\<lparr>or_status := OrderStatusFailed, or_updated_at := now\<rparr>)"

text \<open>\<open>Preload("Items")\<close> runs a second query for the items of the orders found.\<close>

definition GetOrder :: "'s order_db \<Rightarrow> 's \<Rightarrow> uuid \<Rightarrow> err + order" where
  "GetOrder D s orderID =
     (case (case g_first (db_orders D) s (\<lambda>r. or_id r = orderID) of
              Inl e \<Rightarrow> Inl e
            | Inr m \<Rightarrow>
                (case g_find (db_items D) s (\<lambda>r. ir_order_id r = or_id m) of
                   Inl e \<Rightarrow> Inl e
                 | Inr items \<Rightarrow> Inr (m, items))) of
        Inl err \<Rightarrow> (if errors_Is err ErrRecordNotFound then Inl ErrOrderNotFound else Inl err)
      | Inr (m, items) \<Rightarrow> Inr (toDomainOrder m items))"

definition GetOrders :: "'s order_db \<Rightarrow> 's \<Rightarrow> err + order list" where
  "GetOrders D s =
     (case g_find (db_orders D) s (\<lambda>r. True) of
        Inl e \<Rightarrow> Inl e
      | Inr models \<Rightarrow>
          if models = [] then Inr (toDomainOrders [])
          else (case g_find (db_items D) s (\<lambda>r. ir_order_id r \<in> or_id ` set models) of
                  Inl e \<Rightarrow> Inl e
                | Inr items \<Rightarrow>
                    Inr (toDomainOrders
                      (map (\<lambda>m. (m, filter (\<lambda>r. ir_order_id r = or_id m) items)) models))))"

definition IsProcessed :: "'s order_db \<Rightarrow> 's \<Rightarrow> uuid \<Rightarrow> err + bool" where
  "IsProcessed D = inbox_has (db_inbox D)"

definition SaveProcessed ::
  "'s order_db \<Rightarrow> uuid \<Rightarrow> time \<Rightarrow> 's \<Rightarrow> uuid \<Rightarrow> string \<Rightarrow> body \<Rightarrow> err option \<times> 's" where
  "SaveProcessed D new now = inbox_insert (db_inbox D) new now"

section \<open>What the tables say\<close>

definition order_status :: "'s order_db \<Rightarrow> 's \<Rightarrow> uuid \<Rightarrow> string option" where
  "order_status D s i = map_option or_status (g_rows (db_orders D) s i)"

definition order_inbox :: "'s order_db \<Rightarrow> 's \<Rightarrow> uuid set" where
  "order_inbox D s = inbox_ids (db_inbox D) s"

text \<open>The statement's WHERE clause makes the two status changes conditional.\<close>

definition settle_status :: "string \<Rightarrow> (uuid \<Rightarrow> string option) \<Rightarrow> uuid \<Rightarrow> (uuid \<Rightarrow> string option)" where
  "settle_status st status i =
     (if status i = Some OrderStatusPending then status(i \<mapsto> st) else status)"

lemma order_key: "order_db_laws D \<Longrightarrow> g_rows (db_orders D) s k = Some r \<Longrightarrow> or_id r = k"
  using gorm_key [of order_schema "db_orders D" s k r] by (simp add: order_db_laws_def order_schema_def)

lemma order_frames:
  assumes "order_db_laws D"
  shows "gorm_frame (db_orders D) (db_items D)" "gorm_frame (db_orders D) (db_outbox D)"
    "gorm_frame (db_orders D) (db_inbox D)" "gorm_frame (db_items D) (db_orders D)"
    "gorm_frame (db_items D) (db_outbox D)" "gorm_frame (db_items D) (db_inbox D)"
    "gorm_frame (db_outbox D) (db_orders D)" "gorm_frame (db_outbox D) (db_items D)"
    "gorm_frame (db_outbox D) (db_inbox D)" "gorm_frame (db_inbox D) (db_orders D)"
    "gorm_frame (db_inbox D) (db_items D)" "gorm_frame (db_inbox D) (db_outbox D)"
  using assms by (simp_all add: order_db_laws_def)

lemma assign_settled:
  assumes "order_columns T"
  shows "or_status (assign_row T (\<lambda>r. r\<lparr>or_status := st, or_updated_at := now\<rparr>) r) = st"
  using assms by (auto simp: order_columns_def assign_row_def)

text \<open>One lemma for both status changes.\<close>

lemma settle_cases:
  assumes laws: "order_db_laws D"
    and run: "g_updates (db_orders D) s (\<lambda>r. or_id r = i \<and> or_status r = OrderStatusPending)
      (\<lambda>r. r\<lparr>or_status := st, or_updated_at := now\<rparr>) = (e, s')"
  shows "order_status D s' = settle_status st (order_status D s) i
      \<or> e \<noteq> None \<and> order_status D s' = order_status D s"
    and "order_inbox D s' = order_inbox D s"
proof -
  let ?f = "\<lambda>r. r\<lparr>or_status := st, or_updated_at := now\<rparr>"
  let ?p = "\<lambda>r. or_id r = i \<and> or_status r = OrderStatusPending"
  have gl: "gorm_laws order_schema (db_orders D)" and cols: "order_columns (db_orders D)"
    using laws by (simp_all add: order_db_laws_def)
  have key: "sc_key order_schema (?f r) = sc_key order_schema r" for r by (simp add: order_schema_def)
  show "order_status D s' = settle_status st (order_status D s) i
      \<or> e \<noteq> None \<and> order_status D s' = order_status D s"
    using gl run key
  proof (cases rule: gorm_updates_cases)
    case applied
    have "order_status D s' k = settle_status st (order_status D s) i k" for k
      using order_key [OF laws, of s k]
      by (cases "g_rows (db_orders D) s k")
        (auto simp: order_status_def settle_status_def applied(2) update_rows_def assign_settled [OF cols])
    then show ?thesis by blast
  next
    case failed
    then show ?thesis by (auto simp: order_status_def)
  qed
  show "order_inbox D s' = order_inbox D s"
    using gorm_frameD(4) [OF order_frames(3) [OF laws] run] by (simp add: order_inbox_def inbox_ids_def)
qed

lemma ConfirmOrder_effect:
  assumes "order_db_laws D" and "ConfirmOrder D now s i = (e, s')"
  shows "order_inbox D s' = order_inbox D s
    \<and> (order_status D s' = settle_status OrderStatusConfirmed (order_status D s) i
       \<or> e \<noteq> None \<and> order_status D s' = order_status D s)"
  using settle_cases [OF assms(1) assms(2) [unfolded ConfirmOrder_def]] by blast

lemma RejectOrder_effect:
  assumes "order_db_laws D" and "RejectOrder D now s i = (e, s')"
  shows "order_inbox D s' = order_inbox D s
    \<and> (order_status D s' = settle_status OrderStatusFailed (order_status D s) i
       \<or> e \<noteq> None \<and> order_status D s' = order_status D s)"
  using settle_cases [OF assms(1) assms(2) [unfolded RejectOrder_def]] by blast

lemma IsProcessed_inbox:
  assumes "order_db_laws D" and "IsProcessed D s m = Inr b"
  shows "b \<longleftrightarrow> m \<in> order_inbox D s"
  using assms inbox_has_iff [of "db_inbox D" s m b]
  by (simp add: order_db_laws_def IsProcessed_def order_inbox_def)

lemma SaveProcessed_cases:
  assumes laws: "order_db_laws D" and new: "new \<noteq> 0"
    and run: "SaveProcessed D new now s m t p = (e, s')"
  shows "order_status D s' = order_status D s"
    and "m \<notin> order_inbox D s \<and> order_inbox D s' = insert m (order_inbox D s)
      \<or> e \<noteq> None \<and> order_inbox D s' = order_inbox D s"
proof -
  note run = run [unfolded SaveProcessed_def]
  have "inbox_laws (db_inbox D)" using laws by (simp add: order_db_laws_def)
  then show "m \<notin> order_inbox D s \<and> order_inbox D s' = insert m (order_inbox D s)
      \<or> e \<noteq> None \<and> order_inbox D s' = order_inbox D s"
    using new run by (cases rule: inbox_insert_cases) (auto simp: order_inbox_def)
  show "order_status D s' = order_status D s"
    using gorm_frameD(3) [OF order_frames(10) [OF laws] run [unfolded inbox_insert_def]]
    by (simp add: order_status_def fun_eq_iff)
qed

section \<open>CreateWithOutbox is atomic\<close>

text \<open>The rows that \<open>CreateWithOutbox\<close> adds, each table's constraints holding.\<close>

definition order_created :: "'s order_db \<Rightarrow> 's \<Rightarrow> order \<Rightarrow> outbox_message \<Rightarrow> 's \<Rightarrow> bool" where
  "order_created D s ord message s' \<longleftrightarrow>
     (let r = g_stored (db_orders D) (toOrderDataModel ord);
          m = g_stored (db_outbox D) (toOutboxDataModel message)
      in insertable order_schema (g_rows (db_orders D) s) r
       \<and> g_rows (db_orders D) s' = (g_rows (db_orders D) s)(od_id ord \<mapsto> r)
       \<and> insert_rows order_item_schema (g_rows (db_items D) s)
           (map (g_stored (db_items D)) (toOrderItemDataModels (od_items ord))) = Some (g_rows (db_items D) s')
       \<and> insertable outbox_schema (g_rows (db_outbox D) s) m
       \<and> g_rows (db_outbox D) s' = (g_rows (db_outbox D) s)(om_id message \<mapsto> m)
       \<and> g_rows (db_inbox D) s' = g_rows (db_inbox D) s)"

definition create_keys :: "order \<Rightarrow> outbox_message \<Rightarrow> bool" where
  "create_keys ord message \<longleftrightarrow>
     od_id ord \<noteq> 0 \<and> om_id message \<noteq> 0 \<and> (\<forall>it\<in>set (od_items ord). oi_id it \<noteq> 0)"

lemma CreateWithOutbox_body:
  assumes laws: "order_db_laws D" and keys: "create_keys ord message"
    and run: "seq (\<lambda>s. g_create (db_orders D) s [toOrderDataModel ord])
       (seq (\<lambda>s. g_create (db_items D) s (toOrderItemDataModels (od_items ord)))
            (\<lambda>s. g_create (db_outbox D) s [toOutboxDataModel message])) s = (None, s')"
  shows "order_created D s ord message s'"
proof -
  from run obtain s1 s2 where c1: "g_create (db_orders D) s [toOrderDataModel ord] = (None, s1)"
    and c2: "g_create (db_items D) s1 (toOrderItemDataModels (od_items ord)) = (None, s2)"
    and c3: "g_create (db_outbox D) s2 [toOutboxDataModel message] = (None, s')"
    by (auto simp: seq_None_iff)
  note fr = order_frames [OF laws]
  have gl: "gorm_laws order_schema (db_orders D)" "gorm_laws order_item_schema (db_items D)"
    "gorm_laws outbox_schema (db_outbox D)"
    using laws by (simp_all add: order_db_laws_def outbox_laws_def)
  have k1: "sc_key order_schema (toOrderDataModel ord) \<noteq> 0"
    and k2: "\<forall>r\<in>set (toOrderItemDataModels (od_items ord)). sc_key order_item_schema r \<noteq> 0"
    and k3: "sc_key outbox_schema (toOutboxDataModel message) \<noteq> 0"
    using keys by (auto simp: create_keys_def toOrderDataModel_def toOrderItemDataModels_def
        toOutboxDataModel_def order_schema_def order_item_schema_def outbox_schema_def)
  have id1: "sc_key order_schema (g_stored (db_orders D) (toOrderDataModel ord)) = od_id ord"
    using gorm_stored_key [OF gl(1)] by (simp add: order_schema_def toOrderDataModel_def)
  have id3: "sc_key outbox_schema (g_stored (db_outbox D) (toOutboxDataModel message)) = om_id message"
    using gorm_stored_key [OF gl(3)] by (simp add: outbox_schema_def toOutboxDataModel_def)
  show ?thesis
    using gorm_create_one_None [OF gl(1) c1 k1] gorm_create_None [OF gl(2) c2 k2]
      gorm_create_one_None [OF gl(3) c3 k3]
      gorm_frameD(3) [OF fr(1) c1] gorm_frameD(3) [OF fr(2) c1] gorm_frameD(3) [OF fr(3) c1]
      gorm_frameD(3) [OF fr(4) c2] gorm_frameD(3) [OF fr(5) c2] gorm_frameD(3) [OF fr(6) c2]
      gorm_frameD(3) [OF fr(7) c3] gorm_frameD(3) [OF fr(8) c3] gorm_frameD(3) [OF fr(9) c3]
    by (simp add: order_created_def Let_def id1 id3)
qed

lemma order_created_same:
  "order_created D s ord m s1 \<Longrightarrow> same_order_rows D s1 s' \<Longrightarrow> order_created D s ord m s'"
  by (simp add: order_created_def same_order_rows_def Let_def)

lemma CreateWithOutbox_cases [consumes 3, case_names created unchanged]:
  assumes "order_db_laws D" and "create_keys ord message"
    and "CreateWithOutbox D s ord message = (e, s')"
  obtains "order_created D s ord message s'" | "e \<noteq> None" "same_order_rows D s s'"
proof -
  have "tx_laws (same_order_rows D) (db_tx D)" using assms(1) by (simp add: order_db_laws_def)
  then show thesis
    using assms(3) [unfolded CreateWithOutbox_def]
  proof (cases rule: tx_cases)
    case (committed s1)
    from order_created_same [OF CreateWithOutbox_body [OF assms(1,2) committed(1)] committed(2)]
    show thesis by (rule that(1))
  next
    case rolled_back
    then show thesis by (rule that(2))
  qed
qed

end
