(* ===== verification/Order_Service.thy ===== *)
theory Order_Service
  imports Order_Repository
begin

text \<open>
  The order service (\<open>service/order_service.go\<close>): it creates an order together with the event
  that asks for its stock, and it settles an order once when the inventory has answered. The
  repositories it holds are the ports \<open>port.OrderRespository\<close> and \<open>port.InboxRepository\<close>; the
  lemmas on the settlement are proved for every provider of the interface.
\<close>

section \<open>CreateOrder\<close>

definition reservation_message :: "(uuid \<Rightarrow> string) \<Rightarrow> (nat \<Rightarrow> uuid) \<Rightarrow> time \<Rightarrow> order \<Rightarrow> outbox_message" where
  "reservation_message ustr new now ord =
     (let n = length (od_items ord)
      in \<lparr>om_id = new (n + 2), om_aggregate_id = od_id ord, om_aggregate_type = ''Order'',
          om_event_type = ''ReserveStockRequested'',
          om_payload = reservation_payload ustr (new (n + 1)) ord,
          om_retry_count = 0, om_created_at = now, om_processed_at = None\<rparr>)"

definition service_CreateOrder ::
  "ozzo \<Rightarrow> (uuid \<Rightarrow> string) \<Rightarrow> ('s \<Rightarrow> order \<Rightarrow> outbox_message \<Rightarrow> err option \<times> 's)
   \<Rightarrow> (nat \<Rightarrow> uuid) \<Rightarrow> time \<Rightarrow> time \<Rightarrow> 's \<Rightarrow> CreateOrderInput \<Rightarrow> (err + order) \<times> 's" where
  "service_CreateOrder V ustr createWithOutbox new now1 now2 s input =
     (case OrderInput_Validate V input of
        Some e \<Rightarrow> (Inl e, s)
      | None \<Rightarrow>
          (case NewOrder new now1 (co_customer_id input) (order_items_of (co_items input)) of
             Inl e \<Rightarrow> (Inl e, s)
           | Inr ord \<Rightarrow>
               (case createWithOutbox s ord (reservation_message ustr new now2 ord) of
                  (Some e, s') \<Rightarrow> (Inl e, s')
                | (None, s') \<Rightarrow> (Inr ord, s'))))"

definition CreateOrder ::
  "'s order_db \<Rightarrow> ozzo \<Rightarrow> (uuid \<Rightarrow> string) \<Rightarrow> (nat \<Rightarrow> uuid) \<Rightarrow> time \<Rightarrow> time \<Rightarrow> 's \<Rightarrow> CreateOrderInput
   \<Rightarrow> (err + order) \<times> 's" where
  "CreateOrder D V ustr = service_CreateOrder V ustr (CreateWithOutbox D)"

section \<open>Settling an order\<close>

text \<open>
  \<open>HandleConfirmOrder\<close> and \<open>HandleRejectOrder\<close> are the same text up to the repository method
  and the event name.
\<close>

definition handle_settlement ::
  "('s \<Rightarrow> uuid \<Rightarrow> err + bool) \<Rightarrow> ('s \<Rightarrow> uuid \<Rightarrow> err option \<times> 's)
   \<Rightarrow> ('s \<Rightarrow> uuid \<Rightarrow> string \<Rightarrow> body \<Rightarrow> err option \<times> 's) \<Rightarrow> string
   \<Rightarrow> uuid \<Rightarrow> uuid \<Rightarrow> body \<Rightarrow> 's act" where
  "handle_settlement isProcessed settle saveProcessed eventType orderID messageID payload s =
     (case isProcessed s messageID of
        Inl e \<Rightarrow> (Some e, s)
      | Inr b \<Rightarrow>
          if b then (None, s)
          else seq (\<lambda>s. settle s orderID) (\<lambda>s. saveProcessed s messageID eventType payload) s)"

definition HandleConfirmOrder ::
  "'s order_db \<Rightarrow> uuid \<Rightarrow> time \<Rightarrow> uuid \<Rightarrow> uuid \<Rightarrow> body \<Rightarrow> 's act" where
  "HandleConfirmOrder D new now =
     handle_settlement (IsProcessed D) (ConfirmOrder D now) (SaveProcessed D new now) ''StockReserved''"

definition HandleRejectOrder ::
  "'s order_db \<Rightarrow> uuid \<Rightarrow> time \<Rightarrow> uuid \<Rightarrow> uuid \<Rightarrow> body \<Rightarrow> 's act" where
  "HandleRejectOrder D new now =
     handle_settlement (IsProcessed D) (RejectOrder D now) (SaveProcessed D new now) ''StockReservationFailed''"

section \<open>The interface of the settlement\<close>

locale settlement_ports =
  fixes invar :: "'s \<Rightarrow> bool"
    and status :: "'s \<Rightarrow> uuid \<Rightarrow> string option"
    and seen :: "'s \<Rightarrow> uuid set"
    and target :: string
    and isProcessed :: "'s \<Rightarrow> uuid \<Rightarrow> err + bool"
    and env_ok :: "'e \<Rightarrow> bool"
    and settle :: "'e \<Rightarrow> 's \<Rightarrow> uuid \<Rightarrow> err option \<times> 's"
    and saveProcessed :: "'e \<Rightarrow> 's \<Rightarrow> uuid \<Rightarrow> string \<Rightarrow> body \<Rightarrow> err option \<times> 's"
  assumes processed_sound: "invar s \<Longrightarrow> isProcessed s m = Inr b \<Longrightarrow> b \<longleftrightarrow> m \<in> seen s"
    and settle_effect: "invar s \<Longrightarrow> settle env s i = (e, s') \<Longrightarrow>
      invar s' \<and> seen s' = seen s \<and>
      (status s' = settle_status target (status s) i \<or> e \<noteq> None \<and> status s' = status s)"
    and save_effect: "invar s \<Longrightarrow> env_ok env \<Longrightarrow> saveProcessed env s m t p = (e, s') \<Longrightarrow>
      invar s' \<and> status s' = status s \<and>
      (seen s' = insert m (seen s) \<or> e \<noteq> None \<and> seen s' = seen s)"
begin

lemma handle_cases [consumes 3, case_names failed duplicate not_settled settled]:
  assumes "invar s" and "env_ok env" and "handle_settlement isProcessed (settle env) (saveProcessed env) t i m p s = (e, s')"
  obtains "e \<noteq> None" "s' = s"
  | "e = None" "s' = s" "m \<in> seen s"
  | "e \<noteq> None" "invar s'" "m \<notin> seen s" "seen s' = seen s"
      "status s' = settle_status target (status s) i \<or> status s' = status s"
  | "invar s'" "m \<notin> seen s" "status s' = settle_status target (status s) i"
      "seen s' = insert m (seen s) \<or> e \<noteq> None \<and> seen s' = seen s"
proof (cases "isProcessed s m")
  case (Inl x)
  with assms(3) that(1) show thesis by (auto simp: handle_settlement_def)
next
  case (Inr b)
  have b: "b \<longleftrightarrow> m \<in> seen s" by (rule processed_sound [OF assms(1) Inr])
  show thesis
  proof (cases b)
    case True
    with assms(3) Inr b that(2) show thesis by (simp add: handle_settlement_def)
  next
    case False
    obtain e1 s1 where s1: "settle env s i = (e1, s1)" by fastforce
    note eff = settle_effect [OF assms(1) s1]
    show thesis
    proof (cases e1)
      case None
      with assms(3) Inr False s1 have save: "saveProcessed env s1 m t p = (e, s')"
        by (simp add: handle_settlement_def seq_def)
      have "invar s1" using eff by blast
      from save_effect [OF this assms(2) save] eff None b False that(4) show thesis by auto
    next
      case (Some x)
      with assms(3) Inr False s1 have "e = Some x" "s' = s1"
        by (simp_all add: handle_settlement_def seq_def)
      with eff b False that(3) show thesis by auto
    qed
  qed
qed

theorem handle_keeps:
  assumes "invar s" and "env_ok env" and "handle_settlement isProcessed (settle env) (saveProcessed env) t i m p s = (e, s')"
  shows "invar s' \<and> (status s' = status s \<or> status s' = settle_status target (status s) i)
    \<and> seen s \<subseteq> seen s'"
  using assms by (cases rule: handle_cases) (use assms(1) in auto)

theorem handle_done:
  assumes "invar s" and "env_ok env" and "handle_settlement isProcessed (settle env) (saveProcessed env) t i m p s = (None, s')"
  shows "m \<in> seen s'"
    and "m \<notin> seen s \<Longrightarrow> status s' = settle_status target (status s) i"
  using assms by (cases rule: handle_cases; auto)+

theorem handle_recorded:
  assumes "invar s" and "env_ok env" and "handle_settlement isProcessed (settle env) (saveProcessed env) t i m p s = (e, s')"
    and "m \<in> seen s'" and "m \<notin> seen s"
  shows "status s' = settle_status target (status s) i"
  using assms(1-3) by (cases rule: handle_cases) (use assms(4,5) in auto)

theorem handle_duplicate:
  assumes "invar s" and "env_ok env" and "handle_settlement isProcessed (settle env) (saveProcessed env) t i m p s = (e, s')"
    and "m \<in> seen s"
  shows "s' = s"
  using assms(1-3) by (cases rule: handle_cases) (use assms(4) in auto)

text \<open>
  However many attempts were made before, and wherever each of them failed, an attempt that returns
  no error leaves the statuses as one undisturbed attempt would have.
\<close>

theorem attempts_converge:
  assumes "invar s" and "m \<notin> seen s" and "target \<noteq> OrderStatusPending"
    and "(\<lambda>u v. \<exists>env e. env_ok env
      \<and> handle_settlement isProcessed (settle env) (saveProcessed env) t i m p u = (e, v))\<^sup>*\<^sup>* s s1"
    and "env_ok env" and "handle_settlement isProcessed (settle env) (saveProcessed env) t i m p s1 = (None, s')"
  shows "status s' = settle_status target (status s) i" and "m \<in> seen s'"
proof -
  let ?done = "settle_status target (status s) i"
  have twice: "settle_status target ?done i = ?done"
    using assms(3) by (simp add: settle_status_def)
  have inv: "invar s1 \<and> (status s1 = status s \<or> status s1 = ?done) \<and> (m \<in> seen s1 \<longrightarrow> status s1 = ?done)"
    using assms(4)
  proof (induction rule: rtranclp_induct)
    case base
    show ?case using assms(1,2) by simp
  next
    case (step u v)
    then obtain env e where env: "env_ok env"
      and run: "handle_settlement isProcessed (settle env) (saveProcessed env) t i m p u = (e, v)" by blast
    have u: "invar u" using step.IH by blast
    note keep = handle_keeps [OF u env run]
    show ?case
    proof (cases "m \<in> seen u")
      case True
      then show ?thesis using handle_duplicate [OF u env run] step.IH by simp
    next
      case False
      have "m \<in> seen v \<longrightarrow> status v = ?done"
        using handle_recorded [OF u env run _ False] step.IH twice by auto
      then show ?thesis using keep step.IH twice by auto
    qed
  qed
  then have s1: "invar s1" by blast
  show "m \<in> seen s'" by (rule handle_done(1) [OF s1 assms(5,6)])
  show "status s' = ?done"
  proof (cases "m \<in> seen s1")
    case True
    then show ?thesis using handle_duplicate [OF s1 assms(5,6)] inv by simp
  next
    case False
    then show ?thesis using handle_done(2) [OF s1 assms(5,6) False] inv twice by auto
  qed
qed

end

text \<open>Both settlements of the PostgreSQL repositories provide the interface.\<close>

interpretation confirming: settlement_ports "\<lambda>s. order_db_laws D" "order_status D"
    "order_inbox D" OrderStatusConfirmed "IsProcessed D" "\<lambda>env. fst env \<noteq> 0" "\<lambda>env. ConfirmOrder D (snd env)"
    "\<lambda>env. SaveProcessed D (fst env) (snd env)"
  for D
proof (unfold_locales, goal_cases)
  case (1 s m b)
  then show ?case using IsProcessed_inbox [of D s m b] by simp
next
  case (2 s env i e s')
  then show ?case using ConfirmOrder_effect [of D "snd env" s i e s'] by simp
next
  case (3 s env m t p e s')
  then show ?case using SaveProcessed_cases [of D "fst env" "snd env" s m t p e s'] by auto
qed

interpretation rejecting: settlement_ports "\<lambda>s. order_db_laws D" "order_status D"
    "order_inbox D" OrderStatusFailed "IsProcessed D" "\<lambda>env. fst env \<noteq> 0" "\<lambda>env. RejectOrder D (snd env)"
    "\<lambda>env. SaveProcessed D (fst env) (snd env)"
  for D
proof (unfold_locales, goal_cases)
  case (1 s m b)
  then show ?case using IsProcessed_inbox [of D s m b] by simp
next
  case (2 s env i e s')
  then show ?case using RejectOrder_effect [of D "snd env" s i e s'] by simp
next
  case (3 s env m t p e s')
  then show ?case using SaveProcessed_cases [of D "fst env" "snd env" s m t p e s'] by auto
qed

end
