(* ===== verification/Order_Server.thy ===== *)
theory Order_Server
  imports Order_Service
begin

text \<open>
  The gRPC server of the order service (\<open>adapter/grpc/order_server.go\<close>). The messages are those
  of the generated package \<open>order/v1\<close>, with the fields the server reads and writes.
\<close>

record CreateOrderItemRequest =
  cq_product_id :: string
  cq_product_name :: string
  cq_unit_price :: float64
  cq_quantity :: int32

record CreateOrderRequest =
  cr_customer_id :: string
  cr_items :: "CreateOrderItemRequest list"

record proto_item =
  pi_id :: string
  pi_order_id :: string
  pi_product_id :: string
  pi_product_name :: string
  pi_unit_price :: float64
  pi_quantity :: int32
  pi_subtotal :: float64

record proto_order =
  po_id :: string
  po_customer_id :: string
  po_status :: string
  po_total_amount :: float64
  po_items :: "proto_item list"

definition serviceError :: "err \<Rightarrow> grpc_code \<Rightarrow> err" where
  "serviceError err fallback =
     (if errors_Is err DeadlineExceeded then Status DeadlineExceededCode ''request timed out''
      else if errors_Is err Canceled then Status CanceledCode ''request canceled''
      else if errors_Is err ErrOrderNotFound then Status NotFound (err_text ErrOrderNotFound)
      else Status fallback (err_text err))"

definition toProtoItem :: "(uuid \<Rightarrow> string) \<Rightarrow> order_item \<Rightarrow> proto_item" where
  "toProtoItem ustr item =
     \<lparr>pi_id = ustr (oi_id item), pi_order_id = ustr (oi_order_id item),
      pi_product_id = ustr (oi_product_id item), pi_product_name = oi_product_name item,
      pi_unit_price = oi_unit_price item, pi_quantity = to_int32 (oi_quantity item),
      pi_subtotal = oi_subtotal item\<rparr>"

definition toProtoOrder :: "(uuid \<Rightarrow> string) \<Rightarrow> order \<Rightarrow> proto_order" where
  "toProtoOrder ustr ord =
     \<lparr>po_id = ustr (od_id ord), po_customer_id = ustr (od_customer_id ord), po_status = od_status ord,
      po_total_amount = od_total_amount ord, po_items = map (toProtoItem ustr) (od_items ord)\<rparr>"

definition toProtoOrders :: "(uuid \<Rightarrow> string) \<Rightarrow> order list \<Rightarrow> proto_order list" where
  "toProtoOrders ustr orders = map (toProtoOrder ustr) orders"

fun itemsInput :: "(string \<Rightarrow> uuid option) \<Rightarrow> CreateOrderItemRequest list \<Rightarrow> err + CreateOrderItemInput list" where
  "itemsInput parse [] = Inr []"
| "itemsInput parse (item # items) =
     (case parse (cq_product_id item) of
        None \<Rightarrow> Inl (Status InvalidArgument ''invalid product_id'')
      | Some productID \<Rightarrow>
          (case itemsInput parse items of
             Inl e \<Rightarrow> Inl e
           | Inr inputs \<Rightarrow>
               Inr (\<lparr>ci_product_id = productID, ci_product_name = cq_product_name item,
                     ci_unit_price = cq_unit_price item, ci_quantity = to_int (cq_quantity item)\<rparr> # inputs)))"

definition server_CreateOrder ::
  "ozzo \<Rightarrow> (string \<Rightarrow> uuid option) \<Rightarrow> (uuid \<Rightarrow> string) \<Rightarrow> ('s \<Rightarrow> CreateOrderInput \<Rightarrow> (err + order) \<times> 's)
   \<Rightarrow> 's \<Rightarrow> CreateOrderRequest \<Rightarrow> (err + proto_order) \<times> 's" where
  "server_CreateOrder V parse ustr createOrder s req =
     (case parse (cr_customer_id req) of
        None \<Rightarrow> (Inl (Status InvalidArgument ''invalid customer_id''), s)
      | Some customerID \<Rightarrow>
          (case itemsInput parse (cr_items req) of
             Inl e \<Rightarrow> (Inl e, s)
           | Inr items \<Rightarrow>
               (let input = \<lparr>co_customer_id = customerID, co_items = items\<rparr>
                in case OrderInput_Validate V input of
                     Some e \<Rightarrow> (Inl (Status InvalidArgument (err_text e)), s)
                   | None \<Rightarrow>
                       (case createOrder s input of
                          (Inl e, s') \<Rightarrow> (Inl (serviceError e Internal), s')
                        | (Inr ord, s') \<Rightarrow> (Inr (toProtoOrder ustr ord), s')))))"

definition server_GetOrder ::
  "(string \<Rightarrow> uuid option) \<Rightarrow> (uuid \<Rightarrow> string) \<Rightarrow> (uuid \<Rightarrow> err + order) \<Rightarrow> string \<Rightarrow> err + proto_order" where
  "server_GetOrder parse ustr getOrder orderID =
     (case parse orderID of
        None \<Rightarrow> Inl (Status InvalidArgument ''invalid order_id'')
      | Some i \<Rightarrow>
          (case getOrder i of
             Inl e \<Rightarrow> Inl (serviceError e Internal)
           | Inr ord \<Rightarrow> Inr (toProtoOrder ustr ord)))"

definition server_GetOrders ::
  "(uuid \<Rightarrow> string) \<Rightarrow> (err + order list) \<Rightarrow> err + proto_order list" where
  "server_GetOrders ustr getOrders =
     (case getOrders of
        Inl e \<Rightarrow> Inl (serviceError e Internal)
      | Inr orders \<Rightarrow> Inr (toProtoOrders ustr orders))"

text \<open>The order service with its database: the server calls the service, which calls the repository.\<close>

definition order_CreateOrder ::
  "'s order_db \<Rightarrow> ozzo \<Rightarrow> (string \<Rightarrow> uuid option) \<Rightarrow> (uuid \<Rightarrow> string) \<Rightarrow> (nat \<Rightarrow> uuid) \<Rightarrow> time \<Rightarrow> time
   \<Rightarrow> 's \<Rightarrow> CreateOrderRequest \<Rightarrow> (err + proto_order) \<times> 's" where
  "order_CreateOrder D V parse ustr new now1 now2 =
     server_CreateOrder V parse ustr (CreateOrder D V ustr new now1 now2)"

definition order_GetOrder ::
  "'s order_db \<Rightarrow> (string \<Rightarrow> uuid option) \<Rightarrow> (uuid \<Rightarrow> string) \<Rightarrow> 's \<Rightarrow> string \<Rightarrow> err + proto_order" where
  "order_GetOrder D parse ustr s = server_GetOrder parse ustr (GetOrder D s)"

definition order_GetOrders :: "'s order_db \<Rightarrow> (uuid \<Rightarrow> string) \<Rightarrow> 's \<Rightarrow> err + proto_order list" where
  "order_GetOrders D ustr s = server_GetOrders ustr (GetOrders D s)"

section \<open>What the server accepts and returns\<close>

lemma itemsInput_Inr:
  "itemsInput parse items = Inr inputs \<Longrightarrow>
     map (Some \<circ> ci_product_id) inputs = map (parse \<circ> cq_product_id) items
     \<and> map ci_product_name inputs = map cq_product_name items
     \<and> map ci_unit_price inputs = map cq_unit_price items
     \<and> map ci_quantity inputs = map (to_int \<circ> cq_quantity) items"
  by (induction items arbitrary: inputs) (auto split: option.splits sum.splits)

lemma itemsInput_Inl:
  "itemsInput parse items = Inl e \<Longrightarrow>
     e = Status InvalidArgument ''invalid product_id'' \<and> (\<exists>it\<in>set items. parse (cq_product_id it) = None)"
  by (induction items) (auto split: option.splits sum.splits)

lemma itemsInput_total:
  "(\<forall>it\<in>set items. parse (cq_product_id it) \<noteq> None) \<longleftrightarrow> (\<exists>inputs. itemsInput parse items = Inr inputs)"
  by (induction items) (auto split: option.splits sum.splits)

definition request_item_ok :: "(string \<Rightarrow> uuid option) \<Rightarrow> CreateOrderItemRequest \<Rightarrow> bool" where
  "request_item_ok parse it \<longleftrightarrow> parse (cq_product_id it) \<noteq> None \<and> cq_product_name it \<noteq> []
     \<and> f_nonneg (cq_unit_price it) \<and> 1 \<le> sint (cq_quantity it)"

definition request_ok :: "(string \<Rightarrow> uuid option) \<Rightarrow> CreateOrderRequest \<Rightarrow> bool" where
  "request_ok parse req \<longleftrightarrow> parse (cr_customer_id req) \<noteq> None \<and> cr_items req \<noteq> []
     \<and> (\<forall>it\<in>set (cr_items req). request_item_ok parse it)"

lemma itemsInput_ok:
  "itemsInput parse items = Inr inputs \<Longrightarrow>
     (\<forall>i\<in>set inputs. item_input_ok i) \<longleftrightarrow> (\<forall>it\<in>set items. request_item_ok parse it)"
  by (induction items arbitrary: inputs)
    (auto simp: item_input_ok_def request_item_ok_def split: option.splits sum.splits)

text \<open>A request is refused as invalid without a call of the service, or passed to the service.\<close>

lemma server_CreateOrder_cases [consumes 2, case_names invalid valid]:
  assumes V: "ozzo_laws V" and run: "server_CreateOrder V parse ustr createOrder s req = (res, s')"
  obtains m where "\<not> request_ok parse req" "res = Inl (Status InvalidArgument m)" "s' = s"
  | input r where "request_ok parse req" "OrderInput_Validate V input = None"
      "parse (cr_customer_id req) = Some (co_customer_id input)"
      "itemsInput parse (cr_items req) = Inr (co_items input)"
      "createOrder s input = (r, s')"
      "res = (case r of Inl e \<Rightarrow> Inl (serviceError e Internal) | Inr ord \<Rightarrow> Inr (toProtoOrder ustr ord))"
proof (cases "parse (cr_customer_id req)")
  case None
  with run that(1) show thesis by (auto simp: server_CreateOrder_def request_ok_def)
next
  case (Some c)
  show thesis
  proof (cases "itemsInput parse (cr_items req)")
    case (Inl e)
    from itemsInput_Inl [OF this] have "\<not> request_ok parse req"
      by (auto simp: request_ok_def request_item_ok_def)
    with Inl Some run that(1) itemsInput_Inl [OF Inl] show thesis by (auto simp: server_CreateOrder_def)
  next
    case (Inr inputs)
    let ?in = "\<lparr>co_customer_id = c, co_items = inputs\<rparr>"
    have nil: "inputs = [] \<longleftrightarrow> cr_items req = []"
      using itemsInput_Inr [OF Inr] by (metis map_is_Nil_conv)
    have ok: "OrderInput_Validate V ?in = None \<longleftrightarrow> request_ok parse req"
      using OrderInput_Validate_None [OF V, of ?in] itemsInput_ok [OF Inr] nil Some
      by (simp add: request_ok_def)
    show thesis
    proof (cases "OrderInput_Validate V ?in")
      case None
      obtain r t where "createOrder s ?in = (r, t)" by fastforce
      with run Some Inr None ok that(2) [of ?in r] show thesis
        by (auto simp: server_CreateOrder_def split: sum.splits)
    next
      case (Some e)
      with run \<open>parse (cr_customer_id req) = _\<close> Inr ok that(1) show thesis
        by (auto simp: server_CreateOrder_def)
    qed
  qed
qed

end
