(* ===== verification/Retry_Policy.thy ===== *)
theory Retry_Policy
  imports Amqp
begin

text \<open>
  The retry policy of the order service's consumers (\<open>retry_policy.go\<close>): a delivery that
  cannot be processed is published again to a retry queue, with its attempt counted in a header,
  or to the dead-letter exchange once the attempts are used up. The original is acknowledged
  only after the broker has confirmed the copy.
\<close>

section \<open>The policy\<close>

definition deliveryAttemptHeader :: string where
  "deliveryAttemptHeader = ''x-delivery-attempt''"

datatype failureDisposition = dispositionRetry | dispositionDeadLetter

record retryPolicy =
  rp_sourceExchange :: string
  rp_sourceRoutingKey :: string
  rp_retryQueue :: string
  rp_deadLetterExchange :: string
  rp_deadLetterQueue :: string
  rp_maxAttempts :: goint
  rp_retryDelay :: duration

definition newRetryPolicy :: "string \<Rightarrow> string \<Rightarrow> string \<Rightarrow> goint \<Rightarrow> duration \<Rightarrow> retryPolicy" where
  "newRetryPolicy sourceExchange sourceRoutingKey queueName maxAttempts retryDelay =
     \<lparr>rp_sourceExchange = sourceExchange, rp_sourceRoutingKey = sourceRoutingKey,
      rp_retryQueue = queueName @ ''.retry'',
      rp_deadLetterExchange = sourceExchange @ ''.dead-letter'',
      rp_deadLetterQueue = queueName @ ''.dlq'',
      rp_maxAttempts = maxAttempts, rp_retryDelay = retryDelay\<rparr>"

text \<open>\<open>Duration.Milliseconds\<close> divides nanoseconds, truncating towards zero.\<close>

definition milliseconds :: "duration \<Rightarrow> goint" where
  "milliseconds d = word_of_int (sgn d * (\<bar>d\<bar> div 1000000))"

definition retry_declare :: "amqp \<Rightarrow> retryPolicy \<Rightarrow> chan act" where
  "retry_declare B p =
     seq (wrapping ''enable publisher confirms for retries: '' (call B (ConfirmMode False)))
    (seq (wrapping ''declare dead-letter exchange: ''
            (call B (ExchangeDeclare (rp_deadLetterExchange p) ''direct'' True False False False)))
    (seq (wrapping ''declare dead-letter queue: ''
            (call B (QueueDeclare (rp_deadLetterQueue p) True False False False None)))
    (seq (wrapping ''bind dead-letter queue: ''
            (call B (QueueBind (rp_deadLetterQueue p) (rp_deadLetterQueue p) (rp_deadLetterExchange p) False)))
         (wrapping ''declare retry queue: ''
            (call B (QueueDeclare (rp_retryQueue p) True False False False
              (Some [''x-message-ttl'' \<mapsto> HInt64 (milliseconds (rp_retryDelay p)),
                     ''x-dead-letter-exchange'' \<mapsto> HString (rp_sourceExchange p),
                     ''x-dead-letter-routing-key'' \<mapsto> HString (rp_sourceRoutingKey p)])))))))"

section \<open>Attempts and headers\<close>

definition int_max :: "goint \<Rightarrow> goint \<Rightarrow> goint" where
  "int_max a b = (if sint a < sint b then b else a)"

definition deliveryAttempt :: "table \<Rightarrow> goint" where
  "deliveryAttempt headers =
     (case headers of
        None \<Rightarrow> 1
      | Some m \<Rightarrow>
          (case m deliveryAttemptHeader of
             Some (HInt v) \<Rightarrow> int_max v 1
           | Some (HInt8 v) \<Rightarrow> int_max (word_of_int (sint v)) 1
           | Some (HInt16 v) \<Rightarrow> int_max (word_of_int (sint v)) 1
           | Some (HInt32 v) \<Rightarrow> int_max (to_int v) 1
           | Some (HInt64 v) \<Rightarrow> int_max v 1
           | _ \<Rightarrow> 1))"

definition copyHeaders :: "table \<Rightarrow> (string \<rightharpoonup> hval)" where
  "copyHeaders headers = (case headers of None \<Rightarrow> Map.empty | Some m \<Rightarrow> m)"

section \<open>Publish the copy, then settle the original\<close>

definition republished :: "delivery \<Rightarrow> (string \<rightharpoonup> hval) \<Rightarrow> publishing" where
  "republished d headers =
     \<lparr>p_headers = Some headers, p_content_type = p_content_type d,
      p_content_encoding = p_content_encoding d, p_persistent = True, p_priority = p_priority d,
      p_correlation_id = p_correlation_id d, p_reply_to = p_reply_to d,
      p_message_id = p_message_id d, p_timestamp = p_timestamp d, p_type = p_type d,
      p_app_id = p_app_id d, p_body = p_body d\<rparr>"

definition publishThenAck ::
  "amqp \<Rightarrow> delivery \<Rightarrow> string \<Rightarrow> string \<Rightarrow> (string \<rightharpoonup> hval) \<Rightarrow> chan act" where
  "publishThenAck B d exchange routingKey headers h =
     (case confirmed_publish B exchange routingKey (republished d headers)
             ''RabbitMQ negatively acknowledged retry or dead-letter message'' h of
        (Some err, h1) \<Rightarrow>
          (case call B (NackCall (d_tag d) False True) h1 of
             (Some nackErr, h2) \<Rightarrow> (Some (Join err (Wrap ''requeue original message: '' nackErr)), h2)
           | (None, h2) \<Rightarrow> (Some err, h2))
      | (None, h1) \<Rightarrow>
          wrapping ''acknowledge original message: '' (call B (AckCall (d_tag d) False)) h1)"

definition dead_letter_headers :: "delivery \<Rightarrow> string \<Rightarrow> time \<Rightarrow> (string \<rightharpoonup> hval)" where
  "dead_letter_headers d reason now =
     (copyHeaders (p_headers d))
       (deliveryAttemptHeader \<mapsto> HInt32 (to_int32 (deliveryAttempt (p_headers d))),
        ''x-dead-letter-reason'' \<mapsto> HString reason,
        ''x-dead-lettered-at'' \<mapsto> HTime now)"

definition deadLetter :: "amqp \<Rightarrow> retryPolicy \<Rightarrow> time \<Rightarrow> delivery \<Rightarrow> string \<Rightarrow> chan act" where
  "deadLetter B p now d reason =
     publishThenAck B d (rp_deadLetterExchange p) (rp_deadLetterQueue p) (dead_letter_headers d reason now)"

definition retry_headers :: "delivery \<Rightarrow> string \<Rightarrow> (string \<rightharpoonup> hval)" where
  "retry_headers d reason =
     (copyHeaders (p_headers d))
       (deliveryAttemptHeader \<mapsto> HInt32 (to_int32 (deliveryAttempt (p_headers d) + 1)),
        ''x-last-failure-reason'' \<mapsto> HString reason)"

definition retry ::
  "amqp \<Rightarrow> retryPolicy \<Rightarrow> time \<Rightarrow> delivery \<Rightarrow> string \<Rightarrow> chan
   \<Rightarrow> (failureDisposition \<times> err option) \<times> chan" where
  "retry B p now d reason h =
     (if sint (rp_maxAttempts p) \<le> sint (deliveryAttempt (p_headers d))
      then (case deadLetter B p now d reason h of (e, h') \<Rightarrow> ((dispositionDeadLetter, e), h'))
      else (case publishThenAck B d '''' (rp_retryQueue p) (retry_headers d reason) h of
              (e, h') \<Rightarrow> ((dispositionRetry, e), h')))"

section \<open>Attempts\<close>

lemma sint_int_max: "sint (int_max a b) = max (sint a) (sint b)"
  by (simp add: int_max_def)

lemma deliveryAttempt_ge_1: "1 \<le> sint (deliveryAttempt headers)"
proof -
  have m: "1 \<le> sint (int_max v 1)" for v by (simp add: sint_int_max)
  then show ?thesis
    by (simp add: deliveryAttempt_def m split: option.splits hval.splits)
qed

lemma deliveryAttempt_set:
  "deliveryAttempt (Some (m(deliveryAttemptHeader \<mapsto> HInt32 v, k \<mapsto> x)))
     = (if k = deliveryAttemptHeader then deliveryAttempt (Some [k \<mapsto> x]) else int_max (to_int v) 1)"
  by (simp add: deliveryAttempt_def)

lemma headers_distinct [simp]:
  "''x-last-failure-reason'' \<noteq> deliveryAttemptHeader"
  "''x-dead-letter-reason'' \<noteq> deliveryAttemptHeader"
  "''x-dead-lettered-at'' \<noteq> deliveryAttemptHeader"
  by (simp_all add: deliveryAttemptHeader_def)

lemma deliveryAttempt_retry_headers:
  assumes "sint (deliveryAttempt (p_headers d)) < 2 ^ 31 - 1"
  shows "sint (deliveryAttempt (Some (retry_headers d reason))) = sint (deliveryAttempt (p_headers d)) + 1"
proof -
  let ?a = "deliveryAttempt (p_headers d)"
  have lo: "1 \<le> sint ?a" by (rule deliveryAttempt_ge_1)
  have plus: "sint (?a + 1) = sint ?a + 1"
    using sint_plus64 [of ?a 1] assms lo by simp
  have "sint (to_int (to_int32 (?a + 1))) = sint ?a + 1"
    using assms lo by (simp add: sint_to_int32 plus)
  moreover have "deliveryAttempt (Some (retry_headers d reason)) = int_max (to_int (to_int32 (?a + 1))) 1"
    by (simp add: retry_headers_def deliveryAttempt_set)
  ultimately show ?thesis using lo by (simp add: sint_int_max)
qed

lemma deliveryAttempt_dead_letter_headers:
  assumes "sint (deliveryAttempt (p_headers d)) < 2 ^ 31"
  shows "sint (deliveryAttempt (Some (dead_letter_headers d reason now))) = sint (deliveryAttempt (p_headers d))"
proof -
  let ?a = "deliveryAttempt (p_headers d)"
  have lo: "1 \<le> sint ?a" by (rule deliveryAttempt_ge_1)
  then have "sint (to_int (to_int32 ?a)) = sint ?a" using assms by (simp add: sint_to_int32)
  moreover have "deliveryAttempt (Some (dead_letter_headers d reason now)) = int_max (to_int (to_int32 ?a)) 1"
    by (simp add: dead_letter_headers_def deliveryAttempt_def deliveryAttemptHeader_def)
  ultimately show ?thesis using lo by (simp add: sint_int_max)
qed

section \<open>Settlement\<close>

lemma republished_keeps:
  "p_body (republished d hs) = p_body d" "p_message_id (republished d hs) = p_message_id d"
  "p_type (republished d hs) = p_type d" "p_correlation_id (republished d hs) = p_correlation_id d"
  "p_headers (republished d hs) = Some hs"
  by (simp_all add: republished_def)

text \<open>Which calls settle the delivery with a tag.\<close>

fun settles :: "nat \<Rightarrow> amqp_call \<Rightarrow> bool" where
  "settles t (AckCall t' m) = (t' = t)"
| "settles t (NackCall t' m r) = (t' = t)"
| "settles t _ = False"

definition settlements :: "nat \<Rightarrow> amqp_call list \<Rightarrow> amqp_call list" where
  "settlements t cs = filter (settles t) cs"

lemma settlements_simps [simp]:
  "settlements t [] = []"
  "settlements t (c # cs) = (if settles t c then c # settlements t cs else settlements t cs)"
  "settlements t (cs @ ds) = settlements t cs @ settlements t ds"
  by (simp_all add: settlements_def)

text \<open>
  What a run of \<open>publishThenAck\<close> does on the channel: it acknowledges after a confirmed copy,
  or it puts the original back after a publish that failed; and nothing else.
\<close>

lemma publishThenAck_cases [consumes 1, case_names acked requeued]:
  assumes "publishThenAck B d exchange key headers h = (e, h')"
  obtains
    "h' = h @ [PublishCall exchange key True False (republished d headers), WaitConfirm,
        AckCall (d_tag d) False]"
    "confirmed_at B h exchange key (republished d headers)"
    "e = None \<longleftrightarrow> reply_err B h' = None"
  | pre where "h' = h @ pre @ [NackCall (d_tag d) False True]"
    "pre = [PublishCall exchange key True False (republished d headers)]
     \<or> pre = [PublishCall exchange key True False (republished d headers), WaitConfirm]"
    "e \<noteq> None" "\<not> confirmed_at B h exchange key (republished d headers)"
  using assms
  by (auto simp: publishThenAck_def confirmed_publish_cases call_def wrapping_def confirmed_at_def
      split: option.splits if_splits) (metis option.distinct(1))+

lemma publishThenAck_once:
  assumes "publishThenAck B d exchange key headers h = (e, h')"
  obtains cs c where "h' = h @ cs" and "settlements (d_tag d) cs = [c]" and "last cs = c"
    and "c = AckCall (d_tag d) False \<and> confirmed_at B h exchange key (republished d headers)
      \<or> c = NackCall (d_tag d) False True \<and> e \<noteq> None"
  using assms
proof (cases rule: publishThenAck_cases)
  case acked
  then show ?thesis using that [of "[PublishCall exchange key True False (republished d headers),
        WaitConfirm, AckCall (d_tag d) False]"] by simp
next
  case (requeued pre)
  then show ?thesis using that [of "pre @ [NackCall (d_tag d) False True]"] by auto
qed

text \<open>Where \<open>retry\<close> sends the copy of a delivery, and with which headers.\<close>

definition failure_target :: "retryPolicy \<Rightarrow> time \<Rightarrow> delivery \<Rightarrow> string
    \<Rightarrow> failureDisposition \<times> string \<times> string \<times> (string \<rightharpoonup> hval)" where
  "failure_target p now d reason =
     (if sint (rp_maxAttempts p) \<le> sint (deliveryAttempt (p_headers d))
      then (dispositionDeadLetter, rp_deadLetterExchange p, rp_deadLetterQueue p, dead_letter_headers d reason now)
      else (dispositionRetry, '''', rp_retryQueue p, retry_headers d reason))"

lemma retry_publishThenAck:
  assumes "retry B p now d reason h = ((disp, e), h')"
  obtains exchange key headers where "failure_target p now d reason = (disp, exchange, key, headers)"
    and "publishThenAck B d exchange key headers h = (e, h')"
  using assms by (auto simp: retry_def deadLetter_def failure_target_def split: if_splits prod.splits)

end
