(* ===== verification/Consumers.thy ===== *)
theory Consumers
  imports Amqp
begin

text \<open>
  What the consumers of the services share: the decoding of struct fields, the items of a stock
  event, and the loop that waits for deliveries.
\<close>

section \<open>Decoding\<close>

text \<open>A struct field: its value is decoded over the old one and put back.\<close>

definition dec_field :: "('r \<Rightarrow> 'a) \<Rightarrow> ('a \<Rightarrow> 'r \<Rightarrow> 'r) \<Rightarrow> 'a dec \<Rightarrow> 'r dec" where
  "dec_field get put d j r = map_option (\<lambda>x. put x r) (d j (get r))"

record stock_item =
  si_product_id :: string
  si_quantity :: goint

definition stock_item_fields :: "string \<Rightarrow> stock_item dec option" where
  "stock_item_fields k =
     (if k = ''product_id'' then Some (dec_field si_product_id (\<lambda>x. si_product_id_update (\<lambda>_. x)) dec_string)
      else if k = ''quantity'' then Some (dec_field si_quantity (\<lambda>x. si_quantity_update (\<lambda>_. x)) dec_int)
      else None)"

definition zero_stock_item :: stock_item where
  "zero_stock_item = \<lparr>si_product_id = [], si_quantity = 0\<rparr>"

definition dec_stock_items :: "(stock_item list \<times> stock_item list) dec" where
  "dec_stock_items = dec_slice zero_stock_item (dec_struct stock_item_fields)"

section \<open>The loop\<close>

text \<open>
  What the \<open>select\<close> of the loop receives. A delivery comes with an environment: what
  \<open>uuid.New\<close> and \<open>time.Now\<close> return while it is handled. The result None says that the loop
  still waits. The consumers differ in the text of the error for a closed channel.
\<close>

datatype 'e consumer_event = CtxDone | DeliveriesClosed | Deliver delivery 'e

definition deliveries_closed :: string where "deliveries_closed = ''RabbitMQ deliveries channel closed''"

fun consumer_loop ::
  "string \<Rightarrow> ('e \<Rightarrow> delivery \<Rightarrow> 'w \<Rightarrow> 'w) \<Rightarrow> 'e consumer_event list \<Rightarrow> 'w \<Rightarrow> err option option \<times> 'w" where
  "consumer_loop reason handle [] w = (None, w)"
| "consumer_loop reason handle (CtxDone # es) w = (Some None, w)"
| "consumer_loop reason handle (DeliveriesClosed # es) w =
     (Some (Some (Msg reason)), w)"
| "consumer_loop reason handle (Deliver d env # es) w = consumer_loop reason handle es (handle env d w)"

definition consumer_Start ::
  "string \<Rightarrow> chan act \<Rightarrow> ('e \<Rightarrow> delivery \<Rightarrow> 's \<times> chan \<Rightarrow> 's \<times> chan) \<Rightarrow> 'e consumer_event list
   \<Rightarrow> 's \<times> chan \<Rightarrow> err option option \<times> 's \<times> chan" where
  "consumer_Start reason setup handle es sh =
     (case sh of (s, h) \<Rightarrow>
        case setup h of
          (Some e, h') \<Rightarrow> (Some (Some e), s, h')
        | (None, h') \<Rightarrow> consumer_loop reason handle es (s, h'))"

text \<open>What every handled delivery keeps, the loop keeps.\<close>

lemma consumer_loop_keeps:
  assumes "\<And>env d w. P w \<Longrightarrow> P (handle env d w)" and "P w"
  shows "P (snd (consumer_loop reason handle es w))"
  using assms(2)
proof (induction es arbitrary: w)
  case Nil
  then show ?case by simp
next
  case (Cons x es)
  then show ?case by (cases x) (auto simp: assms(1))
qed

section \<open>The setup of a consumer without a retry policy\<close>

definition plain_consumer_setup :: "amqp \<Rightarrow> string \<Rightarrow> string \<Rightarrow> string \<Rightarrow> chan act" where
  "plain_consumer_setup B exchange queueName key =
     seq (call B (ExchangeDeclare exchange ''topic'' True False False False))
    (seq (call B (QueueDeclare queueName True False False False None))
      (\<lambda>h. let queue = reply_queue B h
           in seq (call B (QueueBind queue key exchange False))
                  (call B (Consume queue '''' False False False False)) h))"

text \<open>Whether a list of calls is one acknowledgement, as a test that computes.\<close>

fun single_ack :: "nat \<Rightarrow> amqp_call list \<Rightarrow> bool" where
  "single_ack t [AckCall t' m] = (t' = t \<and> \<not> m)"
| "single_ack t _ = False"

lemma single_ack_iff: "single_ack t cs \<longleftrightarrow> cs = [AckCall t False]"
  by (cases "(t, cs)" rule: single_ack.cases) auto

end
