(* ===== verification/Order_Consumers.thy ===== *)
theory Order_Consumers
  imports Order_Service Retry_Policy Consumers
begin

text \<open>
  The order service's two consumers (\<open>stock_reserved_consumer.go\<close>,
  \<open>stock_not_reserved_consumer.go\<close>): they decode the inventory's answer, settle the order, and
  settle the delivery. The two files differ in the event type, the handler and the routing key,
  so the handler is written once and used for both.
\<close>

section \<open>The events\<close>

record StockReservedEvent =
  sr_message_id :: string
  sr_order_id :: string
  sr_items :: "stock_item list \<times> stock_item list"

record StockNotReservedEvent =
  sn_message_id :: string
  sn_order_id :: string
  sn_reason :: string
  sn_items :: "stock_item list \<times> stock_item list"

definition StockReservedEvent_fields :: "string \<Rightarrow> StockReservedEvent dec option" where
  "StockReservedEvent_fields k =
     (if k = ''message_id'' then Some (dec_field sr_message_id (\<lambda>x. sr_message_id_update (\<lambda>_. x)) dec_string)
      else if k = ''order_id'' then Some (dec_field sr_order_id (\<lambda>x. sr_order_id_update (\<lambda>_. x)) dec_string)
      else if k = ''items'' then Some (dec_field sr_items (\<lambda>x. sr_items_update (\<lambda>_. x)) dec_stock_items)
      else None)"

definition StockNotReservedEvent_fields :: "string \<Rightarrow> StockNotReservedEvent dec option" where
  "StockNotReservedEvent_fields k =
     (if k = ''message_id'' then Some (dec_field sn_message_id (\<lambda>x. sn_message_id_update (\<lambda>_. x)) dec_string)
      else if k = ''order_id'' then Some (dec_field sn_order_id (\<lambda>x. sn_order_id_update (\<lambda>_. x)) dec_string)
      else if k = ''reason'' then Some (dec_field sn_reason (\<lambda>x. sn_reason_update (\<lambda>_. x)) dec_string)
      else if k = ''items'' then Some (dec_field sn_items (\<lambda>x. sn_items_update (\<lambda>_. x)) dec_stock_items)
      else None)"

definition decode_StockReserved :: "body \<Rightarrow> (string \<times> string) option" where
  "decode_StockReserved b =
     map_option (\<lambda>ev. (sr_message_id ev, sr_order_id ev))
       (unmarshal StockReservedEvent_fields
         \<lparr>sr_message_id = [], sr_order_id = [], sr_items = ([], [])\<rparr> b)"

definition decode_StockNotReserved :: "body \<Rightarrow> (string \<times> string) option" where
  "decode_StockNotReserved b =
     map_option (\<lambda>ev. (sn_message_id ev, sn_order_id ev))
       (unmarshal StockNotReservedEvent_fields
         \<lparr>sn_message_id = [], sn_order_id = [], sn_reason = [], sn_items = ([], [])\<rparr> b)"

section \<open>Handling one delivery\<close>

definition handle_stock_event ::
  "amqp \<Rightarrow> retryPolicy \<Rightarrow> (string \<Rightarrow> uuid option) \<Rightarrow> (body \<Rightarrow> (string \<times> string) option)
   \<Rightarrow> (uuid \<Rightarrow> uuid \<Rightarrow> body \<Rightarrow> 's act) \<Rightarrow> time \<Rightarrow> delivery \<Rightarrow> 's \<times> chan \<Rightarrow> 's \<times> chan" where
  "handle_stock_event B p parse decode handler now d sh =
     (case sh of (s, h) \<Rightarrow>
        case decode (p_body d) of
          None \<Rightarrow> (s, snd (deadLetter B p now d ''invalid JSON'' h))
        | Some (mid, oid) \<Rightarrow>
            (case parse mid of
               None \<Rightarrow> (s, snd (deadLetter B p now d ''invalid message_id'' h))
             | Some messageID \<Rightarrow>
                 (case parse oid of
                    None \<Rightarrow> (s, snd (deadLetter B p now d ''invalid order_id'' h))
                  | Some orderID \<Rightarrow>
                      (case handler orderID messageID (p_body d) s of
                         (Some e, s') \<Rightarrow> (s', snd (retry B p now d ''processing failed'' h))
                       | (None, s') \<Rightarrow> (s', snd (call B (AckCall (d_tag d) False) h))))))"

definition stockReserved_handleMessage ::
  "'s order_db \<Rightarrow> amqp \<Rightarrow> retryPolicy \<Rightarrow> (string \<Rightarrow> uuid option) \<Rightarrow> uuid \<Rightarrow> time \<Rightarrow> delivery
   \<Rightarrow> 's \<times> chan \<Rightarrow> 's \<times> chan" where
  "stockReserved_handleMessage D B p parse new now d =
     handle_stock_event B p parse decode_StockReserved (HandleConfirmOrder D new now) now d"

definition stockNotReserved_handleMessage ::
  "'s order_db \<Rightarrow> amqp \<Rightarrow> retryPolicy \<Rightarrow> (string \<Rightarrow> uuid option) \<Rightarrow> uuid \<Rightarrow> time \<Rightarrow> delivery
   \<Rightarrow> 's \<times> chan \<Rightarrow> 's \<times> chan" where
  "stockNotReserved_handleMessage D B p parse new now d =
     handle_stock_event B p parse decode_StockNotReserved (HandleRejectOrder D new now) now d"

section \<open>Start\<close>

definition NewStockReservedConsumer_policy :: "string \<Rightarrow> string \<Rightarrow> duration \<Rightarrow> goint \<Rightarrow> retryPolicy" where
  "NewStockReservedConsumer_policy exchange queueName retryDelay maxAttempts =
     newRetryPolicy exchange ''stock.reserved'' queueName maxAttempts retryDelay"

definition NewStockNotReservedConsumer_policy :: "string \<Rightarrow> string \<Rightarrow> duration \<Rightarrow> goint \<Rightarrow> retryPolicy" where
  "NewStockNotReservedConsumer_policy exchange queueName retryDelay maxAttempts =
     newRetryPolicy exchange ''stock.notreserved'' queueName maxAttempts retryDelay"

definition consumer_setup :: "amqp \<Rightarrow> string \<Rightarrow> string \<Rightarrow> string \<Rightarrow> retryPolicy \<Rightarrow> chan act" where
  "consumer_setup B exchange queueName key p =
     seq (call B (ExchangeDeclare exchange ''topic'' True False False False))
    (seq (call B (QueueDeclare queueName True False False False None))
      (\<lambda>h. let queue = reply_queue B h
           in seq (retry_declare B p)
             (seq (call B (QueueBind queue key exchange False))
                  (call B (Consume queue '''' False False False False))) h))"

definition stockReserved_Start ::
  "'s order_db \<Rightarrow> amqp \<Rightarrow> (string \<Rightarrow> uuid option) \<Rightarrow> string \<Rightarrow> string \<Rightarrow> duration \<Rightarrow> goint
   \<Rightarrow> (uuid \<times> time) consumer_event list \<Rightarrow> 's \<times> chan \<Rightarrow> err option option \<times> 's \<times> chan" where
  "stockReserved_Start D B parse exchange queueName retryDelay maxAttempts =
     (let p = NewStockReservedConsumer_policy exchange queueName retryDelay maxAttempts
      in consumer_Start deliveries_closed (consumer_setup B exchange queueName ''stock.reserved'' p)
           (\<lambda>(new, now). stockReserved_handleMessage D B p parse new now))"

definition stockNotReserved_Start ::
  "'s order_db \<Rightarrow> amqp \<Rightarrow> (string \<Rightarrow> uuid option) \<Rightarrow> string \<Rightarrow> string \<Rightarrow> duration \<Rightarrow> goint
   \<Rightarrow> (uuid \<times> time) consumer_event list \<Rightarrow> 's \<times> chan \<Rightarrow> err option option \<times> 's \<times> chan" where
  "stockNotReserved_Start D B parse exchange queueName retryDelay maxAttempts =
     (let p = NewStockNotReservedConsumer_policy exchange queueName retryDelay maxAttempts
      in consumer_Start deliveries_closed (consumer_setup B exchange queueName ''stock.notreserved'' p)
           (\<lambda>(new, now). stockNotReserved_handleMessage D B p parse new now))"

text \<open>\<open>messaging.Start\<close> waits for the first failing consumer or the end of the context.\<close>

datatype group_event = StockReservedEnds "err option" | StockNotReservedEnds "err option" | GroupDone

fun messaging_Start :: "group_event list \<Rightarrow> err option option" where
  "messaging_Start [] = None"
| "messaging_Start (StockReservedEnds (Some e) # es) = Some (Some (Wrap ''stock reserved consumer: '' e))"
| "messaging_Start (StockNotReservedEnds (Some e) # es) = Some (Some (Wrap ''stock not reserved consumer: '' e))"
| "messaging_Start (GroupDone # es) = Some None"
| "messaging_Start (_ # es) = messaging_Start es"

section \<open>What becomes of a delivery\<close>

definition event_ids :: "(string \<Rightarrow> uuid option) \<Rightarrow> (body \<Rightarrow> (string \<times> string) option) \<Rightarrow> body \<Rightarrow> (uuid \<times> uuid) option" where
  "event_ids parse decode b =
     (case decode b of
        None \<Rightarrow> None
      | Some (mid, oid) \<Rightarrow>
          (case (parse mid, parse oid) of
             (Some m, Some i) \<Rightarrow> Some (m, i)
           | _ \<Rightarrow> None))"

lemma handle_stock_event_cases [consumes 1, case_names malformed failed processed]:
  assumes run: "handle_stock_event B p parse decode handler now d (s, h) = (s', h')"
  obtains reason where "event_ids parse decode (p_body d) = None" "s' = s"
      "h' = snd (deadLetter B p now d reason h)"
  | m i e where "event_ids parse decode (p_body d) = Some (m, i)"
      "handler i m (p_body d) s = (Some e, s')" "h' = snd (retry B p now d ''processing failed'' h)"
  | m i where "event_ids parse decode (p_body d) = Some (m, i)"
      "handler i m (p_body d) s = (None, s')" "h' = h @ [AckCall (d_tag d) False]"
proof (cases "event_ids parse decode (p_body d)")
  case None
  with run that(1) show thesis
    by (auto simp: event_ids_def handle_stock_event_def split: option.splits prod.splits)
next
  case (Some mi)
  then obtain m i mid oid where mi: "mi = (m, i)" and dec: "decode (p_body d) = Some (mid, oid)"
    and par: "parse mid = Some m" "parse oid = Some i"
    by (auto simp: event_ids_def split: option.splits)
  obtain e t where t: "handler i m (p_body d) s = (e, t)" by fastforce
  from run dec par t Some mi that(2,3) show thesis
    by (cases e) (auto simp: handle_stock_event_def)
qed

text \<open>
  The calls made for a delivery: it is put back on the queue; or its event has been handled and it is
  acknowledged; or a copy has been published and confirmed, to the retry queue while attempts are
  left for a well-formed event and to the dead-letter exchange otherwise, and it is acknowledged.
\<close>

definition copy_route :: "retryPolicy \<Rightarrow> delivery \<Rightarrow> bool \<Rightarrow> string \<times> string" where
  "copy_route p d well_formed =
     (if well_formed \<and> sint (deliveryAttempt (p_headers d)) < sint (rp_maxAttempts p)
      then ('''', rp_retryQueue p) else (rp_deadLetterExchange p, rp_deadLetterQueue p))"

lemma failure_target_route:
  "failure_target p now d reason = (disp, exchange, key, headers) \<Longrightarrow> (exchange, key) = copy_route p d True"
  by (auto simp: failure_target_def copy_route_def split: if_splits)

lemma publishThenAck_copied [consumes 1, case_names copied requeued]:
  assumes "h' = snd (publishThenAck B d exchange key headers h)"
  obtains "h' = h @ [PublishCall exchange key True False (republished d headers), WaitConfirm, AckCall (d_tag d) False]"
      "confirmed_at B h exchange key (republished d headers)"
  | pre where "h' = h @ pre @ [NackCall (d_tag d) False True]" "settlements (d_tag d) pre = []"
proof -
  obtain e where "publishThenAck B d exchange key headers h = (e, h')" using assms by (metis prod.collapse)
  then show thesis by (cases rule: publishThenAck_cases) (use that in auto)
qed

lemma handle_stock_event_calls [consumes 1, case_names requeued handled copied]:
  assumes "handle_stock_event B p parse decode handler now d (s, h) = (s', h')"
  obtains pre where "h' = h @ pre @ [NackCall (d_tag d) False True]" "settlements (d_tag d) pre = []"
  | m i where "event_ids parse decode (p_body d) = Some (m, i)" "handler i m (p_body d) s = (None, s')"
      "h' = h @ [AckCall (d_tag d) False]"
  | exchange key headers where
      "h' = h @ [PublishCall exchange key True False (republished d headers), WaitConfirm, AckCall (d_tag d) False]"
      "confirmed_at B h exchange key (republished d headers)"
      "(exchange, key) = copy_route p d (event_ids parse decode (p_body d) \<noteq> None)"
  using assms
proof (cases rule: handle_stock_event_cases)
  case (malformed reason)
  from malformed(3) [unfolded deadLetter_def] show thesis
  proof (cases rule: publishThenAck_copied)
    case copied
    then show thesis by (rule that(3)) (simp add: copy_route_def malformed(1))
  qed (rule that(1))
next
  case (failed m i e)
  obtain disp e' where r: "retry B p now d ''processing failed'' h = ((disp, e'), h')"
    using failed(3) by (metis prod.collapse)
  then show thesis
  proof (rule retry_publishThenAck)
    fix exchange key headers
    assume t: "failure_target p now d ''processing failed'' = (disp, exchange, key, headers)"
      and "publishThenAck B d exchange key headers h = (e', h')"
    then have "h' = snd (publishThenAck B d exchange key headers h)" by simp
    then show thesis
    proof (cases rule: publishThenAck_copied)
      case copied
      then show thesis by (rule that(3)) (simp add: failed(1) failure_target_route [OF t])
    qed (rule that(1))
  qed
next
  case (processed m i)
  then show thesis by (rule that(2))
qed

section \<open>A message that fails at every attempt\<close>

text \<open>
  What a consumer publishes while it handles a delivery, and the deliveries that follow: the copy in
  the retry queue is delivered again once its time to live has passed, as \<open>redeliver\<close> makes of it;
  anything else is not. The result is the list of the copies with their routes.
\<close>

fun publication :: "amqp_call \<Rightarrow> (string \<times> string \<times> publishing) option" where
  "publication (PublishCall exchange key mandatory immediate m) = Some (exchange, key, m)"
| "publication _ = None"

definition publications :: "amqp_call list \<Rightarrow> (string \<times> string \<times> publishing) list" where
  "publications cs = map (the \<circ> publication) (filter (\<lambda>c. publication c \<noteq> None) cs)"

fun copies_of ::
  "(delivery \<Rightarrow> 's \<times> chan \<Rightarrow> 's \<times> chan) \<Rightarrow> (publishing \<Rightarrow> delivery) \<Rightarrow> string \<Rightarrow> nat \<Rightarrow> delivery \<Rightarrow> 's \<times> chan
   \<Rightarrow> (string \<times> string \<times> publishing) list" where
  "copies_of consume redeliver retryQueue 0 d sh = []"
| "copies_of consume redeliver retryQueue (Suc n) d sh =
     (let sh' = consume d sh
      in case publications (drop (length (snd sh)) (snd sh')) of
           [(exchange, key, m)] \<Rightarrow>
             (exchange, key, m) #
             (if exchange = '''' \<and> key = retryQueue then copies_of consume redeliver retryQueue n (redeliver m) sh' else [])
         | ms \<Rightarrow> ms)"

lemma failing_attempt:
  assumes "event_ids parse decode (p_body d) = Some (m, i)"
    and "\<forall>t. \<exists>e t'. handler i m (p_body d) t = (Some e, t')"
    and "\<forall>h exchange key msg. confirmed_at B h exchange key msg"
    and "failure_target p now d ''processing failed'' = (disp, exchange, key, headers)"
  obtains s' where "handle_stock_event B p parse decode handler now d (s, h) =
    (s', h @ [PublishCall exchange key True False (republished d headers), WaitConfirm, AckCall (d_tag d) False])"
proof -
  obtain s' h' where run: "handle_stock_event B p parse decode handler now d (s, h) = (s', h')" by fastforce
  then show thesis
  proof (cases rule: handle_stock_event_cases)
    case (failed m' i' e)
    obtain disp' e' where r: "retry B p now d ''processing failed'' h = ((disp', e'), h')"
      using failed(3) by (metis prod.collapse)
    then show thesis
    proof (rule retry_publishThenAck)
      fix exchange' key' headers'
      assume t: "failure_target p now d ''processing failed'' = (disp', exchange', key', headers')"
        and pub: "publishThenAck B d exchange' key' headers' h = (e', h')"
      from pub show thesis
        by (cases rule: publishThenAck_cases) (use run that t assms(3,4) in auto)
    qed
  next
    case (processed m' i')
    then show thesis using assms(1) assms(2) [THEN spec, of s] by auto
  qed (use assms(1) in simp)
qed

text \<open>
  The copies of a message that has come to attempt \<open>a\<close>: one in the retry queue for each attempt left,
  with the number of the next attempt in its header, and a last one in the dead-letter queue.
\<close>

lemma copies_of_failing:
  assumes ids: "event_ids parse decode b = Some (m, i)"
    and fails: "\<forall>t. \<exists>e t'. handler i m b t = (Some e, t')"
    and broker: "\<forall>h exchange key msg. confirmed_at B h exchange key msg"
    and again: "\<And>msg. p_body (redeliver msg) = p_body msg"
      "\<And>msg. deliveryAttempt (p_headers (redeliver msg)) = deliveryAttempt (p_headers msg)"
    and max: "sint (rp_maxAttempts p) < 2 ^ 31" and dlx: "rp_deadLetterExchange p \<noteq> ''''"
    and "p_body d = b" and "sint (deliveryAttempt (p_headers d)) = sint (rp_maxAttempts p) - int k" and "k < fuel"
  shows "let cs = copies_of (handle_stock_event B p parse decode handler now) redeliver (rp_retryQueue p) fuel d (s, h) in
    map (\<lambda>(exchange, key, c). (exchange, key)) cs
      = replicate k ('''', rp_retryQueue p) @ [(rp_deadLetterExchange p, rp_deadLetterQueue p)]
    \<and> map (\<lambda>(exchange, key, c). sint (deliveryAttempt (p_headers c))) cs
      = [sint (rp_maxAttempts p) - int k + 1 .. sint (rp_maxAttempts p)] @ [sint (rp_maxAttempts p)]
    \<and> (\<forall>(exchange, key, c) \<in> set cs. p_body c = b)"
  using assms(8-)
proof (induction k arbitrary: d fuel s h)
  case 0
  obtain n where fuel: "fuel = Suc n" using 0(3) by (cases fuel) auto
  let ?hs = "dead_letter_headers d ''processing failed'' now"
  have t: "failure_target p now d ''processing failed'' =
      (dispositionDeadLetter, rp_deadLetterExchange p, rp_deadLetterQueue p, ?hs)"
    using 0(2) by (simp add: failure_target_def)
  have ids': "event_ids parse decode (p_body d) = Some (m, i)"
    and fails': "\<forall>t. \<exists>e t'. handler i m (p_body d) t = (Some e, t')" using 0(1) ids fails by simp_all
  obtain s' where step: "handle_stock_event B p parse decode handler now d (s, h) =
      (s', h @ [PublishCall (rp_deadLetterExchange p) (rp_deadLetterQueue p) True
      False (republished d ?hs), WaitConfirm, AckCall (d_tag d) False])"
    by (rule failing_attempt [where handler = handler and d = d and m = m and i = i, OF ids' fails' broker t])
  have "sint (deliveryAttempt (Some ?hs)) = sint (rp_maxAttempts p)"
    using deliveryAttempt_dead_letter_headers [of d] max 0(2) by simp
  then show ?case
    using 0(1) dlx by (simp add: fuel step publications_def republished_keeps Let_def)
next
  case (Suc k)
  obtain n where fuel: "fuel = Suc n" "k < n" using Suc.prems(3) by (cases fuel) auto
  let ?hs = "retry_headers d ''processing failed''"
  have t: "failure_target p now d ''processing failed'' = (dispositionRetry, '''', rp_retryQueue p, ?hs)"
    using Suc.prems(2) by (simp add: failure_target_def)
  have ids': "event_ids parse decode (p_body d) = Some (m, i)"
    and fails': "\<forall>t. \<exists>e t'. handler i m (p_body d) t = (Some e, t')" using Suc.prems(1) ids fails by simp_all
  obtain s' where step: "handle_stock_event B p parse decode handler now d (s, h) =
      (s', h @ [PublishCall '''' (rp_retryQueue p) True
      False (republished d ?hs), WaitConfirm, AckCall (d_tag d) False])"
    by (rule failing_attempt [where handler = handler and d = d and m = m and i = i, OF ids' fails' broker t])
  have att: "sint (deliveryAttempt (Some ?hs)) = sint (rp_maxAttempts p) - int k"
    using deliveryAttempt_retry_headers [of d] max Suc.prems(2) by simp
  let ?d = "redeliver (republished d ?hs)"
  have d: "p_body ?d = b" "sint (deliveryAttempt (p_headers ?d)) = sint (rp_maxAttempts p) - int k"
    using att Suc.prems(1) by (simp_all add: again republished_keeps)
  let ?h = "h @ [PublishCall '''' (rp_retryQueue p) True False (republished d ?hs), WaitConfirm, AckCall (d_tag d) False]"
  let ?run = "copies_of (handle_stock_event B p parse decode handler now) redeliver (rp_retryQueue p)"
  have run: "?run fuel d (s, h) = ('''', rp_retryQueue p, republished d ?hs) # ?run n ?d (s', ?h)"
    by (simp add: fuel step publications_def)
  have "[sint (rp_maxAttempts p) - int (Suc k) + 1 .. sint (rp_maxAttempts p)] =
      (sint (rp_maxAttempts p) - int k) # [sint (rp_maxAttempts p) - int k + 1 .. sint (rp_maxAttempts p)]"
    by (subst upto.simps) simp
  then show ?case
    using Suc.IH [OF d fuel(2), of s' ?h] att Suc.prems(1) by (simp add: run republished_keeps Let_def)
qed

end
