(* ===== verification/Order_System.thy ===== *)
theory Order_System
  imports Order_Server Order_Consumers
begin

text \<open>
  The order service as a system: its requests, its two consumers and its outbox worker take
  turns on one database, in any order and with any failures. The life of an order is specified
  by an abstract step relation, and every step of the service is shown to implement it.
\<close>

section \<open>The life of an order\<close>

inductive order_life :: "string option \<Rightarrow> string option \<Rightarrow> bool" where
  created: "order_life None (Some OrderStatusPending)"
| confirmed: "order_life (Some OrderStatusPending) (Some OrderStatusConfirmed)"
| failed: "order_life (Some OrderStatusPending) (Some OrderStatusFailed)"

inductive_cases order_life_elims: "order_life a b"
inductive_simps order_life_confirmed: "order_life (Some OrderStatusConfirmed) b"
inductive_simps order_life_failed: "order_life (Some OrderStatusFailed) b"

lemma order_life_final:
  assumes "order_life\<^sup>*\<^sup>* a b" and "a = Some OrderStatusConfirmed \<or> a = Some OrderStatusFailed"
  shows "b = a"
  using assms
  by (induction rule: rtranclp_induct) (auto simp: order_life_confirmed order_life_failed)

lemma order_life_values:
  assumes "order_life\<^sup>*\<^sup>* a b"
    and "a \<in> {None, Some OrderStatusPending, Some OrderStatusConfirmed, Some OrderStatusFailed}"
  shows "b \<in> {None, Some OrderStatusPending, Some OrderStatusConfirmed, Some OrderStatusFailed}"
  using assms by (induction rule: rtranclp_induct) (auto elim: order_life.cases)

section \<open>The steps of the service\<close>

text \<open>
  Each rule is one call of a handler with everything it does to the database, whether it succeeds
  or fails on the way. The consumers' steps are those of \<open>handleMessage\<close>, whatever the delivery.
\<close>

inductive order_step ::
  "'s order_db \<Rightarrow> ozzo \<Rightarrow> (string \<Rightarrow> uuid option) \<Rightarrow> (uuid \<Rightarrow> string) \<Rightarrow> amqp \<Rightarrow> retryPolicy
   \<Rightarrow> 's \<Rightarrow> 's \<Rightarrow> bool" for D V parse ustr B p where
  create: "\<forall>i. new i \<noteq> 0 \<Longrightarrow> order_CreateOrder D V parse ustr new now1 now2 s req = (res, s')
    \<Longrightarrow> order_step D V parse ustr B p s s'"
| reserved: "new \<noteq> 0 \<Longrightarrow> stockReserved_handleMessage D B p parse new now d (s, h) = (s', h')
    \<Longrightarrow> order_step D V parse ustr B p s s'"
| not_reserved: "new \<noteq> 0 \<Longrightarrow> stockNotReserved_handleMessage D B p parse new now d (s, h) = (s', h')
    \<Longrightarrow> order_step D V parse ustr B p s s'"
| publish: "order_outbox_process (db_outbox D) clock B exchange n (s, h) = (s', h')
    \<Longrightarrow> order_step D V parse ustr B p s s'"

section \<open>What a step does to the statuses\<close>

lemma status_created:
  assumes "order_db_laws D" and "order_created D s ord message s'" and "od_status ord = OrderStatusPending"
  shows "order_status D s (od_id ord) = None"
    and "order_status D s' = (order_status D s)(od_id ord \<mapsto> OrderStatusPending)"
proof -
  have cols: "order_columns (db_orders D)" using assms(1) by (simp add: order_db_laws_def)
  have st: "or_status (g_stored (db_orders D) (toOrderDataModel ord)) = OrderStatusPending"
    and "or_id (g_stored (db_orders D) (toOrderDataModel ord)) = od_id ord"
    using cols assms(3) by (auto simp: order_columns_def toOrderDataModel_def)
  with assms(2) show "order_status D s (od_id ord) = None"
    by (simp add: order_created_def Let_def insertable_def order_schema_def order_status_def)
  from assms(2) st show "order_status D s' = (order_status D s)(od_id ord \<mapsto> OrderStatusPending)"
    by (auto simp: order_created_def Let_def order_status_def)
qed

lemma settle_status_life:
  assumes "st = OrderStatusConfirmed \<or> st = OrderStatusFailed"
  shows "order_life\<^sup>=\<^sup>= (f j) (settle_status st f i j)"
  using assms order_life.confirmed order_life.failed by (auto simp: settle_status_def)

lemma CreateOrder_cases [consumes 3, case_names refused created unchanged]:
  assumes laws: "order_db_laws D" and new: "\<forall>i. new i \<noteq> 0"
    and run: "CreateOrder D V ustr new now1 now2 s input = (res, s')"
  obtains e where "res = Inl e" "s' = s" "OrderInput_Validate V input = Some e"
  | ord where "NewOrder new now1 (co_customer_id input) (order_items_of (co_items input)) = Inr ord"
      "OrderInput_Validate V input = None"
      "order_created D s ord (reservation_message ustr new now2 ord) s'" "res = Inr ord \<or> (\<exists>e. res = Inl e)"
  | e where "res = Inl e" "same_order_rows D s s'" "OrderInput_Validate V input = None"
proof (cases "OrderInput_Validate V input")
  case (Some e)
  with run that(1) [of e] show thesis by (auto simp: CreateOrder_def service_CreateOrder_def)
next
  case None
  obtain ord where ord: "NewOrder new now1 (co_customer_id input) (order_items_of (co_items input)) = Inr ord"
    using NewOrder_Inr by blast
  obtain e t where t: "CreateWithOutbox D s ord (reservation_message ustr new now2 ord) = (e, t)" by fastforce
  note f = NewOrder_fields [OF ord]
  have "oi_id it \<noteq> 0" if "it \<in> set (od_items ord)" for it
  proof -
    have "oi_id it \<in> set (map oi_id (od_items ord))" using that by simp
    then show ?thesis unfolding f(13) using new by auto
  qed
  then have keys: "create_keys ord (reservation_message ustr new now2 ord)"
    using new f(1) by (simp add: create_keys_def reservation_message_def Let_def)
  have s': "s' = t" and res: "res = (case e of Some x \<Rightarrow> Inl x | None \<Rightarrow> Inr ord)"
    using run None ord t by (auto simp: CreateOrder_def service_CreateOrder_def split: option.splits)
  from laws keys t show thesis
  proof (cases rule: CreateWithOutbox_cases)
    case created
    then show thesis using that(2) [OF ord None] s' res by (auto split: option.splits)
  next
    case unchanged
    then show thesis using that(3) s' res None by (auto split: option.splits)
  qed
qed

text \<open>The server over the service over the database: the outcomes of a request.\<close>

definition order_matches :: "(string \<Rightarrow> uuid option) \<Rightarrow> CreateOrderRequest \<Rightarrow> order \<Rightarrow> bool" where
  "order_matches parse req ord \<longleftrightarrow> od_status ord = OrderStatusPending
     \<and> parse (cr_customer_id req) = Some (od_customer_id ord)
     \<and> map (Some \<circ> oi_product_id) (od_items ord) = map (parse \<circ> cq_product_id) (cr_items req)
     \<and> map oi_product_name (od_items ord) = map cq_product_name (cr_items req)
     \<and> map oi_unit_price (od_items ord) = map cq_unit_price (cr_items req)
     \<and> map oi_quantity (od_items ord) = map (to_int \<circ> cq_quantity) (cr_items req)"

lemma order_CreateOrder_cases [consumes 4, case_names invalid created unchanged]:
  assumes laws: "order_db_laws D" and V: "ozzo_laws V" and new: "\<forall>i. new i \<noteq> 0"
    and run: "order_CreateOrder D V parse ustr new now1 now2 s req = (res, s')"
  obtains m where "\<not> request_ok parse req" "s' = s" "res = Inl (Status InvalidArgument m)"
  | ord where "request_ok parse req" "order_matches parse req ord"
      "order_created D s ord (reservation_message ustr new now2 ord) s'"
      "res = Inr (toProtoOrder ustr ord) \<or> (\<exists>e. res = Inl (serviceError e Internal))"
  | e where "request_ok parse req" "same_order_rows D s s'" "res = Inl (serviceError e Internal)"
  using V run [unfolded order_CreateOrder_def]
proof (cases rule: server_CreateOrder_cases)
  case (invalid m)
  then show thesis using that(1) by blast
next
  case (valid input r)
  note inputs = itemsInput_Inr [OF valid(4)]
  from laws new valid(5) show thesis
  proof (cases rule: CreateOrder_cases)
    case (refused e)
    then show thesis using valid(2) by simp
  next
    case (created ord)
    note f = NewOrder_fields [OF created(1)]
    have "map oi_product_id (od_items ord) = map ci_product_id (co_items input)"
      "map oi_product_name (od_items ord) = map ci_product_name (co_items input)"
      "map oi_unit_price (od_items ord) = map ci_unit_price (co_items input)"
      "map oi_quantity (od_items ord) = map ci_quantity (co_items input)"
      unfolding f by (simp_all add: order_items_of_def)
    then have "order_matches parse req ord"
      unfolding order_matches_def using inputs f(2,3) valid(3) by (simp flip: map_map)
    then show thesis
      using that(2) [OF valid(1) _ created(3)] valid(6) created(4) by (auto split: sum.splits)
  next
    case (unchanged e)
    then show thesis using that(3) valid(1,6) by simp
  qed
qed

lemma create_step_status:
  assumes laws: "order_db_laws D" and new: "\<forall>i. new i \<noteq> 0"
    and run: "order_CreateOrder D V parse ustr new now1 now2 s req = (res, s')"
  shows "order_life\<^sup>=\<^sup>= (order_status D s j) (order_status D s' j)"
proof -
  have "s' = s \<or> (\<exists>input r. CreateOrder D V ustr new now1 now2 s input = (r, s'))"
    using run
    by (auto simp: order_CreateOrder_def server_CreateOrder_def Let_def
        split: option.splits sum.splits prod.splits)
  then show ?thesis
  proof (elim disjE exE)
    assume "s' = s"
    then show ?thesis by simp
  next
    fix input r
    assume c: "CreateOrder D V ustr new now1 now2 s input = (r, s')"
    from laws new c show ?thesis
    proof (cases rule: CreateOrder_cases)
      case (refused e)
      then show ?thesis by simp
    next
      case (created ord)
      from status_created [OF laws created(3) NewOrder_fields(3) [OF created(1)]]
      show ?thesis by (auto intro: order_life.created)
    next
      case (unchanged e)
      then show ?thesis by (simp add: same_order_rows_def order_status_def)
    qed
  qed
qed

text \<open>The worker writes to the outbox only.\<close>

lemma process_each_keeps:
  assumes "\<And>s i. P s \<Longrightarrow> P (snd (mark s i))" and "\<And>s i. P s \<Longrightarrow> P (snd (incr s i))" and "P s"
  shows "P (fst (process_each mark incr publish ms (s, q)))"
  using assms(3)
  by (induction ms arbitrary: s q) (auto simp: assms(1,2) split: prod.splits option.splits)

lemma outbox_process_keeps:
  assumes "gorm_frame T U"
    and "outbox_process route T clock B exchange n (s, h) = (s', h')"
  shows "g_rows U s' = g_rows U s"
proof -
  have "g_rows U (fst (process_each (MarkAsProcessed T clock) (IncrementRetry T) pub ms (s, h))) = g_rows U s"
    for pub :: "chan \<Rightarrow> string \<Rightarrow> body \<Rightarrow> err option \<times> chan" and ms
    by (rule process_each_keeps)
      (simp_all add: MarkAsProcessed_def IncrementRetry_def gorm_frameD(2) [OF assms(1)])
  from this [of "\<lambda>h t b. Publish route B exchange t b h"] show ?thesis
    using assms(2) by (auto simp: outbox_process_def process_def split: sum.splits) (metis fst_conv)
qed

lemma stockReserved_handler:
  assumes "stockReserved_handleMessage D B p parse new now d (s, h) = (s', h')"
  obtains "s' = s" | m i e where "HandleConfirmOrder D new now i m (p_body d) s = (e, s')"
  using assms unfolding stockReserved_handleMessage_def
  by (cases rule: handle_stock_event_cases) auto

lemma stockNotReserved_handler:
  assumes "stockNotReserved_handleMessage D B p parse new now d (s, h) = (s', h')"
  obtains "s' = s" | m i e where "HandleRejectOrder D new now i m (p_body d) s = (e, s')"
  using assms unfolding stockNotReserved_handleMessage_def
  by (cases rule: handle_stock_event_cases) auto

lemma HandleConfirmOrder_run:
  "HandleConfirmOrder D new now i m b s =
     handle_settlement (IsProcessed D) (ConfirmOrder D (snd (new, now)))
       (SaveProcessed D (fst (new, now)) (snd (new, now))) ''StockReserved'' i m b s"
  by (simp add: HandleConfirmOrder_def)

lemma HandleRejectOrder_run:
  "HandleRejectOrder D new now i m b s =
     handle_settlement (IsProcessed D) (RejectOrder D (snd (new, now)))
       (SaveProcessed D (fst (new, now)) (snd (new, now))) ''StockReservationFailed'' i m b s"
  by (simp add: HandleRejectOrder_def)

lemma confirm_keeps:
  assumes "order_db_laws D" and "new \<noteq> 0" and "HandleConfirmOrder D new now i m b s = (e, s')"
  shows "order_status D s' = order_status D s
    \<or> order_status D s' = settle_status OrderStatusConfirmed (order_status D s) i"
  using confirming.handle_keeps [OF assms(1) _ assms(3) [unfolded HandleConfirmOrder_run]] assms(2) by auto

lemma reject_keeps:
  assumes "order_db_laws D" and "new \<noteq> 0" and "HandleRejectOrder D new now i m b s = (e, s')"
  shows "order_status D s' = order_status D s
    \<or> order_status D s' = settle_status OrderStatusFailed (order_status D s) i"
  using rejecting.handle_keeps [OF assms(1) _ assms(3) [unfolded HandleRejectOrder_run]] assms(2) by auto

lemma order_step_status:
  assumes laws: "order_db_laws D" and step: "order_step D V parse ustr B p s s'"
  shows "order_life\<^sup>=\<^sup>= (order_status D s j) (order_status D s' j)"
  using step
proof cases
  case (create new now1 now2 req res)
  then show ?thesis by (intro create_step_status [OF laws])
next
  case (reserved new now d h h')
  from reserved(2) show ?thesis
  proof (rule stockReserved_handler)
    fix m i e
    assume "HandleConfirmOrder D new now i m (p_body d) s = (e, s')"
    from confirm_keeps [OF laws reserved(1) this] show ?thesis
      using settle_status_life [of OrderStatusConfirmed "order_status D s" j i] by auto
  qed simp
next
  case (not_reserved new now d h h')
  from not_reserved(2) show ?thesis
  proof (rule stockNotReserved_handler)
    fix m i e
    assume "HandleRejectOrder D new now i m (p_body d) s = (e, s')"
    from reject_keeps [OF laws not_reserved(1) this] show ?thesis
      using settle_status_life [of OrderStatusFailed "order_status D s" j i] by auto
  qed simp
next
  case (publish clock exchange n h h')
  then have "g_rows (db_orders D) s' = g_rows (db_orders D) s"
    using outbox_process_keeps [OF order_frames(7) [OF laws]] by (simp add: order_outbox_process_def)
  then show ?thesis by (simp add: order_status_def)
qed

lemma order_steps_life:
  assumes "order_db_laws D" and "(order_step D V parse ustr B p)\<^sup>*\<^sup>* s s'"
  shows "order_life\<^sup>*\<^sup>* (order_status D s j) (order_status D s' j)"
  using assms(2)
proof (induction rule: rtranclp_induct)
  case base
  show ?case by simp
next
  case (step t u)
  from order_step_status [OF assms(1) step.hyps(2), of j] step.IH show ?case by (auto intro: rtranclp.intros)
qed

section \<open>Reading an order back\<close>

text \<open>The foreign key of the items.\<close>

definition order_fk :: "'s order_db \<Rightarrow> 's \<Rightarrow> bool" where
  "order_fk D s \<longleftrightarrow>
     (\<forall>r\<in>ran (g_rows (db_items D) s). g_rows (db_orders D) s (ir_order_id r) \<noteq> None)"

text \<open>The amounts of an order are whole and fit \<open>NUMERIC(12, 2)\<close>.\<close>

definition whole_amount :: "float64 \<Rightarrow> bool" where
  "whole_amount x \<longleftrightarrow> (\<exists>n. \<bar>n\<bar> < 10 ^ 10 \<and> x = whole n)"

definition whole_order :: "order \<Rightarrow> bool" where
  "whole_order ord \<longleftrightarrow> whole_amount (od_total_amount ord)
     \<and> (\<forall>it\<in>set (od_items ord). whole_amount (oi_unit_price it) \<and> whole_amount (oi_subtotal it))"

lemma stored_order_id:
  assumes "order_db_laws D"
  shows "or_id (g_stored (db_orders D) (toOrderDataModel ord)) = od_id ord"
  using assms by (auto simp: order_db_laws_def order_columns_def toOrderDataModel_def)

lemma stored_item_order:
  assumes "order_db_laws D"
  shows "ir_order_id (g_stored (db_items D) r) = ir_order_id r"
  using assms by (auto simp: order_db_laws_def order_item_columns_def)

lemma stored_items_whole:
  assumes laws: "order_db_laws D" and w: "\<forall>it\<in>set its. whole_amount (oi_unit_price it) \<and> whole_amount (oi_subtotal it)"
  shows "map (g_stored (db_items D)) (toOrderItemDataModels its) = toOrderItemDataModels its"
proof -
  from laws obtain num where num: "numeric_12_2 num"
    and st: "\<And>r. g_stored (db_items D) r = r\<lparr>ir_unit_price := num (ir_unit_price r), ir_subtotal := num (ir_subtotal r)\<rparr>"
    unfolding order_db_laws_def order_item_columns_def by blast
  have id: "num x = x" if "whole_amount x" for x
    using num that by (auto simp: numeric_12_2_def whole_amount_def)
  from w show ?thesis
    by (induction its) (auto simp: toOrderItemDataModels_def st id)
qed

lemma stored_order_whole:
  assumes laws: "order_db_laws D" and w: "whole_amount (od_total_amount ord)"
  shows "or_id (g_stored (db_orders D) (toOrderDataModel ord)) = od_id ord"
    "or_customer_id (g_stored (db_orders D) (toOrderDataModel ord)) = od_customer_id ord"
    "or_status (g_stored (db_orders D) (toOrderDataModel ord)) = od_status ord"
    "or_total_amount (g_stored (db_orders D) (toOrderDataModel ord)) = od_total_amount ord"
  using laws w
  by (auto simp: order_db_laws_def order_columns_def numeric_12_2_def whole_amount_def toOrderDataModel_def)

lemma domain_items_inverse: "toDomainOrderItems (toOrderItemDataModels its) = its"
  by (induction its) (auto simp: toDomainOrderItems_def toOrderItemDataModels_def)

lemma created_item_rows:
  assumes laws: "order_db_laws D" and fk: "order_fk D s" and cr: "order_created D s ord m s'"
    and ids: "\<forall>it\<in>set (od_items ord). oi_order_id it = od_id ord"
  shows "{r \<in> ran (g_rows (db_items D) s'). ir_order_id r = od_id ord}
    = set (map (g_stored (db_items D)) (toOrderItemDataModels (od_items ord)))"
proof -
  let ?rs = "map (g_stored (db_items D)) (toOrderItemDataModels (od_items ord))"
  from cr have ins: "insert_rows order_item_schema (g_rows (db_items D) s) ?rs = Some (g_rows (db_items D) s')"
    and fresh: "g_rows (db_orders D) s (od_id ord) = None"
    using stored_order_id [OF laws, of ord]
    by (auto simp: order_created_def Let_def insertable_def order_schema_def)
  have mem: "ir_order_id r = od_id ord" if "r \<in> set ?rs" for r
    using that ids by (auto simp: toOrderItemDataModels_def stored_item_order [OF laws])
  show ?thesis
  proof (intro equalityI subsetI)
    fix r assume "r \<in> {r \<in> ran (g_rows (db_items D) s'). ir_order_id r = od_id ord}"
    then obtain k where k: "g_rows (db_items D) s' k = Some r" and o: "ir_order_id r = od_id ord"
      by (auto simp: ran_def)
    from insert_rows_dom [OF ins k] show "r \<in> set ?rs"
    proof
      assume "g_rows (db_items D) s k = Some r"
      then have "g_rows (db_orders D) s (ir_order_id r) \<noteq> None" using fk by (auto simp: order_fk_def ran_def)
      with fresh o show ?thesis by simp
    qed
  next
    fix r assume r: "r \<in> set ?rs"
    from insert_rows_added [OF ins r] mem [OF r]
    show "r \<in> {r \<in> ran (g_rows (db_items D) s'). ir_order_id r = od_id ord}" by (auto simp: ran_def)
  qed
qed

lemma GetOrder_rows:
  assumes laws: "order_db_laws D" and run: "GetOrder D s i = Inr o'"
  obtains r items where "g_rows (db_orders D) s i = Some r" and "or_id r = i"
    and "lists_rows (g_rows (db_items D) s) (\<lambda>q. ir_order_id q = i) items" and "o' = toDomainOrder r items"
proof -
  from run obtain r items where first: "g_first (db_orders D) s (\<lambda>r. or_id r = i) = Inr r"
    and find: "g_find (db_items D) s (\<lambda>q. ir_order_id q = or_id r) = Inr items"
    and o': "o' = toDomainOrder r items"
    by (auto simp: GetOrder_def split: sum.splits if_splits)
  have gl: "gorm_laws order_schema (db_orders D)" "gorm_laws order_item_schema (db_items D)"
    using laws by (simp_all add: order_db_laws_def)
  from gorm_first_Inr [OF gl(1) first] have r: "r \<in> ran (g_rows (db_orders D) s)" "or_id r = i" by auto
  then have "g_rows (db_orders D) s i = Some r"
    using gorm_rows_ran [OF gl(1), of r s] by (simp add: order_schema_def)
  moreover have "lists_rows (g_rows (db_items D) s) (\<lambda>q. ir_order_id q = i) items"
    using gl(2) find r(2) unfolding gorm_laws_def query_law_def by blast
  ultimately show thesis using that r(2) o' by blast
qed

lemma GetOrder_Inr:
  assumes "order_db_laws D" and "GetOrder D s i = Inr o'"
  obtains r items where "g_rows (db_orders D) s i = Some r"
    and "set items = {q \<in> ran (g_rows (db_items D) s). ir_order_id q = i}" and "o' = toDomainOrder r items"
proof -
  obtain r items where "g_rows (db_orders D) s i = Some r"
    and "lists_rows (g_rows (db_items D) s) (\<lambda>q. ir_order_id q = i) items" and "o' = toDomainOrder r items"
    by (rule GetOrder_rows [OF assms])
  then show thesis using that lists_rows_set by blast
qed

lemma GetOrder_not_found:
  assumes laws: "order_db_laws D" and "GetOrder D s i = Inl ErrOrderNotFound"
    and "\<And>p e. g_find (db_items D) s p = Inl e \<Longrightarrow> \<not> errors_Is e ErrRecordNotFound \<and> e \<noteq> ErrOrderNotFound"
    and "\<And>p. g_first (db_orders D) s p \<noteq> Inl ErrOrderNotFound"
  shows "g_rows (db_orders D) s i = None"
proof -
  have gl: "gorm_laws order_schema (db_orders D)" using laws by (simp add: order_db_laws_def)
  from assms(2-4) obtain e where first: "g_first (db_orders D) s (\<lambda>r. or_id r = i) = Inl e"
    and e: "errors_Is e ErrRecordNotFound"
    by (auto simp: GetOrder_def split: sum.splits if_splits)
  have "g_rows (db_orders D) s i \<noteq> Some r" for r
    using gorm_first_not_found [OF gl first e, of r] order_key [OF laws, of s i r] by (auto simp: ran_def)
  then show ?thesis by (cases "g_rows (db_orders D) s i") auto
qed

end
