(* ===== verification/Inventory_Repository.thy ===== *)
theory Inventory_Repository
  imports Inbox
begin

text \<open>
  The inventory service's repository (\<open>inventory_repository_pg.go\<close>): one transaction that
  reserves the stock of an order, or finds that it cannot, and records the answer in the outbox
  and the request in the inbox. The rows it reads are locked (\<open>FOR UPDATE\<close>), so a transaction is
  modelled as a function on the database's state. The tables are those of the service's
  migration.
\<close>

section \<open>The tables\<close>

record inventory_row =
  iv_id :: uuid
  iv_product_id :: uuid
  iv_available :: goint
  iv_reserved :: goint
  iv_created_at :: time
  iv_updated_at :: time

record reservation_row =
  rv_id :: uuid
  rv_order_id :: uuid
  rv_product_id :: uuid
  rv_quantity :: goint
  rv_status :: string
  rv_created_at :: time
  rv_updated_at :: time

record ReserveStockItem =
  rs_product_id :: uuid
  rs_quantity :: goint

definition ReservationStatusReserved :: string where "ReservationStatusReserved = ''RESERVED''"
definition ReservationStatusFailed :: string where "ReservationStatusFailed = ''FAILED''"

definition inventory_schema :: "inventory_row schema" where
  "inventory_schema =
     \<lparr>sc_key = iv_id,
      sc_check = (\<lambda>r. int4 (iv_available r) \<and> 0 \<le> sint (iv_available r)
        \<and> int4 (iv_reserved r) \<and> 0 \<le> sint (iv_reserved r)),
      sc_conflict = (\<lambda>r r'. iv_product_id r = iv_product_id r')\<rparr>"

definition reservation_schema :: "reservation_row schema" where
  "reservation_schema =
     \<lparr>sc_key = rv_id,
      sc_check = (\<lambda>r. int4 (rv_quantity r) \<and> 0 < sint (rv_quantity r)
        \<and> rv_status r \<in> {''RESERVED'', ''RELEASED'', ''FAILED''}),
      sc_conflict = (\<lambda>r r'. rv_order_id r = rv_order_id r' \<and> rv_product_id r = rv_product_id r')\<rparr>"

record 's inventory_db =
  nv_inventory :: "('s, inventory_row) gorm"
  nv_reservations :: "('s, reservation_row) gorm"
  nv_outbox :: "('s, outbox_row) gorm"
  nv_inbox :: "('s, inbox_row) gorm"
  nv_tx :: "'s \<Rightarrow> 's act \<Rightarrow> err option \<times> 's"

definition same_inventory_rows :: "'s inventory_db \<Rightarrow> 's \<Rightarrow> 's \<Rightarrow> bool" where
  "same_inventory_rows D s s' \<longleftrightarrow>
     g_rows (nv_inventory D) s' = g_rows (nv_inventory D) s \<and>
     g_rows (nv_reservations D) s' = g_rows (nv_reservations D) s \<and>
     g_rows (nv_outbox D) s' = g_rows (nv_outbox D) s \<and> g_rows (nv_inbox D) s' = g_rows (nv_inbox D) s"

text \<open>UUID, INT and text columns keep their value; only the times may be rounded.\<close>

definition inventory_columns :: "('s, inventory_row) gorm \<Rightarrow> bool" where
  "inventory_columns T \<longleftrightarrow>
     (\<exists>ts. \<forall>r r'. iv_created_at r' = iv_created_at r \<longrightarrow>
        g_assigned T r r' = r'\<lparr>iv_updated_at := ts (iv_updated_at r')\<rparr>)"

definition reservation_columns :: "('s, reservation_row) gorm \<Rightarrow> bool" where
  "reservation_columns T \<longleftrightarrow>
     (\<exists>ts. \<forall>r. g_stored T r =
        r\<lparr>rv_created_at := ts (rv_created_at r), rv_updated_at := ts (rv_updated_at r)\<rparr>)"

definition inventory_db_laws :: "'s inventory_db \<Rightarrow> bool" where
  "inventory_db_laws D \<longleftrightarrow>
     gorm_laws inventory_schema (nv_inventory D) \<and> inventory_columns (nv_inventory D) \<and>
     gorm_laws reservation_schema (nv_reservations D) \<and> reservation_columns (nv_reservations D) \<and>
     outbox_laws (nv_outbox D) \<and> inbox_laws (nv_inbox D) \<and>
     gorm_frame (nv_inventory D) (nv_reservations D) \<and> gorm_frame (nv_inventory D) (nv_outbox D) \<and>
     gorm_frame (nv_inventory D) (nv_inbox D) \<and> gorm_frame (nv_reservations D) (nv_inventory D) \<and>
     gorm_frame (nv_reservations D) (nv_outbox D) \<and> gorm_frame (nv_reservations D) (nv_inbox D) \<and>
     gorm_frame (nv_outbox D) (nv_inventory D) \<and> gorm_frame (nv_outbox D) (nv_reservations D) \<and>
     gorm_frame (nv_outbox D) (nv_inbox D) \<and> gorm_frame (nv_inbox D) (nv_inventory D) \<and>
     gorm_frame (nv_inbox D) (nv_reservations D) \<and> gorm_frame (nv_inbox D) (nv_outbox D) \<and>
     tx_laws (same_inventory_rows D) (nv_tx D)"

section \<open>The steps of the transaction\<close>

definition isMessageProcessed :: "'s inventory_db \<Rightarrow> 's \<Rightarrow> uuid \<Rightarrow> err + bool" where
  "isMessageProcessed D = inbox_has (nv_inbox D)"

text \<open>
  The result of \<open>checkAndLockStock\<close>: an error, or whether there is stock, the reason if not,
  and the rows read (a Go map, here a map from products to rows).
\<close>

fun checkAndLockStock ::
  "'s inventory_db \<Rightarrow> (uuid \<Rightarrow> string) \<Rightarrow> 's \<Rightarrow> ReserveStockItem list \<Rightarrow> (uuid \<rightharpoonup> inventory_row)
   \<Rightarrow> err + (bool \<times> string \<times> (uuid \<rightharpoonup> inventory_row))" where
  "checkAndLockStock D ustr s [] inventories = Inr (True, '''', inventories)"
| "checkAndLockStock D ustr s (item # items) inventories =
     (case g_first (nv_inventory D) s (\<lambda>r. iv_product_id r = rs_product_id item) of
        Inl err \<Rightarrow>
          if errors_Is err ErrRecordNotFound
          then Inr (False, ''inventory not found for product '' @ ustr (rs_product_id item), inventories)
          else Inl err
      | Inr inventory \<Rightarrow>
          if sint (iv_available inventory) < sint (rs_quantity item)
          then Inr (False, ''insufficient stock for product '' @ ustr (rs_product_id item), inventories)
          else checkAndLockStock D ustr s items (inventories(rs_product_id item \<mapsto> inventory)))"

definition zero_inventory :: inventory_row where
  "zero_inventory =
     \<lparr>iv_id = 0, iv_product_id = 0, iv_available = 0, iv_reserved = 0, iv_created_at = 0, iv_updated_at = 0\<rparr>"

definition reserve_update :: "inventory_row \<Rightarrow> goint \<Rightarrow> time \<Rightarrow> inventory_row \<Rightarrow> inventory_row" where
  "reserve_update row q now r =
     r\<lparr>iv_available := iv_available row - q, iv_reserved := iv_reserved row + q, iv_updated_at := now\<rparr>"

definition new_reservation :: "uuid \<Rightarrow> uuid \<Rightarrow> ReserveStockItem \<Rightarrow> time \<Rightarrow> reservation_row" where
  "new_reservation rid orderID item now =
     \<lparr>rv_id = rid, rv_order_id = orderID, rv_product_id = rs_product_id item,
      rv_quantity = rs_quantity item, rv_status = ReservationStatusReserved,
      rv_created_at = now, rv_updated_at = now\<rparr>"

text \<open>\<open>new i\<close> is what the \<open>i\<close>-th call of \<open>uuid.New\<close> in the transaction returns.\<close>

fun reserveStock ::
  "'s inventory_db \<Rightarrow> (nat \<Rightarrow> uuid) \<Rightarrow> nat \<Rightarrow> time \<Rightarrow> uuid \<Rightarrow> ReserveStockItem list
   \<Rightarrow> (uuid \<rightharpoonup> inventory_row) \<Rightarrow> 's act" where
  "reserveStock D new k now orderID [] inventories s = (None, s)"
| "reserveStock D new k now orderID (item # items) inventories s =
     (let inventory = (case inventories (rs_product_id item) of None \<Rightarrow> zero_inventory | Some r \<Rightarrow> r)
      in seq (\<lambda>s. g_updates (nv_inventory D) s (\<lambda>r. iv_id r = iv_id inventory)
                  (reserve_update inventory (rs_quantity item) now))
        (seq (\<lambda>s. g_create (nv_reservations D) s [new_reservation (new k) orderID item now])
             (reserveStock D new (Suc k) now orderID items inventories)) s)"

definition buildStockEventPayload ::
  "(uuid \<Rightarrow> string) \<Rightarrow> uuid \<Rightarrow> uuid \<Rightarrow> string \<Rightarrow> ReserveStockItem list \<Rightarrow> body" where
  "buildStockEventPayload ustr messageID orderID reason items =
     Doc (j_map
       ([(''message_id'', JStr (ustr messageID)),
         (''order_id'', JStr (ustr orderID)),
         (''items'', JArr (map (\<lambda>item. j_map [(''product_id'', JStr (ustr (rs_product_id item))),
                                              (''quantity'', j_int (rs_quantity item))]) items))]
        @ (if reason \<noteq> '''' then [(''reason'', JStr reason)] else [])))"

definition stock_event_message ::
  "(uuid \<Rightarrow> string) \<Rightarrow> (nat \<Rightarrow> uuid) \<Rightarrow> nat \<Rightarrow> time \<Rightarrow> uuid \<Rightarrow> string \<Rightarrow> string \<Rightarrow> ReserveStockItem list
   \<Rightarrow> outbox_row" where
  "stock_event_message ustr new k now orderID eventType reason items =
     \<lparr>ob_id = new (Suc k), ob_aggregate_id = orderID, ob_aggregate_type = ''Order'',
      ob_event_type = eventType,
      ob_payload = buildStockEventPayload ustr (new k) orderID reason items,
      ob_retry_count = 0, ob_created_at = now, ob_processed_at = None\<rparr>"

definition insertOutbox ::
  "'s inventory_db \<Rightarrow> (uuid \<Rightarrow> string) \<Rightarrow> (nat \<Rightarrow> uuid) \<Rightarrow> nat \<Rightarrow> time \<Rightarrow> uuid \<Rightarrow> string \<Rightarrow> string
   \<Rightarrow> ReserveStockItem list \<Rightarrow> 's act" where
  "insertOutbox D ustr new k now orderID eventType reason items s =
     g_create (nv_outbox D) s [stock_event_message ustr new k now orderID eventType reason items]"

definition insertInbox :: "'s inventory_db \<Rightarrow> uuid \<Rightarrow> time \<Rightarrow> uuid \<Rightarrow> string \<Rightarrow> body \<Rightarrow> 's act" where
  "insertInbox D new now messageID eventType payload s =
     inbox_insert (nv_inbox D) new now s messageID eventType payload"

definition reserve_body ::
  "'s inventory_db \<Rightarrow> (uuid \<Rightarrow> string) \<Rightarrow> (nat \<Rightarrow> uuid) \<Rightarrow> (nat \<Rightarrow> time) \<Rightarrow> uuid \<Rightarrow> uuid
   \<Rightarrow> ReserveStockItem list \<Rightarrow> body \<Rightarrow> 's act" where
  "reserve_body D ustr new clock messageID orderID items payload s =
     (case isMessageProcessed D s messageID of
        Inl e \<Rightarrow> (Some e, s)
      | Inr True \<Rightarrow> (None, s)
      | Inr False \<Rightarrow>
          (case checkAndLockStock D ustr s items Map.empty of
             Inl e \<Rightarrow> (Some e, s)
           | Inr (success, reason, inventories) \<Rightarrow>
               if success
               then (let n = length items
                     in seq (reserveStock D new 0 (clock 0) orderID items inventories)
                       (seq (insertOutbox D ustr new n (clock 1) orderID ''StockReserved'' '''' items)
                            (insertInbox D (new (n + 2)) (clock 2) messageID ''ReserveStockRequested'' payload)) s)
               else seq (insertOutbox D ustr new 0 (clock 0) orderID ''StockReservationFailed'' reason items)
                        (insertInbox D (new 2) (clock 1) messageID ''ReserveStockRequested'' payload) s))"

definition ReserveStockWithInboxAndOutbox ::
  "'s inventory_db \<Rightarrow> (uuid \<Rightarrow> string) \<Rightarrow> (nat \<Rightarrow> uuid) \<Rightarrow> (nat \<Rightarrow> time) \<Rightarrow> uuid \<Rightarrow> uuid
   \<Rightarrow> ReserveStockItem list \<Rightarrow> body \<Rightarrow> 's act" where
  "ReserveStockWithInboxAndOutbox D ustr new clock messageID orderID items payload s =
     nv_tx D s (reserve_body D ustr new clock messageID orderID items payload)"

text \<open>\<open>service/inventory_service.go\<close> passes the request on.\<close>

definition HandleReserveStockRequested ::
  "(uuid \<Rightarrow> uuid \<Rightarrow> ReserveStockItem list \<Rightarrow> body \<Rightarrow> 's act)
   \<Rightarrow> uuid \<Rightarrow> uuid \<Rightarrow> ReserveStockItem list \<Rightarrow> body \<Rightarrow> 's act" where
  "HandleReserveStockRequested reserve messageID orderID items payload =
     reserve messageID orderID items payload"

section \<open>The stock and its well-formedness\<close>

definition inventory_wf :: "'s inventory_db \<Rightarrow> 's \<Rightarrow> bool" where
  "inventory_wf D s \<longleftrightarrow>
     (\<forall>r\<in>ran (g_rows (nv_inventory D) s). sc_check inventory_schema r) \<and>
     (\<forall>r\<in>ran (g_rows (nv_inventory D) s). \<forall>r'\<in>ran (g_rows (nv_inventory D) s).
        iv_product_id r = iv_product_id r' \<longrightarrow> r = r')"

text \<open>What a list of items asks for of a product.\<close>

definition demanded :: "ReserveStockItem list \<Rightarrow> uuid \<Rightarrow> int" where
  "demanded items p = sum_list (map (sint \<circ> rs_quantity) (filter (\<lambda>it. rs_product_id it = p) items))"

definition stock_moved :: "'s inventory_db \<Rightarrow> 's \<Rightarrow> ReserveStockItem list \<Rightarrow> 's \<Rightarrow> bool" where
  "stock_moved D s items s' \<longleftrightarrow>
     (\<forall>k. case g_rows (nv_inventory D) s k of
        None \<Rightarrow> g_rows (nv_inventory D) s' k = None
      | Some r \<Rightarrow> \<exists>r'. g_rows (nv_inventory D) s' k = Some r' \<and> iv_id r' = iv_id r
          \<and> iv_product_id r' = iv_product_id r
          \<and> sint (iv_available r') = sint (iv_available r) - demanded items (iv_product_id r)
          \<and> sint (iv_reserved r') = sint (iv_reserved r) + demanded items (iv_product_id r))"

definition stocked :: "'s inventory_db \<Rightarrow> 's \<Rightarrow> ReserveStockItem \<Rightarrow> bool" where
  "stocked D s item \<longleftrightarrow>
     (\<exists>r\<in>ran (g_rows (nv_inventory D) s). iv_product_id r = rs_product_id item
        \<and> sint (rs_quantity item) \<le> sint (iv_available r))"

lemma stock_movedD:
  assumes "stock_moved D s items s'" and "g_rows (nv_inventory D) s k = Some r"
  obtains r' where "g_rows (nv_inventory D) s' k = Some r'" and "iv_id r' = iv_id r"
    and "iv_product_id r' = iv_product_id r"
    and "sint (iv_available r') = sint (iv_available r) - demanded items (iv_product_id r)"
    and "sint (iv_reserved r') = sint (iv_reserved r) + demanded items (iv_product_id r)"
  using assms(1) [unfolded stock_moved_def, THEN spec [of _ k]] assms(2) by auto

lemma stock_moved_None:
  assumes "stock_moved D s items s'"
  shows "g_rows (nv_inventory D) s k = None \<longleftrightarrow> g_rows (nv_inventory D) s' k = None"
  using assms [unfolded stock_moved_def, THEN spec [of _ k]] by (auto split: option.splits)

lemma demanded_simps [simp]:
  "demanded [] p = 0"
  "demanded (it # its) p = (if rs_product_id it = p then sint (rs_quantity it) else 0) + demanded its p"
  by (simp_all add: demanded_def)

lemma demanded_other: "p \<notin> rs_product_id ` set items \<Longrightarrow> demanded items p = 0"
  by (induction items) auto

lemma inventory_frames:
  assumes "inventory_db_laws D"
  shows "gorm_frame (nv_inventory D) (nv_reservations D)" "gorm_frame (nv_inventory D) (nv_outbox D)"
    "gorm_frame (nv_inventory D) (nv_inbox D)" "gorm_frame (nv_reservations D) (nv_inventory D)"
    "gorm_frame (nv_reservations D) (nv_outbox D)" "gorm_frame (nv_reservations D) (nv_inbox D)"
    "gorm_frame (nv_outbox D) (nv_inventory D)" "gorm_frame (nv_outbox D) (nv_reservations D)"
    "gorm_frame (nv_outbox D) (nv_inbox D)" "gorm_frame (nv_inbox D) (nv_inventory D)"
    "gorm_frame (nv_inbox D) (nv_reservations D)" "gorm_frame (nv_inbox D) (nv_outbox D)"
  using assms by (simp_all add: inventory_db_laws_def)

lemma inventory_gorm:
  assumes "inventory_db_laws D"
  shows "gorm_laws inventory_schema (nv_inventory D)" "gorm_laws reservation_schema (nv_reservations D)"
    "gorm_laws outbox_schema (nv_outbox D)" "inbox_laws (nv_inbox D)"
    "inventory_columns (nv_inventory D)" "reservation_columns (nv_reservations D)"
  using assms by (simp_all add: inventory_db_laws_def outbox_laws_def)

lemma inventory_key: "inventory_db_laws D \<Longrightarrow> g_rows (nv_inventory D) s k = Some r \<Longrightarrow> iv_id r = k"
  using gorm_key [OF inventory_gorm(1), of D s k r] by (simp add: inventory_schema_def)

section \<open>Checking the stock\<close>

definition snapshot_ok ::
  "'s inventory_db \<Rightarrow> 's \<Rightarrow> ReserveStockItem list \<Rightarrow> (uuid \<rightharpoonup> inventory_row) \<Rightarrow> bool" where
  "snapshot_ok D s items m \<longleftrightarrow>
     (\<forall>it\<in>set items. \<exists>r. m (rs_product_id it) = Some r \<and> g_rows (nv_inventory D) s (iv_id r) = Some r
        \<and> iv_product_id r = rs_product_id it)"

lemma check_first:
  assumes "inventory_db_laws D" and "g_first (nv_inventory D) s (\<lambda>r. iv_product_id r = p) = Inr r"
  shows "g_rows (nv_inventory D) s (iv_id r) = Some r" and "iv_product_id r = p"
    and "r \<in> ran (g_rows (nv_inventory D) s)"
proof -
  from gorm_first_Inr [OF inventory_gorm(1) [OF assms(1)] assms(2)]
  show ran: "r \<in> ran (g_rows (nv_inventory D) s)" and "iv_product_id r = p" by auto
  then show "g_rows (nv_inventory D) s (iv_id r) = Some r"
    using gorm_rows_ran [OF inventory_gorm(1) [OF assms(1)], of r s] by (simp add: inventory_schema_def)
qed

lemma check_success:
  assumes laws: "inventory_db_laws D"
    and "checkAndLockStock D ustr s items acc = Inr (True, reason, m)"
  shows "snapshot_ok D s items m \<and> (\<forall>p. p \<notin> rs_product_id ` set items \<longrightarrow> m p = acc p)
    \<and> (\<forall>it\<in>set items. stocked D s it)"
  using assms(2)
proof (induction items arbitrary: acc)
  case Nil
  then show ?case by (simp add: snapshot_ok_def)
next
  case (Cons it items)
  then obtain r where r: "g_first (nv_inventory D) s (\<lambda>r. iv_product_id r = rs_product_id it) = Inr r"
    and q: "\<not> sint (iv_available r) < sint (rs_quantity it)"
    and rest: "checkAndLockStock D ustr s items (acc(rs_product_id it \<mapsto> r)) = Inr (True, reason, m)"
    by (auto split: sum.splits if_splits)
  note row = check_first [OF laws r]
  note IH = Cons.IH [OF rest]
  have "\<exists>r. m (rs_product_id it) = Some r \<and> g_rows (nv_inventory D) s (iv_id r) = Some r
      \<and> iv_product_id r = rs_product_id it"
  proof (cases "rs_product_id it \<in> rs_product_id ` set items")
    case True
    then show ?thesis using IH unfolding snapshot_ok_def by fastforce
  next
    case False
    then show ?thesis using IH row by auto
  qed
  moreover have "stocked D s it" using row q unfolding stocked_def by (auto simp: not_less)
  ultimately show ?case using IH by (auto simp: snapshot_ok_def)
qed

lemma check_failure:
  assumes laws: "inventory_db_laws D" and wf: "inventory_wf D s"
    and "checkAndLockStock D ustr s items acc = Inr (False, reason, m)"
  shows "\<exists>it\<in>set items. \<not> stocked D s it
    \<and> (reason = ''inventory not found for product '' @ ustr (rs_product_id it)
       \<or> reason = ''insufficient stock for product '' @ ustr (rs_product_id it))"
  using assms(3)
proof (induction items arbitrary: acc)
  case Nil
  then show ?case by simp
next
  case (Cons it items)
  show ?case
  proof (cases "g_first (nv_inventory D) s (\<lambda>r. iv_product_id r = rs_product_id it)")
    case (Inl e)
    with Cons.prems have e: "errors_Is e ErrRecordNotFound"
      and reason: "reason = ''inventory not found for product '' @ ustr (rs_product_id it)"
      by (auto split: if_splits)
    have "\<not> stocked D s it"
      using gorm_first_not_found [OF inventory_gorm(1) [OF laws] Inl e] unfolding stocked_def by blast
    then show ?thesis using reason by simp
  next
    case (Inr r)
    note row = check_first [OF laws Inr]
    show ?thesis
    proof (cases "sint (iv_available r) < sint (rs_quantity it)")
      case True
      have "\<not> stocked D s it"
      proof
        assume "stocked D s it"
        then obtain r' where r': "r' \<in> ran (g_rows (nv_inventory D) s)"
          "iv_product_id r' = rs_product_id it" "sint (rs_quantity it) \<le> sint (iv_available r')"
          unfolding stocked_def by blast
        with wf row have "r' = r" unfolding inventory_wf_def by metis
        with r'(3) True show False by simp
      qed
      with True Inr Cons.prems show ?thesis by auto
    next
      case False
      with Inr Cons.prems Cons.IH show ?thesis by auto
    qed
  qed
qed

section \<open>Reserving the stock\<close>

fun reservations_of :: "(nat \<Rightarrow> uuid) \<Rightarrow> nat \<Rightarrow> time \<Rightarrow> uuid \<Rightarrow> ReserveStockItem list \<Rightarrow> reservation_row list" where
  "reservations_of new k now orderID [] = []"
| "reservations_of new k now orderID (item # items) =
     new_reservation (new k) orderID item now # reservations_of new (Suc k) now orderID items"

lemma insert_rows_conflicts:
  "insert_rows sch m rs = Some m' \<Longrightarrow>
     (\<forall>r\<in>set rs. sc_check sch r \<and> (\<forall>r'\<in>ran m. \<not> sc_conflict sch r r')) \<and>
     sorted_wrt (\<lambda>r r'. \<not> sc_conflict sch r' r) rs"
proof (induction rs arbitrary: m)
  case Nil
  then show ?case by simp
next
  case (Cons r rs)
  then have ins: "insertable sch m r" and rest: "insert_rows sch (m(sc_key sch r \<mapsto> r)) rs = Some m'"
    by (auto split: if_splits)
  have "ran (m(sc_key sch r \<mapsto> r)) = insert r (ran m)" using ins by (simp add: insertable_def)
  moreover have "(\<forall>q\<in>set rs. sc_check sch q \<and> (\<forall>r'\<in>ran (m(sc_key sch r \<mapsto> r)). \<not> sc_conflict sch q r')) \<and>
      sorted_wrt (\<lambda>r r'. \<not> sc_conflict sch r' r) rs"
    by (rule Cons.IH [OF rest])
  ultimately show ?case using ins by (simp add: insertable_def)
qed

lemma reserveStock_cons:
  assumes "reserveStock D new k now orderID (it # items) inventories s = (None, s')"
    and "inventories (rs_product_id it) = Some row"
  obtains s1 s2 where
    "g_updates (nv_inventory D) s (\<lambda>r. iv_id r = iv_id row) (reserve_update row (rs_quantity it) now) = (None, s1)"
    "g_create (nv_reservations D) s1 [new_reservation (new k) orderID it now] = (None, s2)"
    "reserveStock D new (Suc k) now orderID items inventories s2 = (None, s')"
  using assms by (auto simp: Let_def seq_None_iff)

text \<open>The reservations inserted, and the tables the loop does not touch.\<close>

lemma reserveStock_reservations:
  assumes laws: "inventory_db_laws D" and new: "\<And>i. new i \<noteq> 0"
    and "reserveStock D new k now orderID items inventories s = (None, s')"
  shows "insert_rows reservation_schema (g_rows (nv_reservations D) s)
      (map (g_stored (nv_reservations D)) (reservations_of new k now orderID items))
        = Some (g_rows (nv_reservations D) s')
    \<and> g_rows (nv_outbox D) s' = g_rows (nv_outbox D) s \<and> g_rows (nv_inbox D) s' = g_rows (nv_inbox D) s"
  using assms(3)
proof (induction items arbitrary: k s)
  case Nil
  then show ?case by simp
next
  case (Cons it items)
  let ?row = "case inventories (rs_product_id it) of None \<Rightarrow> zero_inventory | Some r \<Rightarrow> r"
  from Cons.prems obtain s1 s2 where
    u: "g_updates (nv_inventory D) s (\<lambda>r. iv_id r = iv_id ?row) (reserve_update ?row (rs_quantity it) now) = (None, s1)"
    and c: "g_create (nv_reservations D) s1 [new_reservation (new k) orderID it now] = (None, s2)"
    and rest: "reserveStock D new (Suc k) now orderID items inventories s2 = (None, s')"
    by (auto simp: Let_def seq_None_iff)
  note fr = inventory_frames [OF laws]
  let ?q = "new_reservation (new k) orderID it now"
  have nz: "sc_key reservation_schema ?q \<noteq> 0" using new by (simp add: reservation_schema_def new_reservation_def)
  note ins = gorm_create_one_None [OF inventory_gorm(2) [OF laws] c nz]
  have s1: "g_rows (nv_reservations D) s1 = g_rows (nv_reservations D) s" by (rule gorm_frameD(4) [OF fr(1) u])
  have "insert_rows reservation_schema (g_rows (nv_reservations D) s2)
      (map (g_stored (nv_reservations D)) (reservations_of new (Suc k) now orderID items))
        = Some (g_rows (nv_reservations D) s')
    \<and> g_rows (nv_outbox D) s' = g_rows (nv_outbox D) s2 \<and> g_rows (nv_inbox D) s' = g_rows (nv_inbox D) s2"
    by (rule Cons.IH [OF rest])
  then show ?case
    using ins s1 gorm_frameD(4) [OF fr(2) u] gorm_frameD(4) [OF fr(3) u]
      gorm_frameD(3) [OF fr(5) c] gorm_frameD(3) [OF fr(6) c]
    by simp
qed

lemma reservations_stored:
  assumes "inventory_db_laws D"
  shows "rv_order_id (g_stored (nv_reservations D) r) = rv_order_id r"
    and "rv_product_id (g_stored (nv_reservations D) r) = rv_product_id r"
    and "rv_quantity (g_stored (nv_reservations D) r) = rv_quantity r"
    and "rv_status (g_stored (nv_reservations D) r) = rv_status r"
    and "rv_id (g_stored (nv_reservations D) r) = rv_id r"
  using inventory_gorm(6) [OF assms] by (auto simp: reservation_columns_def)

lemma reservations_of_fields:
  "r \<in> set (reservations_of new k now orderID items) \<Longrightarrow>
     rv_order_id r = orderID \<and> rv_status r = ReservationStatusReserved
     \<and> (\<exists>it\<in>set items. rv_product_id r = rs_product_id it \<and> rv_quantity r = rs_quantity it)"
  by (induction items arbitrary: k) (auto simp: new_reservation_def)

lemma reservations_of_item:
  "it \<in> set items \<Longrightarrow> \<exists>r\<in>set (reservations_of new k now orderID items).
     rv_order_id r = orderID \<and> rv_status r = ReservationStatusReserved
     \<and> rv_product_id r = rs_product_id it \<and> rv_quantity r = rs_quantity it"
  by (induction items arbitrary: k) (auto simp: new_reservation_def)

text \<open>UNIQUE(order_id, product_id) and CHECK (quantity > 0) rule out repeated products and odd amounts.\<close>

lemma reserveStock_distinct:
  assumes laws: "inventory_db_laws D" and new: "\<And>i. new i \<noteq> 0"
    and run: "reserveStock D new k now orderID items inventories s = (None, s')"
  shows "distinct (map rs_product_id items)"
    and "\<forall>it\<in>set items. 0 < sint (rs_quantity it) \<and> sint (rs_quantity it) < 2 ^ 31"
proof -
  let ?st = "g_stored (nv_reservations D)"
  note ins = reserveStock_reservations [OF assms, THEN conjunct1]
  note con = insert_rows_conflicts [OF ins]
  have "sorted_wrt (\<lambda>r r'. rv_product_id r' \<noteq> rv_product_id r) (reservations_of new k now orderID items)"
  proof (rule sorted_wrt_mono_rel)
    show "sorted_wrt (\<lambda>r r'. \<not> sc_conflict reservation_schema (?st r') (?st r)) (reservations_of new k now orderID items)"
      using con by (simp add: sorted_wrt_map)
  next
    fix r r'
    assume "r \<in> set (reservations_of new k now orderID items)" "r' \<in> set (reservations_of new k now orderID items)"
      and "\<not> sc_conflict reservation_schema (?st r') (?st r)"
    then show "rv_product_id r' \<noteq> rv_product_id r"
      using reservations_of_fields by (auto simp: reservation_schema_def reservations_stored [OF laws])
  qed
  moreover have "map rv_product_id (reservations_of new k now orderID items) = map rs_product_id items" for k
    by (induction items arbitrary: k) (auto simp: new_reservation_def)
  moreover have "distinct (map rv_product_id rs)" if "sorted_wrt (\<lambda>r r'. rv_product_id r' \<noteq> rv_product_id r) rs"
    for rs :: "reservation_row list"
    using that by (induction rs) auto
  ultimately show "distinct (map rs_product_id items)" by metis
  show "\<forall>it\<in>set items. 0 < sint (rs_quantity it) \<and> sint (rs_quantity it) < 2 ^ 31"
  proof
    fix it assume "it \<in> set items"
    from reservations_of_item [OF this, of new k now orderID] obtain r
      where r: "r \<in> set (reservations_of new k now orderID items)" "rv_quantity r = rs_quantity it" by blast
    from con r(1) have "sc_check reservation_schema (?st r)" by auto
    then show "0 < sint (rs_quantity it) \<and> sint (rs_quantity it) < 2 ^ 31"
      using r(2) by (simp add: reservation_schema_def reservations_stored [OF laws] int4_def)
  qed
qed

text \<open>The effect on the stock, item by item.\<close>

lemma reserve_update_columns:
  assumes "inventory_db_laws D"
  shows "iv_id (assign_row (nv_inventory D) (reserve_update row q now) r) = iv_id r"
    and "iv_product_id (assign_row (nv_inventory D) (reserve_update row q now) r) = iv_product_id r"
    and "iv_available (assign_row (nv_inventory D) (reserve_update row q now) r) = iv_available row - q"
    and "iv_reserved (assign_row (nv_inventory D) (reserve_update row q now) r) = iv_reserved row + q"
  using inventory_gorm(5) [OF assms] by (auto simp: inventory_columns_def assign_row_def reserve_update_def)

lemma inventory_check_bounds:
  assumes "inventory_wf D s" and "g_rows (nv_inventory D) s k = Some r"
  shows "0 \<le> sint (iv_available r)" "sint (iv_available r) < 2 ^ 31"
    "0 \<le> sint (iv_reserved r)" "sint (iv_reserved r) < 2 ^ 31"
proof -
  from assms have "sc_check inventory_schema r" by (auto simp: inventory_wf_def ran_def)
  then show "0 \<le> sint (iv_available r)" "sint (iv_available r) < 2 ^ 31"
    "0 \<le> sint (iv_reserved r)" "sint (iv_reserved r) < 2 ^ 31"
    by (simp_all add: inventory_schema_def int4_def)
qed

text \<open>One UPDATE of the loop: the row of the item's product moves by the quantity, the rest stays.\<close>

lemma reserve_one:
  assumes laws: "inventory_db_laws D" and wf: "inventory_wf D s"
    and row: "g_rows (nv_inventory D) s (iv_id row) = Some row"
    and q: "0 < sint q" "sint q < 2 ^ 31"
    and run: "g_updates (nv_inventory D) s (\<lambda>r. iv_id r = iv_id row) (reserve_update row q now) = (None, s1)"
  obtains row' where "g_rows (nv_inventory D) s1 = (g_rows (nv_inventory D) s)(iv_id row \<mapsto> row')"
    and "iv_id row' = iv_id row" and "iv_product_id row' = iv_product_id row"
    and "sint (iv_available row') = sint (iv_available row) - sint q"
    and "sint (iv_reserved row') = sint (iv_reserved row) + sint q"
    and "inventory_wf D s1"
proof -
  let ?T = "nv_inventory D"
  let ?f = "assign_row ?T (reserve_update row q now)"
  note cols = reserve_update_columns [OF laws]
  have key: "sc_key inventory_schema (reserve_update row q now r) = sc_key inventory_schema r" for r
    by (simp add: inventory_schema_def reserve_update_def)
  note upd = gorm_updates_None [OF inventory_gorm(1) [OF laws] run key]
  have rows: "g_rows ?T s1 = (g_rows ?T s)(iv_id row \<mapsto> ?f row)"
  proof (rule ext)
    fix k
    show "g_rows ?T s1 k = ((g_rows ?T s)(iv_id row \<mapsto> ?f row)) k"
    proof (cases "g_rows ?T s k")
      case None
      then show ?thesis using row by (auto simp: upd(2) update_rows_def)
    next
      case (Some r)
      have key: "iv_id r = k" by (rule inventory_key [OF laws Some])
      show ?thesis
      proof (cases "k = iv_id row")
        case True
        with Some row have "r = row" by simp
        with True Some show ?thesis by (simp add: upd(2) update_rows_def)
      next
        case False
        with Some key show ?thesis by (simp add: upd(2) update_rows_def)
      qed
    qed
  qed
  note b = inventory_check_bounds [OF wf row]
  have a: "sint (iv_available row - q) = sint (iv_available row) - sint q"
    by (rule sint_minus64) (use b q in simp_all)
  have r: "sint (iv_reserved row + q) = sint (iv_reserved row) + sint q"
    by (rule sint_plus64) (use b q in simp_all)
  have "row \<in> ran (g_rows ?T s)" using row by (auto simp: ran_def)
  with upd(1) have chk: "sc_check inventory_schema (?f row)" unfolding updatable_def by blast
  have "inventory_wf D s1"
    unfolding inventory_wf_def
  proof (intro conjI ballI impI)
    fix x assume "x \<in> ran (g_rows ?T s1)"
    then show "sc_check inventory_schema x"
      using wf chk unfolding rows inventory_wf_def by (auto simp: ran_def split: if_splits)
  next
    fix x y assume xy: "x \<in> ran (g_rows ?T s1)" "y \<in> ran (g_rows ?T s1)" "iv_product_id x = iv_product_id y"
    have orig: "\<exists>x0\<in>ran (g_rows ?T s). iv_product_id x0 = iv_product_id x \<and> x = (if iv_id x0 = iv_id row then ?f row else x0)"
      if x: "x \<in> ran (g_rows ?T s1)" for x
    proof -
      from x obtain k where k: "((g_rows ?T s)(iv_id row \<mapsto> ?f row)) k = Some x" unfolding rows ran_def by blast
      show ?thesis
      proof (cases "k = iv_id row")
        case True
        with k have "x = ?f row" by simp
        then show ?thesis using cols(2) [of row q now row] by (intro bexI [of _ row] ranI [of "g_rows ?T s" "iv_id row"]) (simp_all add: row)
      next
        case False
        with k have x': "g_rows ?T s k = Some x" by simp
        show ?thesis
          using inventory_key [OF laws x'] False by (intro bexI [of _ x] ranI [of "g_rows ?T s" k]) (simp_all add: x')
      qed
    qed
    obtain x0 where x0: "x0 \<in> ran (g_rows ?T s)" "iv_product_id x0 = iv_product_id x"
      "x = (if iv_id x0 = iv_id row then ?f row else x0)" using orig [OF xy(1)] by blast
    obtain y0 where y0: "y0 \<in> ran (g_rows ?T s)" "iv_product_id y0 = iv_product_id y"
      "y = (if iv_id y0 = iv_id row then ?f row else y0)" using orig [OF xy(2)] by blast
    have "x0 = y0" using wf x0(1,2) y0(1,2) xy(3) unfolding inventory_wf_def by simp
    then show "x = y" using x0(3) y0(3) by simp
  qed
  with rows cols a r show thesis using that [of "?f row"] by simp
qed

lemma reserveStock_stock:
  assumes laws: "inventory_db_laws D"
    and "reserveStock D new k now orderID items inventories s = (None, s')"
    and "inventory_wf D s" and "snapshot_ok D s items inventories"
    and "distinct (map rs_product_id items)"
    and "\<forall>it\<in>set items. 0 < sint (rs_quantity it) \<and> sint (rs_quantity it) < 2 ^ 31"
  shows "inventory_wf D s' \<and> stock_moved D s items s'"
  using assms(2-)
proof (induction items arbitrary: k s)
  case Nil
  then show ?case by (auto simp: stock_moved_def split: option.splits)
next
  case (Cons it items)
  let ?T = "nv_inventory D"
  from Cons.prems(3) obtain row where row: "inventories (rs_product_id it) = Some row"
    "g_rows ?T s (iv_id row) = Some row" "iv_product_id row = rs_product_id it"
    by (auto simp: snapshot_ok_def)
  obtain s1 s2 where u: "g_updates ?T s (\<lambda>r. iv_id r = iv_id row) (reserve_update row (rs_quantity it) now) = (None, s1)"
    and c: "g_create (nv_reservations D) s1 [new_reservation (new k) orderID it now] = (None, s2)"
    and rest: "reserveStock D new (Suc k) now orderID items inventories s2 = (None, s')"
    by (rule reserveStock_cons [OF Cons.prems(1) row(1)])
  from Cons.prems(5) have q: "0 < sint (rs_quantity it)" "sint (rs_quantity it) < 2 ^ 31" by simp_all
  obtain row' where s1: "g_rows ?T s1 = (g_rows ?T s)(iv_id row \<mapsto> row')"
    and row': "iv_id row' = iv_id row" "iv_product_id row' = iv_product_id row"
      "sint (iv_available row') = sint (iv_available row) - sint (rs_quantity it)"
      "sint (iv_reserved row') = sint (iv_reserved row) + sint (rs_quantity it)"
    and wf1: "inventory_wf D s1"
    by (rule reserve_one [OF laws Cons.prems(2) row(2) q u])
  have s2: "g_rows ?T s2 = g_rows ?T s1" by (rule gorm_frameD(3) [OF inventory_frames(4) [OF laws] c])
  have wf2: "inventory_wf D s2" using wf1 by (simp add: inventory_wf_def s2)
  have snap: "snapshot_ok D s2 items inventories"
    unfolding snapshot_ok_def
  proof
    fix it' assume it': "it' \<in> set items"
    with Cons.prems(3) obtain r where r: "inventories (rs_product_id it') = Some r"
      "g_rows ?T s (iv_id r) = Some r" "iv_product_id r = rs_product_id it'"
      by (auto simp: snapshot_ok_def)
    have "rs_product_id it \<notin> rs_product_id ` set items" using Cons.prems(4) by simp
    with it' have "rs_product_id it' \<noteq> rs_product_id it" by (metis imageI)
    then have "iv_id r \<noteq> iv_id row" using r(2,3) row(2,3) by (metis option.inject)
    then show "\<exists>r. inventories (rs_product_id it') = Some r \<and> g_rows ?T s2 (iv_id r) = Some r
        \<and> iv_product_id r = rs_product_id it'"
      using r by (intro exI [of _ r]) (simp add: s2 s1)
  qed
  have IH: "inventory_wf D s' \<and> stock_moved D s2 items s'"
    using Cons.prems(4,5) by (intro Cons.IH [OF rest wf2 snap]) simp_all
  have none: "demanded items (iv_product_id row) = 0"
    using Cons.prems(4) row(3) by (intro demanded_other) auto
  have other: "iv_product_id r \<noteq> rs_product_id it" if "g_rows ?T s k' = Some r" "k' \<noteq> iv_id row" for k' r
  proof
    assume "iv_product_id r = rs_product_id it"
    with that(1) row Cons.prems(2) have "r = row" unfolding inventory_wf_def by (metis ranI)
    with inventory_key [OF laws that(1)] that(2) show False by simp
  qed
  have "stock_moved D s (it # items) s'"
    unfolding stock_moved_def
  proof
    fix k'
    show "case g_rows ?T s k' of
        None \<Rightarrow> g_rows ?T s' k' = None
      | Some r \<Rightarrow> \<exists>r'. g_rows ?T s' k' = Some r' \<and> iv_id r' = iv_id r \<and> iv_product_id r' = iv_product_id r
          \<and> sint (iv_available r') = sint (iv_available r) - demanded (it # items) (iv_product_id r)
          \<and> sint (iv_reserved r') = sint (iv_reserved r) + demanded (it # items) (iv_product_id r)"
    proof (cases "k' = iv_id row")
      case True
      have "g_rows ?T s2 k' = Some row'" by (simp add: s2 s1 True)
      from stock_movedD [OF IH [THEN conjunct2] this] obtain r' where r': "g_rows ?T s' k' = Some r'"
        "iv_id r' = iv_id row'" "iv_product_id r' = iv_product_id row'"
        "sint (iv_available r') = sint (iv_available row') - demanded items (iv_product_id row')"
        "sint (iv_reserved r') = sint (iv_reserved row') + demanded items (iv_product_id row')" .
      have rowk: "g_rows ?T s k' = Some row" using row(2) True by simp
      show ?thesis
        unfolding rowk option.case
        by (intro exI [of _ r'] conjI) (simp_all add: r' row' none row(3) [symmetric])
    next
      case False
      then have same: "g_rows ?T s2 k' = g_rows ?T s k'" by (simp add: s2 s1)
      show ?thesis
      proof (cases "g_rows ?T s k'")
        case None
        then show ?thesis using stock_moved_None [OF IH [THEN conjunct2], of k'] same by simp
      next
        case (Some r)
        with same have "g_rows ?T s2 k' = Some r" by simp
        from stock_movedD [OF IH [THEN conjunct2] this] obtain r' where r': "g_rows ?T s' k' = Some r'"
          "iv_id r' = iv_id r" "iv_product_id r' = iv_product_id r"
          "sint (iv_available r') = sint (iv_available r) - demanded items (iv_product_id r)"
          "sint (iv_reserved r') = sint (iv_reserved r) + demanded items (iv_product_id r)" .
        show ?thesis
          unfolding Some option.case
          by (intro exI [of _ r'] conjI) (simp_all add: r' other [OF Some False, symmetric])
      qed
    qed
  qed
  with IH show ?case by blast
qed

end
