(* ===== verification/Inventory_Service.thy ===== *)
theory Inventory_Service
  imports Inventory_Repository
begin

text \<open>
  What the inventory's transaction does as a whole: the contract of
  \<open>port.InventoryRepository\<close>, and the proof that \<open>ReserveStockWithInboxAndOutbox\<close> keeps it. Every
  call either changes nothing, or reserves every item, or reserves none and says why; in the last
  two cases it leaves one event for the order service and marks the request as handled.
\<close>

section \<open>The contract\<close>

definition answered ::
  "'s inventory_db \<Rightarrow> 's \<Rightarrow> uuid \<Rightarrow> outbox_row \<Rightarrow> 's \<Rightarrow> bool" where
  "answered D s messageID message s' \<longleftrightarrow>
     messageID \<notin> inbox_ids (nv_inbox D) s
     \<and> inbox_ids (nv_inbox D) s' = insert messageID (inbox_ids (nv_inbox D) s)
     \<and> insertable outbox_schema (g_rows (nv_outbox D) s) (g_stored (nv_outbox D) message)
     \<and> g_rows (nv_outbox D) s' = (g_rows (nv_outbox D) s)(ob_id message \<mapsto> g_stored (nv_outbox D) message)"

definition stock_reserved ::
  "'s inventory_db \<Rightarrow> (nat \<Rightarrow> uuid) \<Rightarrow> time \<Rightarrow> 's \<Rightarrow> uuid \<Rightarrow> ReserveStockItem list \<Rightarrow> 's \<Rightarrow> bool" where
  "stock_reserved D new now s orderID items s' \<longleftrightarrow>
     distinct (map rs_product_id items)
     \<and> (\<forall>it\<in>set items. 0 < sint (rs_quantity it) \<and> sint (rs_quantity it) < 2 ^ 31 \<and> stocked D s it)
     \<and> stock_moved D s items s'
     \<and> insert_rows reservation_schema (g_rows (nv_reservations D) s)
         (map (g_stored (nv_reservations D)) (reservations_of new 0 now orderID items))
         = Some (g_rows (nv_reservations D) s')"

definition stock_untouched :: "'s inventory_db \<Rightarrow> 's \<Rightarrow> 's \<Rightarrow> bool" where
  "stock_untouched D s s' \<longleftrightarrow>
     g_rows (nv_inventory D) s' = g_rows (nv_inventory D) s
     \<and> g_rows (nv_reservations D) s' = g_rows (nv_reservations D) s"

lemma stock_moved_rows:
  assumes "g_rows (nv_inventory D) s' = g_rows (nv_inventory D) s1" and "stock_moved D s items s1"
  shows "stock_moved D s items s'"
  using assms(2) unfolding stock_moved_def assms(1) .

section \<open>The body of the transaction\<close>

lemma insertOutbox_None:
  assumes laws: "inventory_db_laws D" and new: "\<And>i. new i \<noteq> 0"
    and run: "insertOutbox D ustr new k now orderID t reason items s = (None, s')"
  shows "insertable outbox_schema (g_rows (nv_outbox D) s)
      (g_stored (nv_outbox D) (stock_event_message ustr new k now orderID t reason items))"
    and "g_rows (nv_outbox D) s' = (g_rows (nv_outbox D) s)(new (Suc k) \<mapsto>
      g_stored (nv_outbox D) (stock_event_message ustr new k now orderID t reason items))"
    and "stock_untouched D s s'" and "g_rows (nv_inbox D) s' = g_rows (nv_inbox D) s"
proof -
  let ?m = "stock_event_message ustr new k now orderID t reason items"
  note run = run [unfolded insertOutbox_def]
  have key: "sc_key outbox_schema ?m = new (Suc k)"
    by (simp add: outbox_schema_def stock_event_message_def)
  with new have nz: "sc_key outbox_schema ?m \<noteq> 0" by simp
  note ins = gorm_create_one_None [OF inventory_gorm(3) [OF laws] run nz]
  show "insertable outbox_schema (g_rows (nv_outbox D) s) (g_stored (nv_outbox D) ?m)"
    and "g_rows (nv_outbox D) s' = (g_rows (nv_outbox D) s)(new (Suc k) \<mapsto> g_stored (nv_outbox D) ?m)"
    using ins gorm_stored_key [OF inventory_gorm(3) [OF laws], of ?m] key by simp_all
  note fr = inventory_frames [OF laws]
  show "stock_untouched D s s'" and "g_rows (nv_inbox D) s' = g_rows (nv_inbox D) s"
    using gorm_frameD(3) [OF fr(7) run] gorm_frameD(3) [OF fr(8) run] gorm_frameD(3) [OF fr(9) run]
    by (simp_all add: stock_untouched_def)
qed

lemma insertInbox_None:
  assumes laws: "inventory_db_laws D" and new: "new \<noteq> 0"
    and run: "insertInbox D new now m t payload s = (None, s')"
  shows "m \<notin> inbox_ids (nv_inbox D) s" "inbox_ids (nv_inbox D) s' = insert m (inbox_ids (nv_inbox D) s)"
    "stock_untouched D s s'" "g_rows (nv_outbox D) s' = g_rows (nv_outbox D) s"
proof -
  note run = run [unfolded insertInbox_def]
  from inventory_gorm(4) [OF laws] new run
  show "m \<notin> inbox_ids (nv_inbox D) s" "inbox_ids (nv_inbox D) s' = insert m (inbox_ids (nv_inbox D) s)"
    by (cases rule: inbox_insert_cases; simp)+
  note fr = inventory_frames [OF laws] and run = run [unfolded inbox_insert_def]
  show "stock_untouched D s s'" "g_rows (nv_outbox D) s' = g_rows (nv_outbox D) s"
    using gorm_frameD(3) [OF fr(10) run] gorm_frameD(3) [OF fr(11) run] gorm_frameD(3) [OF fr(12) run]
    by (simp_all add: stock_untouched_def)
qed

text \<open>The two inserts that end the transaction in both outcomes.\<close>

lemma answer_None:
  assumes laws: "inventory_db_laws D" and new: "\<And>i. new i \<noteq> 0"
    and run: "seq (insertOutbox D ustr new k now orderID t reason items)
      (insertInbox D (new j) now' m t' payload) s = (None, s')"
  shows "answered D s m (stock_event_message ustr new k now orderID t reason items) s'"
    and "stock_untouched D s s'"
proof -
  from run obtain s1 where o1: "insertOutbox D ustr new k now orderID t reason items s = (None, s1)"
    and i1: "insertInbox D (new j) now' m t' payload s1 = (None, s')" by (auto simp: seq_None_iff)
  note a = insertOutbox_None [OF laws new o1] and b = insertInbox_None [OF laws new i1]
  have "inbox_ids (nv_inbox D) s1 = inbox_ids (nv_inbox D) s" using a(4) by (simp add: inbox_ids_def)
  then show "answered D s m (stock_event_message ustr new k now orderID t reason items) s'"
    using a(1,2) b by (simp add: answered_def stock_event_message_def)
  show "stock_untouched D s s'" using a(3) b(3) by (simp add: stock_untouched_def)
qed

text \<open>The writes of a successful reservation, from a snapshot of the rows they rely on.\<close>

lemma reserve_success:
  assumes laws: "inventory_db_laws D" and new: "\<And>i. new i \<noteq> 0" and wf: "inventory_wf D s"
    and snap: "snapshot_ok D s items inventories" and stock: "\<forall>it\<in>set items. stocked D s it"
    and run: "seq (reserveStock D new 0 t0 orderID items inventories)
      (seq (insertOutbox D ustr new (length items) t1 orderID ''StockReserved'' '''' items)
        (insertInbox D (new (length items + 2)) t2 m ''ReserveStockRequested'' payload)) s = (None, s')"
  shows "stock_reserved D new t0 s orderID items s'" and "inventory_wf D s'"
    and "answered D s m (stock_event_message ustr new (length items) t1 orderID ''StockReserved'' '''' items) s'"
proof -
  from run obtain s1 where r1: "reserveStock D new 0 t0 orderID items inventories s = (None, s1)"
    and rest: "seq (insertOutbox D ustr new (length items) t1 orderID ''StockReserved'' '''' items)
        (insertInbox D (new (length items + 2)) t2 m ''ReserveStockRequested'' payload) s1 = (None, s')"
    by (auto simp: seq_None_iff)
  note dist = reserveStock_distinct [OF laws new r1]
  note rows = reserveStock_reservations [OF laws new r1]
  note moved = reserveStock_stock [OF laws r1 wf snap dist]
  note ans = answer_None [OF laws new rest]
  show "stock_reserved D new t0 s orderID items s'" and "inventory_wf D s'"
    using stock dist rows moved ans(2) stock_moved_rows [of D s' s1]
    by (auto simp: stock_reserved_def stock_untouched_def inventory_wf_def)
  show "answered D s m (stock_event_message ustr new (length items) t1 orderID ''StockReserved'' '''' items) s'"
    using ans(1) rows by (simp add: answered_def inbox_ids_def)
qed

lemma reserve_body_None [consumes 4, case_names duplicate reserved rejected]:
  assumes laws: "inventory_db_laws D" and new: "\<And>i. new i \<noteq> 0" and wf: "inventory_wf D s"
    and run: "reserve_body D ustr new clock m orderID items payload s = (None, s')"
  obtains "m \<in> inbox_ids (nv_inbox D) s" "s' = s"
  | "stock_reserved D new (clock 0) s orderID items s'" "inventory_wf D s'"
      "answered D s m (stock_event_message ustr new (length items) (clock 1) orderID ''StockReserved'' '''' items) s'"
  | it reason where "it \<in> set items" "\<not> stocked D s it" "stock_untouched D s s'"
      "reason = ''inventory not found for product '' @ ustr (rs_product_id it)
       \<or> reason = ''insufficient stock for product '' @ ustr (rs_product_id it)"
      "answered D s m (stock_event_message ustr new 0 (clock 0) orderID ''StockReservationFailed'' reason items) s'"
proof -
  from run obtain b where b: "isMessageProcessed D s m = Inr b"
    by (auto simp: reserve_body_def split: sum.splits)
  have seen: "b \<longleftrightarrow> m \<in> inbox_ids (nv_inbox D) s"
    using inbox_has_iff [OF inventory_gorm(4) [OF laws] b [unfolded isMessageProcessed_def]] .
  show thesis
  proof (cases b)
    case True
    with run b seen that(1) show thesis by (simp add: reserve_body_def)
  next
    case False
    from run b False obtain success reason inventories
      where chk: "checkAndLockStock D ustr s items Map.empty = Inr (success, reason, inventories)"
      by (auto simp: reserve_body_def split: sum.splits)
    show thesis
    proof (cases success)
      case True
      with run b False chk obtain s1
        where r1: "reserveStock D new 0 (clock 0) orderID items inventories s = (None, s1)"
          and rest: "seq (insertOutbox D ustr new (length items) (clock 1) orderID ''StockReserved'' '''' items)
            (insertInbox D (new (length items + 2)) (clock 2) m ''ReserveStockRequested'' payload) s1 = (None, s')"
        by (auto simp: reserve_body_def Let_def seq_None_iff)
      have chk: "checkAndLockStock D ustr s items Map.empty = Inr (True, reason, inventories)"
        using chk True by simp
      note ok = check_success [OF laws chk]
      have "seq (reserveStock D new 0 (clock 0) orderID items inventories)
          (seq (insertOutbox D ustr new (length items) (clock 1) orderID ''StockReserved'' '''' items)
            (insertInbox D (new (length items + 2)) (clock 2) m ''ReserveStockRequested'' payload)) s = (None, s')"
        using r1 rest by (simp add: seq_None_iff)
      from reserve_success [OF laws new wf _ _ this] ok show thesis using that(2) by blast
    next
      case fail: False
      from run b False chk fail
      have rest: "seq (insertOutbox D ustr new 0 (clock 0) orderID ''StockReservationFailed'' reason items)
          (insertInbox D (new 2) (clock 1) m ''ReserveStockRequested'' payload) s = (None, s')"
        by (simp add: reserve_body_def)
      have chk: "checkAndLockStock D ustr s items Map.empty = Inr (False, reason, inventories)"
        using chk fail by simp
      from check_failure [OF laws wf chk] answer_None [OF laws new rest] that(3) show thesis by blast
    qed
  qed
qed

section \<open>The transaction\<close>

lemma stock_reserved_same:
  assumes "stock_reserved D new now s orderID items s1" and "same_inventory_rows D s1 s'"
  shows "stock_reserved D new now s orderID items s'"
  using assms stock_moved_rows [of D s' s1]
  by (auto simp: stock_reserved_def same_inventory_rows_def)

lemma answered_same:
  assumes "answered D s m message s1" and "same_inventory_rows D s1 s'"
  shows "answered D s m message s'"
  using assms by (simp add: answered_def same_inventory_rows_def inbox_ids_def)

lemma inventory_wf_same: "inventory_wf D s \<Longrightarrow> same_inventory_rows D s s' \<Longrightarrow> inventory_wf D s'"
  by (simp add: inventory_wf_def same_inventory_rows_def)

lemma stock_untouched_same: "stock_untouched D s s1 \<Longrightarrow> same_inventory_rows D s1 s' \<Longrightarrow> stock_untouched D s s'"
  by (simp add: stock_untouched_def same_inventory_rows_def)

lemma ReserveStock_cases [consumes 4, case_names unchanged reserved rejected]:
  assumes laws: "inventory_db_laws D" and new: "\<And>i. new i \<noteq> 0" and wf: "inventory_wf D s"
    and run: "ReserveStockWithInboxAndOutbox D ustr new clock m orderID items payload s = (e, s')"
  obtains "same_inventory_rows D s s'" "e \<noteq> None \<or> m \<in> inbox_ids (nv_inbox D) s"
  | "stock_reserved D new (clock 0) s orderID items s'" "inventory_wf D s'"
      "answered D s m (stock_event_message ustr new (length items) (clock 1) orderID ''StockReserved'' '''' items) s'"
  | it reason where "it \<in> set items" "\<not> stocked D s it" "stock_untouched D s s'"
      "reason = ''inventory not found for product '' @ ustr (rs_product_id it)
       \<or> reason = ''insufficient stock for product '' @ ustr (rs_product_id it)"
      "answered D s m (stock_event_message ustr new 0 (clock 0) orderID ''StockReservationFailed'' reason items) s'"
proof -
  note result = that
  have "tx_laws (same_inventory_rows D) (nv_tx D)" using laws by (simp add: inventory_db_laws_def)
  then show thesis
    using run [unfolded ReserveStockWithInboxAndOutbox_def]
  proof (cases rule: tx_cases)
    case (committed s1)
    show thesis
      using laws new wf committed(1)
    proof (cases rule: reserve_body_None)
      case duplicate
      then show thesis using committed(2) result(1) by simp
    next
      case reserved
      show thesis
        by (rule result(2) [OF stock_reserved_same [OF reserved(1) committed(2)]
            inventory_wf_same [OF reserved(2) committed(2)] answered_same [OF reserved(3) committed(2)]])
    next
      case (rejected it reason)
      show thesis
        by (rule result(3) [OF rejected(1,2) stock_untouched_same [OF rejected(3) committed(2)]
            rejected(4) answered_same [OF rejected(5) committed(2)]])
    qed
  next
    case rolled_back
    then show thesis using result(1) by blast
  qed
qed

text \<open>The well-formedness of the stock is an invariant of the operation.\<close>

lemma ReserveStock_wf:
  assumes "inventory_db_laws D" and "\<And>i. new i \<noteq> 0" and "inventory_wf D s"
    and "ReserveStockWithInboxAndOutbox D ustr new clock m orderID items payload s = (e, s')"
  shows "inventory_wf D s'"
  using assms
proof (cases rule: ReserveStock_cases)
  case unchanged
  show ?thesis by (rule inventory_wf_same [OF assms(3) unchanged(1)])
next
  case reserved
  then show ?thesis by simp
next
  case (rejected it reason)
  then show ?thesis using assms(3) by (simp add: stock_untouched_def inventory_wf_def)
qed

text \<open>What is available plus what is reserved of a product stays the same.\<close>

lemma ReserveStock_row:
  assumes "inventory_db_laws D" and "\<And>i. new i \<noteq> 0" and "inventory_wf D s"
    and "ReserveStockWithInboxAndOutbox D ustr new clock m orderID items payload s = (e, s')"
    and "g_rows (nv_inventory D) s k = Some r"
  shows "\<exists>r'. g_rows (nv_inventory D) s' k = Some r' \<and> iv_product_id r' = iv_product_id r
    \<and> sint (iv_available r') + sint (iv_reserved r') = sint (iv_available r) + sint (iv_reserved r)
    \<and> 0 \<le> sint (iv_available r') \<and> 0 \<le> sint (iv_reserved r')"
proof -
  note new = assms(2)
  have "inventory_wf D s'" by (rule ReserveStock_wf [OF assms(1) new assms(3,4)])
  note bounds = inventory_check_bounds(1,3) [OF this]
  from assms(1) new assms(3,4) show ?thesis
  proof (cases rule: ReserveStock_cases)
    case unchanged
    then have "g_rows (nv_inventory D) s' k = Some r" using assms(5) by (simp add: same_inventory_rows_def)
    then show ?thesis using bounds by auto
  next
    case reserved
    then have "stock_moved D s items s'" by (simp add: stock_reserved_def)
    from stock_movedD [OF this assms(5)] obtain r' where r': "g_rows (nv_inventory D) s' k = Some r'"
      "iv_product_id r' = iv_product_id r"
      "sint (iv_available r') = sint (iv_available r) - demanded items (iv_product_id r)"
      "sint (iv_reserved r') = sint (iv_reserved r) + demanded items (iv_product_id r)" .
    then show ?thesis using bounds [OF r'(1)] by (intro exI [of _ r']) linarith
  next
    case (rejected it reason)
    then have "g_rows (nv_inventory D) s' k = Some r" using assms(5) by (simp add: stock_untouched_def)
    then show ?thesis using bounds by auto
  qed
qed

section \<open>The ledger\<close>

text \<open>The reserved quantity of a product is the sum of its reservations.\<close>

definition reserved_for :: "uuid \<Rightarrow> reservation_row \<Rightarrow> int" where
  "reserved_for p r = (if rv_product_id r = p then sint (rv_quantity r) else 0)"

definition row_sum :: "('r \<Rightarrow> int) \<Rightarrow> (uuid \<rightharpoonup> 'r) \<Rightarrow> int" where
  "row_sum f m = (\<Sum>k\<in>dom m. f (the (m k)))"

definition ledger :: "'s inventory_db \<Rightarrow> 's \<Rightarrow> bool" where
  "ledger D s \<longleftrightarrow>
     finite (dom (g_rows (nv_reservations D) s)) \<and>
     (\<forall>r\<in>ran (g_rows (nv_inventory D) s).
        sint (iv_reserved r) = row_sum (reserved_for (iv_product_id r)) (g_rows (nv_reservations D) s))"

lemma row_sum_insert:
  assumes "finite (dom m)" and "m k = None"
  shows "row_sum f (m(k \<mapsto> r)) = row_sum f m + f r"
proof -
  have k: "k \<notin> dom m" using assms(2) by (simp add: domIff)
  have "(\<Sum>x\<in>dom m. f (the ((m(k \<mapsto> r)) x))) = (\<Sum>x\<in>dom m. f (the (m x)))"
    using k by (intro sum.cong) auto
  then show ?thesis using k assms(1) by (simp add: row_sum_def)
qed

lemma row_sum_insert_rows:
  "insert_rows sch m rs = Some m' \<Longrightarrow> finite (dom m) \<Longrightarrow>
     finite (dom m') \<and> row_sum f m' = row_sum f m + sum_list (map f rs)"
proof (induction rs arbitrary: m)
  case Nil
  then show ?case by simp
next
  case (Cons r rs)
  then have ins: "insertable sch m r" and rest: "insert_rows sch (m(sc_key sch r \<mapsto> r)) rs = Some m'"
    by (auto split: if_splits)
  have fin: "finite (dom (m(sc_key sch r \<mapsto> r)))" using Cons.prems(2) by simp
  have "finite (dom m') \<and> row_sum f m' = row_sum f (m(sc_key sch r \<mapsto> r)) + sum_list (map f rs)"
    by (rule Cons.IH [OF rest fin])
  moreover have "row_sum f (m(sc_key sch r \<mapsto> r)) = row_sum f m + f r"
    using ins Cons.prems(2) by (intro row_sum_insert) (simp_all add: insertable_def)
  ultimately show ?case by simp
qed

lemma reservations_demanded:
  assumes "inventory_db_laws D"
  shows "sum_list (map (reserved_for p) (map (g_stored (nv_reservations D))
      (reservations_of new k now orderID items))) = demanded items p"
  by (induction items arbitrary: k)
    (simp_all add: reserved_for_def new_reservation_def reservations_stored [OF assms])

lemma ledger_reserved:
  assumes laws: "inventory_db_laws D" and led: "ledger D s"
    and res: "stock_reserved D new now s orderID items s'"
  shows "ledger D s'"
proof -
  let ?m = "g_rows (nv_reservations D) s" and ?m' = "g_rows (nv_reservations D) s'"
  have fin: "finite (dom ?m)" using led by (simp add: ledger_def)
  from res have ins: "insert_rows reservation_schema ?m (map (g_stored (nv_reservations D))
      (reservations_of new 0 now orderID items)) = Some ?m'" and moved: "stock_moved D s items s'"
    by (simp_all add: stock_reserved_def)
  have total: "finite (dom ?m') \<and> row_sum (reserved_for p) ?m' = row_sum (reserved_for p) ?m + demanded items p" for p
    using row_sum_insert_rows [OF ins fin, of "reserved_for p"]
    unfolding reservations_demanded [OF laws] .
  have "sint (iv_reserved r') = row_sum (reserved_for (iv_product_id r')) ?m'"
    if "r' \<in> ran (g_rows (nv_inventory D) s')" for r'
  proof -
    from that obtain k where k: "g_rows (nv_inventory D) s' k = Some r'" by (auto simp: ran_def)
    with stock_moved_None [OF moved, of k] obtain r where r: "g_rows (nv_inventory D) s k = Some r" by auto
    from stock_movedD [OF moved r] k have "iv_product_id r' = iv_product_id r"
      "sint (iv_reserved r') = sint (iv_reserved r) + demanded items (iv_product_id r)" by auto
    moreover have "sint (iv_reserved r) = row_sum (reserved_for (iv_product_id r)) ?m"
      using led r by (auto simp: ledger_def ran_def)
    ultimately show ?thesis using total by simp
  qed
  then show ?thesis using total by (simp add: ledger_def)
qed

lemma ReserveStock_ledger:
  assumes "inventory_db_laws D" and "\<And>i. new i \<noteq> 0" and "inventory_wf D s" and "ledger D s"
    and "ReserveStockWithInboxAndOutbox D ustr new clock m orderID items payload s = (e, s')"
  shows "ledger D s'"
  using assms(1,2,3,5)
proof (cases rule: ReserveStock_cases)
  case unchanged
  then show ?thesis using assms(4) by (simp add: same_inventory_rows_def ledger_def)
next
  case reserved
  show ?thesis by (rule ledger_reserved [OF assms(1,4) reserved(1)])
next
  case (rejected it reason)
  then show ?thesis using assms(4) by (simp add: stock_untouched_def ledger_def)
qed

end
