(* ===== verification/Inventory_Consumer.thy ===== *)
theory Inventory_Consumer
  imports Inventory_Service Consumers
begin

text \<open>
  The inventory service's consumer (\<open>reserve_stock_requested_consumer.go\<close>). It decodes a request,
  hands it to the service (the port \<open>port.InventoryService\<close>, a locale here), and settles the
  delivery: it drops a malformed request, puts one back that failed, and acknowledges the rest.
\<close>

section \<open>The request\<close>

record ReserveStockRequestedEvent =
  rq_message_id :: string
  rq_order_id :: string
  rq_items :: "stock_item list \<times> stock_item list"

definition ReserveStockRequestedEvent_fields :: "string \<Rightarrow> ReserveStockRequestedEvent dec option" where
  "ReserveStockRequestedEvent_fields k =
     (if k = ''message_id'' then Some (dec_field rq_message_id (\<lambda>x. rq_message_id_update (\<lambda>_. x)) dec_string)
      else if k = ''order_id'' then Some (dec_field rq_order_id (\<lambda>x. rq_order_id_update (\<lambda>_. x)) dec_string)
      else if k = ''items'' then Some (dec_field rq_items (\<lambda>x. rq_items_update (\<lambda>_. x)) dec_stock_items)
      else None)"

definition decode_request :: "body \<Rightarrow> ReserveStockRequestedEvent option" where
  "decode_request =
     unmarshal ReserveStockRequestedEvent_fields
       \<lparr>rq_message_id = [], rq_order_id = [], rq_items = ([], [])\<rparr>"

fun parse_items :: "(string \<Rightarrow> uuid option) \<Rightarrow> stock_item list \<Rightarrow> ReserveStockItem list option" where
  "parse_items parse [] = Some []"
| "parse_items parse (eventItem # items) =
     (case parse (si_product_id eventItem) of
        None \<Rightarrow> None
      | Some productID \<Rightarrow>
          map_option (Cons \<lparr>rs_product_id = productID, rs_quantity = si_quantity eventItem\<rparr>)
            (parse_items parse items))"

text \<open>The identifiers and items of a well-formed request.\<close>

definition request_of ::
  "(string \<Rightarrow> uuid option) \<Rightarrow> body \<Rightarrow> (uuid \<times> uuid \<times> ReserveStockItem list) option" where
  "request_of parse b =
     (case decode_request b of
        None \<Rightarrow> None
      | Some event \<Rightarrow>
          (case parse_items parse (snd (rq_items event)) of
             None \<Rightarrow> None
           | Some eventItems \<Rightarrow>
               (case parse (rq_message_id event) of
                  None \<Rightarrow> None
                | Some messageID \<Rightarrow>
                    (case parse (rq_order_id event) of
                       None \<Rightarrow> None
                     | Some orderID \<Rightarrow> Some (messageID, orderID, eventItems)))))"

section \<open>Handling one delivery\<close>

definition reserveStock_handleMessage ::
  "amqp \<Rightarrow> (string \<Rightarrow> uuid option)
   \<Rightarrow> ('e \<Rightarrow> uuid \<Rightarrow> uuid \<Rightarrow> ReserveStockItem list \<Rightarrow> body \<Rightarrow> 's act)
   \<Rightarrow> 'e \<Rightarrow> delivery \<Rightarrow> 's \<times> chan \<Rightarrow> 's \<times> chan" where
  "reserveStock_handleMessage B parse handle env d sh =
     (case sh of (s, h) \<Rightarrow>
        case request_of parse (p_body d) of
          None \<Rightarrow> (s, snd (call B (NackCall (d_tag d) False False) h))
        | Some (messageID, orderID, items) \<Rightarrow>
            (case handle env messageID orderID items (p_body d) s of
               (Some e, s') \<Rightarrow> (s', snd (call B (NackCall (d_tag d) False True) h))
             | (None, s') \<Rightarrow> (s', snd (call B (AckCall (d_tag d) False) h))))"

text \<open>The service with its database; the environment gives the UUIDs and times of a transaction.\<close>

type_synonym inventory_env = "(nat \<Rightarrow> uuid) \<times> (nat \<Rightarrow> time)"

definition inventory_handle ::
  "'s inventory_db \<Rightarrow> (uuid \<Rightarrow> string) \<Rightarrow> inventory_env
   \<Rightarrow> uuid \<Rightarrow> uuid \<Rightarrow> ReserveStockItem list \<Rightarrow> body \<Rightarrow> 's act" where
  "inventory_handle D ustr env =
     HandleReserveStockRequested (ReserveStockWithInboxAndOutbox D ustr (fst env) (snd env))"

definition inventory_handleMessage ::
  "'s inventory_db \<Rightarrow> amqp \<Rightarrow> (string \<Rightarrow> uuid option) \<Rightarrow> (uuid \<Rightarrow> string)
   \<Rightarrow> inventory_env \<Rightarrow> delivery \<Rightarrow> 's \<times> chan \<Rightarrow> 's \<times> chan" where
  "inventory_handleMessage D B parse ustr = reserveStock_handleMessage B parse (inventory_handle D ustr)"

definition inventory_Start ::
  "'s inventory_db \<Rightarrow> amqp \<Rightarrow> (string \<Rightarrow> uuid option) \<Rightarrow> (uuid \<Rightarrow> string) \<Rightarrow> string \<Rightarrow> string
   \<Rightarrow> inventory_env consumer_event list \<Rightarrow> 's \<times> chan \<Rightarrow> err option option \<times> 's \<times> chan" where
  "inventory_Start D B parse ustr exchange queueName =
     consumer_Start deliveries_closed (plain_consumer_setup B exchange queueName ''order.created'')
       (inventory_handleMessage D B parse ustr)"

section \<open>The interface of the service\<close>

locale reserve_service =
  fixes invar :: "'s \<Rightarrow> bool"
    and handled :: "'s \<Rightarrow> uuid set"
    and observe :: "'s \<Rightarrow> 'o"
    and env_ok :: "'e \<Rightarrow> bool"
    and handle :: "'e \<Rightarrow> uuid \<Rightarrow> uuid \<Rightarrow> ReserveStockItem list \<Rightarrow> body \<Rightarrow> 's act"
  assumes handle_invar: "invar s \<Longrightarrow> env_ok env \<Longrightarrow> handle env m i its b s = (e, s') \<Longrightarrow> invar s'"
    and handle_done: "invar s \<Longrightarrow> env_ok env \<Longrightarrow> handle env m i its b s = (None, s') \<Longrightarrow> m \<in> handled s'"
    and handle_handled: "invar s \<Longrightarrow> env_ok env \<Longrightarrow> handle env m i its b s = (e, s') \<Longrightarrow>
      handled s \<subseteq> handled s'"
    and handle_once: "invar s \<Longrightarrow> env_ok env \<Longrightarrow> handle env m i its b s = (e, s') \<Longrightarrow>
      m \<in> handled s \<Longrightarrow> observe s' = observe s"
begin

lemma message_cases [consumes 1, case_names malformed failed handled]:
  assumes "reserveStock_handleMessage B parse handle env d (s, h) = (s', h')"
  obtains "request_of parse (p_body d) = None" "s' = s" "h' = h @ [NackCall (d_tag d) False False]"
  | m i its e where "request_of parse (p_body d) = Some (m, i, its)"
      "handle env m i its (p_body d) s = (Some e, s')" "h' = h @ [NackCall (d_tag d) False True]"
  | m i its where "request_of parse (p_body d) = Some (m, i, its)"
      "handle env m i its (p_body d) s = (None, s')" "h' = h @ [AckCall (d_tag d) False]"
  using assms by (auto simp: reserveStock_handleMessage_def split: option.splits prod.splits)

theorem message_keeps:
  assumes "invar s" and "env_ok env" and "reserveStock_handleMessage B parse handle env d (s, h) = (s', h')"
  shows "invar s' \<and> handled s \<subseteq> handled s'"
  using assms(3)
  by (cases rule: message_cases) (use assms(1,2) handle_invar handle_handled in auto)

text \<open>An acknowledged request has been handled, and handling it again changes nothing.\<close>

theorem acked_handled:
  assumes "invar s" and "env_ok env" and "reserveStock_handleMessage B parse handle env d (s, h) = (s', h')"
    and "h' = h @ [AckCall (d_tag d) False]"
  obtains m i its where "request_of parse (p_body d) = Some (m, i, its)" and "m \<in> handled s'"
  using assms(3)
proof (cases rule: message_cases)
  case (handled m i its)
  then show ?thesis using that handle_done [OF assms(1,2)] by blast
qed (use assms(4) in auto)

theorem redelivery_harmless:
  assumes "invar s" and "env_ok env" and "reserveStock_handleMessage B parse handle env d (s, h) = (s', h')"
    and "request_of parse (p_body d) = Some (m, i, its)" and "m \<in> handled s"
  shows "observe s' = observe s"
  using assms(3)
  by (cases rule: message_cases) (use assms(1,2,4,5) handle_once in auto)

end

definition inventory_tables ::
  "'s inventory_db \<Rightarrow> 's \<Rightarrow> (uuid \<rightharpoonup> inventory_row) \<times> (uuid \<rightharpoonup> reservation_row) \<times> (uuid \<rightharpoonup> outbox_row) \<times> (uuid \<rightharpoonup> inbox_row)" where
  "inventory_tables D s =
     (g_rows (nv_inventory D) s, g_rows (nv_reservations D) s, g_rows (nv_outbox D) s, g_rows (nv_inbox D) s)"

lemma same_tables: "same_inventory_rows D s s' \<Longrightarrow> inventory_tables D s' = inventory_tables D s"
  by (simp add: same_inventory_rows_def inventory_tables_def)

lemma inventory_handle_run:
  "inventory_handle D ustr env m i its b s = ReserveStockWithInboxAndOutbox D ustr (fst env) (snd env) m i its b s"
  by (simp add: inventory_handle_def HandleReserveStockRequested_def)

interpretation inventory: reserve_service "\<lambda>s. inventory_db_laws D \<and> inventory_wf D s"
    "\<lambda>s. inbox_ids (nv_inbox D) s" "inventory_tables D" "\<lambda>env. \<forall>i. fst env i \<noteq> 0" "inventory_handle D ustr"
  for D :: "'s inventory_db" and ustr
proof
  fix s s' :: 's and env m i its b e
  assume pre: "inventory_db_laws D \<and> inventory_wf D s" "\<forall>i. fst env i \<noteq> 0"
    and run: "inventory_handle D ustr env m i its b s = (e, s')"
  have new: "fst env i \<noteq> 0" for i using pre(2) by blast
  have res: "ReserveStockWithInboxAndOutbox D ustr (fst env) (snd env) m i its b s = (e, s')"
    using run by (simp add: inventory_handle_run)
  note laws = pre(1) [THEN conjunct1] and wf = pre(1) [THEN conjunct2]
  show "inventory_db_laws D \<and> inventory_wf D s'"
    using ReserveStock_wf [OF laws new wf res] laws by blast
  show "inbox_ids (nv_inbox D) s \<subseteq> inbox_ids (nv_inbox D) s'"
    using laws new wf res
    by (cases rule: ReserveStock_cases) (auto simp: same_inventory_rows_def inbox_ids_def answered_def)
  show "inventory_tables D s' = inventory_tables D s" if "m \<in> inbox_ids (nv_inbox D) s"
    using laws new wf res
    by (cases rule: ReserveStock_cases) (use that same_tables in \<open>auto simp: answered_def\<close>)
next
  fix s s' :: 's and env m i its b
  assume pre: "inventory_db_laws D \<and> inventory_wf D s" "\<forall>i. fst env i \<noteq> 0"
    and run: "inventory_handle D ustr env m i its b s = (None, s')"
  have new: "fst env i \<noteq> 0" for i using pre(2) by blast
  have res: "ReserveStockWithInboxAndOutbox D ustr (fst env) (snd env) m i its b s = (None, s')"
    using run by (simp add: inventory_handle_run)
  show "m \<in> inbox_ids (nv_inbox D) s'"
    using pre(1) [THEN conjunct1] new pre(1) [THEN conjunct2] res
    by (cases rule: ReserveStock_cases) (auto simp: same_inventory_rows_def inbox_ids_def answered_def)
qed

section \<open>A run of the consumer\<close>

definition events_ok :: "inventory_env consumer_event list \<Rightarrow> bool" where
  "events_ok es \<longleftrightarrow> (\<forall>x\<in>set es. case x of Deliver d env \<Rightarrow> \<forall>i. fst env i \<noteq> 0 | _ \<Rightarrow> True)"

lemma events_ok_simps [simp]:
  "events_ok []"
  "events_ok (x # es) \<longleftrightarrow> (case x of Deliver d env \<Rightarrow> \<forall>i. fst env i \<noteq> 0 | _ \<Rightarrow> True) \<and> events_ok es"
  by (simp_all add: events_ok_def)

text \<open>What every transaction keeps, a run of the consumer keeps.\<close>

lemma inventory_loop_keeps:
  assumes step: "\<And>env m i its b s e s'. P s \<Longrightarrow> \<forall>i. fst env i \<noteq> 0 \<Longrightarrow>
      ReserveStockWithInboxAndOutbox D ustr (fst env) (snd env) m i its b s = (e, s') \<Longrightarrow> P s'"
    and "P s" and "events_ok es"
    and "consumer_loop deliveries_closed (inventory_handleMessage D B parse ustr) es (s, h) = (res, s', h')"
  shows "P s'"
  using assms(2-)
proof (induction es arbitrary: s h)
  case Nil
  then show ?case by simp
next
  case (Cons x es)
  show ?case
  proof (cases x)
    case (Deliver d env)
    obtain s1 h1 where one: "inventory_handleMessage D B parse ustr env d (s, h) = (s1, h1)" by fastforce
    have env: "\<forall>i. fst env i \<noteq> 0" using Cons.prems(2) Deliver by simp
    from one have "P s1"
      unfolding inventory_handleMessage_def
    proof (cases rule: inventory.message_cases)
      case malformed
      then show ?thesis using Cons.prems(1) by simp
    next
      case (failed m i its e)
      then show ?thesis using step [OF Cons.prems(1) env] by (simp add: inventory_handle_run)
    next
      case (handled m i its)
      then show ?thesis using step [OF Cons.prems(1) env] by (simp add: inventory_handle_run)
    qed
    moreover have "consumer_loop deliveries_closed (inventory_handleMessage D B parse ustr) es (s1, h1) = (res, s', h')"
      using Cons.prems(3) Deliver one by simp
    ultimately show ?thesis using Cons.IH Cons.prems(2) by simp
  qed (use Cons.prems in auto)
qed

end
