(* ===== verification/Json_Same.thy ===== *)
theory Json_Same
  imports Go_Json "HOL-Library.Multiset"
begin

text \<open>
  Documents that hold the same value, as a JSONB column returns them: what a decoder sees of a
  document whose members may have been reordered.
\<close>

section \<open>Documents of the same value\<close>

lemma jnorm_JStr [simp]: "jnorm j = JStr s \<longleftrightarrow> j = JStr s"
  by (cases j) auto

lemma jnorm_JNum [simp]: "jnorm j = JNum n x \<longleftrightarrow> (\<exists>y. j = JNum n y \<and> pos_zero y = x)"
  by (cases j) auto

lemma jnorm_JArr: "jnorm j = JArr js \<longleftrightarrow> (\<exists>is. j = JArr is \<and> map jnorm is = js)"
  by (cases j) auto

lemma jnorm_JObj:
  assumes "jnorm j = jnorm (JObj kvs)"
  obtains kvs' where "j = JObj kvs'"
    and "mset (map (\<lambda>(k, v). (k, jnorm v)) kvs') = mset (map (\<lambda>(k, v). (k, jnorm v)) kvs)"
proof -
  from assms obtain kvs' where j: "j = JObj kvs'" by (cases j) auto
  with assms have "sort_key fst (map (\<lambda>(k, v). (k, jnorm v)) kvs') = sort_key fst (map (\<lambda>(k, v). (k, jnorm v)) kvs)"
    by simp
  then have "mset (sort_key fst (map (\<lambda>(k, v). (k, jnorm v)) kvs'))
      = mset (sort_key fst (map (\<lambda>(k, v). (k, jnorm v)) kvs))" by simp
  then show thesis using that j by simp
qed

lemma same_body_Doc: "same_body b (Doc j) \<longleftrightarrow> (\<exists>i. b = Doc i \<and> jnorm i = jnorm j)"
  by (cases b) (auto simp: same_json_def)

text \<open>The members of an object of two, three or four members, in any order.\<close>

definition members :: "(string \<times> json) list \<Rightarrow> (string \<times> json) list \<Rightarrow> bool" where
  "members kvs' kvs \<longleftrightarrow> mset (map (\<lambda>(k, v). (k, jnorm v)) kvs') = mset (map (\<lambda>(k, v). (k, jnorm v)) kvs)"

lemma same_j_map:
  assumes "jnorm j = jnorm (j_map kvs)"
  obtains kvs' where "j = JObj kvs'" and "members kvs' kvs"
proof -
  from assms have "jnorm j = jnorm (JObj (sort_key fst kvs))" by (simp add: j_map_def)
  then obtain kvs' where "j = JObj kvs'"
    and m: "mset (map (\<lambda>(k, v). (k, jnorm v)) kvs') = mset (map (\<lambda>(k, v). (k, jnorm v)) (sort_key fst kvs))"
    by (rule jnorm_JObj)
  then show thesis using that by (simp add: members_def)
qed

fun inserts :: "'a \<Rightarrow> 'a list \<Rightarrow> 'a list list" where
  "inserts a [] = [[a]]"
| "inserts a (x # xs) = (a # x # xs) # map (Cons x) (inserts a xs)"

fun orders :: "'a list \<Rightarrow> 'a list list" where
  "orders [] = [[]]"
| "orders (a # as) = concat (map (inserts a) (orders as))"

lemma inserts_mem: "us @ a # vs \<in> set (inserts a (us @ vs))"
proof (induction us)
  case Nil
  show ?case by (cases vs) auto
next
  case (Cons u us)
  then show ?case by auto
qed

lemma orders_mem: "mset xs = mset ys \<Longrightarrow> xs \<in> set (orders ys)"
proof (induction ys arbitrary: xs)
  case Nil
  then show ?case by simp
next
  case (Cons a ys)
  then have "a \<in> set xs" by (metis list.set_intros(1) set_mset_mset)
  then obtain us vs where xs: "xs = us @ a # vs" by (meson split_list)
  with Cons.prems have "mset (us @ vs) = mset ys" by simp
  then have "us @ vs \<in> set (orders ys)" by (rule Cons.IH)
  then show ?case using inserts_mem [of us a vs] xs by auto
qed

lemma members_orders:
  "members kvs' kvs \<Longrightarrow> map (\<lambda>(k, v). (k, jnorm v)) kvs' \<in> set (orders (map (\<lambda>(k, v). (k, jnorm v)) kvs))"
  unfolding members_def by (rule orders_mem)

lemma jnorm_j_int [simp]:
  "jnorm j = jnorm (j_int q) \<longleftrightarrow> (\<exists>y. j = JNum (Some (sint q)) y \<and> pos_zero y = pos_zero (float64_of_int q))"
  by (simp add: j_int_def)

section \<open>Field names\<close>

lemma fold_names [decode_simps]:
  "fold_name ''message_id'' = ''message_id''" "fold_name ''order_id'' = ''order_id''"
  "fold_name ''items'' = ''items''" "fold_name ''reason'' = ''reason''"
  "fold_name ''product_id'' = ''product_id''" "fold_name ''quantity'' = ''quantity''"
  "fold_name ''name'' = ''name''" "fold_name ''description'' = ''description''"
  "fold_name ''price'' = ''price''" "fold_name ''status'' = ''status''"
  by code_simp+

section \<open>Objects with many members\<close>

text \<open>
  When the decoders of different fields do not depend on each other, the order of the members
  does not matter, so an object can be decoded in the order in which it was written.
\<close>

definition dec_commute :: "'a dec \<Rightarrow> 'a dec \<Rightarrow> bool" where
  "dec_commute d d' \<longleftrightarrow> (\<forall>j j' a. Option.bind (d j a) (d' j') = Option.bind (d' j' a) (d j))"

definition fields_commute :: "(string \<Rightarrow> 'a dec option) \<Rightarrow> bool" where
  "fields_commute fld \<longleftrightarrow>
     (\<forall>k k' d d'. k \<noteq> k' \<longrightarrow> fld k = Some d \<longrightarrow> fld k' = Some d' \<longrightarrow> dec_commute d d')"

lemma fields_commuteI [intro]:
  assumes "\<And>k k' d d'. k \<noteq> k' \<Longrightarrow> fld k = Some d \<Longrightarrow> fld k' = Some d' \<Longrightarrow> dec_commute d d'"
  shows "fields_commute fld"
  using assms by (simp add: fields_commute_def)

fun dec_member :: "(string \<Rightarrow> 'a dec option) \<Rightarrow> string \<times> json \<Rightarrow> 'a option \<Rightarrow> 'a option" where
  "dec_member fld (k, v) a = (case fld (fold_name k) of None \<Rightarrow> a | Some d \<Rightarrow> Option.bind a (d v))"

lemma dec_members_None: "fold (dec_member fld) kvs None = None"
  by (induction kvs) (auto split: option.splits)

lemma dec_members_fold: "dec_members fld kvs a = fold (dec_member fld) kvs (Some a)"
  by (induction fld kvs a rule: dec_members.induct) (auto simp: dec_members_None split: option.splits)

lemma dec_member_commute:
  assumes "fields_commute fld" and "fold_name (fst x) \<noteq> fold_name (fst y)"
  shows "dec_member fld x (dec_member fld y a) = dec_member fld y (dec_member fld x a)"
proof (cases a)
  case None
  then show ?thesis by (cases x; cases y) (auto split: option.splits)
next
  case (Some r)
  obtain k v k' v' where xy: "x = (k, v)" "y = (k', v')" by (cases x; cases y)
  have "fld (fold_name k) = Some d \<Longrightarrow> fld (fold_name k') = Some d' \<Longrightarrow>
      Option.bind (d v r) (d' v') = Option.bind (d' v' r) (d v)" for d d'
    using assms unfolding fields_commute_def dec_commute_def xy fst_conv by blast
  then show ?thesis by (auto simp: xy Some split: option.splits)
qed

lemma dec_members_perm:
  assumes comm: "fields_commute fld" and dist: "distinct (map (fold_name \<circ> fst) kvs)"
    and perm: "mset kvs' = mset kvs"
  shows "dec_members fld kvs' a = dec_members fld kvs a"
proof -
  have "fold (dec_member fld) kvs' = fold (dec_member fld) kvs"
  proof (rule fold_multiset_equiv [OF _ perm])
    fix x y
    assume "x \<in> set kvs'" "y \<in> set kvs'"
    then have xy: "x \<in> set kvs" "y \<in> set kvs" using perm by (metis set_mset_mset)+
    show "dec_member fld x \<circ> dec_member fld y = dec_member fld y \<circ> dec_member fld x"
    proof (cases "fold_name (fst x) = fold_name (fst y)")
      case True
      with dist xy have "x = y" by (auto simp: distinct_map inj_on_def)
      then show ?thesis by simp
    next
      case False
      then show ?thesis by (simp add: fun_eq_iff dec_member_commute [OF comm])
    qed
  qed
  then show ?thesis by (simp add: dec_members_fold)
qed

lemma mset_map_order:
  "mset (map f xs) = mset ys \<Longrightarrow> \<exists>xs'. mset xs' = mset xs \<and> map f xs' = ys"
proof (induction ys arbitrary: xs)
  case Nil
  then show ?case by simp
next
  case (Cons y ys)
  then have "y \<in> set (map f xs)" by (metis list.set_intros(1) set_mset_mset)
  then obtain us x vs where xs: "xs = us @ x # vs" and y: "y = f x" by (auto dest: split_list)
  with Cons.prems have "mset (map f (us @ vs)) = mset ys" by simp
  from Cons.IH [OF this] obtain xs' where "mset xs' = mset (us @ vs)" "map f xs' = ys" by blast
  then show ?case by (intro exI [of _ "x # xs'"]) (simp add: xs y)
qed

lemma dec_same_members:
  assumes "fields_commute fld" and "distinct (map (fold_name \<circ> fst) kvs)" and "members kvs' kvs"
  obtains kvs'' where "map (\<lambda>(k, v). (k, jnorm v)) kvs'' = map (\<lambda>(k, v). (k, jnorm v)) kvs"
    and "\<And>a. dec_members fld kvs' a = dec_members fld kvs'' a"
proof -
  from mset_map_order [OF assms(3) [unfolded members_def]]
  obtain kvs'' where perm: "mset kvs'' = mset kvs'"
    and norm: "map (\<lambda>(k, v). (k, jnorm v)) kvs'' = map (\<lambda>(k, v). (k, jnorm v)) kvs" by blast
  have "map fst kvs'' = map fst kvs" using arg_cong [OF norm, of "map fst"] by (simp add: comp_def split_def)
  then have "map (fold_name \<circ> fst) kvs'' = map (fold_name \<circ> fst) kvs" by (metis map_map)
  then have "distinct (map (fold_name \<circ> fst) kvs'')" using assms(2) by simp
  from dec_members_perm [OF assms(1) this perm [symmetric]] norm show thesis by (rule that [rotated])
qed

end
