(* ===== verification/Wire.thy ===== *)
theory Wire
  imports Order_Consumers Inventory_Consumer Json_Same
begin

text \<open>
  The events between the order and the inventory service: what one service writes is what the
  other reads. The payload passes through a JSONB column, which may reorder the members of an
  object, so the lemmas hold for every document with the same value (\<open>same_body\<close>).
\<close>

declare fold_name.simps [simp del]

section \<open>One item\<close>

definition item_json :: "(uuid \<Rightarrow> string) \<Rightarrow> uuid \<Rightarrow> goint \<Rightarrow> json" where
  "item_json ustr p q = j_map [(''product_id'', JStr (ustr p)), (''quantity'', j_int q)]"

definition wire_item :: "(uuid \<Rightarrow> string) \<Rightarrow> uuid \<Rightarrow> goint \<Rightarrow> stock_item" where
  "wire_item ustr p q = \<lparr>si_product_id = ustr p, si_quantity = q\<rparr>"

lemma dec_item:
  assumes "jnorm j = jnorm (item_json ustr p q)"
  shows "dec_struct stock_item_fields j zero_stock_item = Some (wire_item ustr p q)"
proof -
  from assms obtain kvs where j: "j = JObj kvs"
    and "members kvs [(''product_id'', JStr (ustr p)), (''quantity'', j_int q)]"
    unfolding item_json_def by (rule same_j_map)
  from members_orders [OF this(2)] show ?thesis
    by (auto simp: j map_eq_Cons_conv stock_item_fields_def dec_field_def zero_stock_item_def wire_item_def
        decode_simps)
qed

lemma dec_items:
  assumes "map jnorm js = map (jnorm \<circ> (\<lambda>(p, q). item_json ustr p q)) pqs"
  shows "dec_stock_items (JArr js) ([], []) =
    Some (map (\<lambda>(p, q). wire_item ustr p q) pqs, map (\<lambda>(p, q). wire_item ustr p q) pqs)"
proof -
  have "dec_elems zero_stock_item (dec_struct stock_item_fields) js [] = Some (map (\<lambda>(p, q). wire_item ustr p q) pqs)"
    using assms
  proof (induction js arbitrary: pqs)
    case Nil
    then show ?case by simp
  next
    case (Cons j js)
    then obtain p q rest where "pqs = (p, q) # rest" and "jnorm j = jnorm (item_json ustr p q)"
      and "map jnorm js = map (jnorm \<circ> (\<lambda>(p, q). item_json ustr p q)) rest" by (cases pqs) auto
    with Cons.IH [of rest] dec_item [of j ustr p q] show ?case by simp
  qed
  moreover have "js = [] \<longleftrightarrow> pqs = []" using assms by auto
  ultimately show ?thesis by (simp add: dec_stock_items_def)
qed

section \<open>The reservation request\<close>

definition item_pairs :: "order_item list \<Rightarrow> (uuid \<times> goint) list" where
  "item_pairs items = map (\<lambda>it. (oi_product_id it, oi_quantity it)) items"

definition requested :: "order_item list \<Rightarrow> ReserveStockItem list" where
  "requested items = map (\<lambda>it. \<lparr>rs_product_id = oi_product_id it, rs_quantity = oi_quantity it\<rparr>) items"

lemma reserveStockItems_pairs:
  "reserveStockItems ustr items = map (\<lambda>(p, q). item_json ustr p q) (item_pairs items)"
  by (simp add: reserveStockItems_def item_pairs_def item_json_def)

lemma decode_request_payload:
  assumes "same_body b (reservation_payload ustr m ord)"
  shows "decode_request b = Some \<lparr>rq_message_id = ustr m, rq_order_id = ustr (od_id ord),
    rq_items = (map (\<lambda>(p, q). wire_item ustr p q) (item_pairs (od_items ord)),
                map (\<lambda>(p, q). wire_item ustr p q) (item_pairs (od_items ord)))\<rparr>"
proof -
  let ?pqs = "item_pairs (od_items ord)"
  have "same_body b (Doc (j_map [(''message_id'', JStr (ustr m)), (''order_id'', JStr (ustr (od_id ord))),
      (''items'', JArr (map (\<lambda>(p, q). item_json ustr p q) ?pqs))]))"
    using assms by (simp add: reservation_payload_def reserveStockItems_pairs)
  then obtain j where b: "b = Doc j"
    and "jnorm j = jnorm (j_map [(''message_id'', JStr (ustr m)), (''order_id'', JStr (ustr (od_id ord))),
      (''items'', JArr (map (\<lambda>(p, q). item_json ustr p q) ?pqs))])" by (auto simp: same_body_Doc)
  from same_j_map [OF this(2)] obtain kvs where j: "j = JObj kvs"
    and "members kvs [(''message_id'', JStr (ustr m)), (''order_id'', JStr (ustr (od_id ord))),
      (''items'', JArr (map (\<lambda>(p, q). item_json ustr p q) ?pqs))]" .
  from members_orders [OF this(2)] show ?thesis
    by (auto simp: decode_request_def b j map_eq_Cons_conv jnorm_JArr comp_def dec_field_def decode_simps
        ReserveStockRequestedEvent_fields_def dec_items [where pqs = ?pqs and ustr = ustr])
qed

lemma parse_wire_items:
  assumes "uuid_laws parse ustr"
  shows "parse_items parse (map (\<lambda>(p, q). wire_item ustr p q) (item_pairs items)) = Some (requested items)"
  using assms by (induction items) (auto simp: item_pairs_def requested_def wire_item_def uuid_laws_def)

lemma request_round_trip:
  assumes "uuid_laws parse ustr" and "same_body b (reservation_payload ustr m ord)"
  shows "request_of parse b = Some (m, od_id ord, requested (od_items ord))"
  using parse_wire_items [OF assms(1)] assms(1)
  by (simp add: request_of_def decode_request_payload [OF assms(2)] uuid_laws_def)

section \<open>The answer\<close>

definition answer_pairs :: "ReserveStockItem list \<Rightarrow> (uuid \<times> goint) list" where
  "answer_pairs items = map (\<lambda>it. (rs_product_id it, rs_quantity it)) items"

lemma stock_event_items:
  "map (\<lambda>item. j_map [(''product_id'', JStr (ustr (rs_product_id item))), (''quantity'', j_int (rs_quantity item))]) items
     = map (\<lambda>(p, q). item_json ustr p q) (answer_pairs items)"
  by (simp add: answer_pairs_def item_json_def)

lemma reserved_answer_read:
  assumes "same_body b (buildStockEventPayload ustr m oid '''' items)"
  shows "decode_StockReserved b = Some (ustr m, ustr oid)"
proof -
  let ?pqs = "answer_pairs items"
  have "same_body b (Doc (j_map [(''message_id'', JStr (ustr m)), (''order_id'', JStr (ustr oid)),
      (''items'', JArr (map (\<lambda>(p, q). item_json ustr p q) ?pqs))]))"
    using assms by (simp add: buildStockEventPayload_def stock_event_items)
  then obtain j where b: "b = Doc j"
    and "jnorm j = jnorm (j_map [(''message_id'', JStr (ustr m)), (''order_id'', JStr (ustr oid)),
      (''items'', JArr (map (\<lambda>(p, q). item_json ustr p q) ?pqs))])" by (auto simp: same_body_Doc)
  from same_j_map [OF this(2)] obtain kvs where j: "j = JObj kvs"
    and "members kvs [(''message_id'', JStr (ustr m)), (''order_id'', JStr (ustr oid)),
      (''items'', JArr (map (\<lambda>(p, q). item_json ustr p q) ?pqs))]" .
  from members_orders [OF this(2)] show ?thesis
    by (auto simp: decode_StockReserved_def b j map_eq_Cons_conv jnorm_JArr comp_def dec_field_def decode_simps
        StockReservedEvent_fields_def dec_items [where pqs = ?pqs and ustr = ustr])
qed

lemma rejected_answer_read:
  assumes "same_body b (buildStockEventPayload ustr m oid reason items)" and "reason \<noteq> ''''"
  shows "decode_StockNotReserved b = Some (ustr m, ustr oid)"
proof -
  let ?pqs = "answer_pairs items"
  have "same_body b (Doc (j_map [(''message_id'', JStr (ustr m)), (''order_id'', JStr (ustr oid)),
      (''items'', JArr (map (\<lambda>(p, q). item_json ustr p q) ?pqs)), (''reason'', JStr reason)]))"
    using assms by (simp add: buildStockEventPayload_def stock_event_items)
  then obtain j where b: "b = Doc j"
    and "jnorm j = jnorm (j_map [(''message_id'', JStr (ustr m)), (''order_id'', JStr (ustr oid)),
      (''items'', JArr (map (\<lambda>(p, q). item_json ustr p q) ?pqs)), (''reason'', JStr reason)])" by (auto simp: same_body_Doc)
  from same_j_map [OF this(2)] obtain kvs where j: "j = JObj kvs"
    and "members kvs [(''message_id'', JStr (ustr m)), (''order_id'', JStr (ustr oid)),
      (''items'', JArr (map (\<lambda>(p, q). item_json ustr p q) ?pqs)), (''reason'', JStr reason)]" .
  from members_orders [OF this(2)] show ?thesis
    by (auto simp: decode_StockNotReserved_def b j map_eq_Cons_conv jnorm_JArr comp_def dec_field_def decode_simps
        StockNotReservedEvent_fields_def dec_items [where pqs = ?pqs and ustr = ustr])
qed

lemma answer_round_trip:
  assumes "uuid_laws parse ustr"
  shows "same_body b (buildStockEventPayload ustr m oid '''' items) \<Longrightarrow>
      event_ids parse decode_StockReserved b = Some (m, oid)"
    and "same_body b (buildStockEventPayload ustr m oid reason items) \<Longrightarrow> reason \<noteq> '''' \<Longrightarrow>
      event_ids parse decode_StockNotReserved b = Some (m, oid)"
  using assms by (auto simp: event_ids_def reserved_answer_read rejected_answer_read uuid_laws_def)

end
