(* ===== verification/Saga.thy ===== *)
theory Saga
  imports Order_System Wire
begin

text \<open>
  The order and the inventory service together. Each keeps its own database; all that passes
  between them are the messages of their outboxes, which the workers publish and the broker
  delivers, any number of times and in any order, or never. A step of the system is one step of
  one service; a delivery's body is the payload of a message that is in the sender's outbox.
  The theory shows what the statuses of the orders then say about the stock.
\<close>

section \<open>The system\<close>

inductive saga_step ::
  "'s order_db \<Rightarrow> 't inventory_db \<Rightarrow> ozzo \<Rightarrow> (string \<Rightarrow> uuid option) \<Rightarrow> (uuid \<Rightarrow> string)
   \<Rightarrow> 's \<times> 't \<Rightarrow> 's \<times> 't \<Rightarrow> bool" for D E V parse ustr where
  create: "\<forall>i. new i \<noteq> 0 \<Longrightarrow> order_CreateOrder D V parse ustr new now1 now2 s req = (res, s')
    \<Longrightarrow> saga_step D E V parse ustr (s, t) (s', t)"
| order_worker: "order_outbox_process (db_outbox D) clock B exchange n (s, h) = (s', h')
    \<Longrightarrow> saga_step D E V parse ustr (s, t) (s', t)"
| reserve: "outbox_content (db_outbox D) s i = Some (''ReserveStockRequested'', p_body d)
    \<Longrightarrow> \<forall>i. fst env i \<noteq> 0
    \<Longrightarrow> inventory_handleMessage E B parse ustr env d (t, h) = (t', h')
    \<Longrightarrow> saga_step D E V parse ustr (s, t) (s, t')"
| inventory_worker: "inventory_outbox_process (nv_outbox E) clock B exchange n (t, h) = (t', h')
    \<Longrightarrow> saga_step D E V parse ustr (s, t) (s, t')"
| stock_reserved: "outbox_content (nv_outbox E) t i = Some (''StockReserved'', p_body d)
    \<Longrightarrow> new \<noteq> 0 \<Longrightarrow> stockReserved_handleMessage D B p parse new now d (s, h) = (s', h')
    \<Longrightarrow> saga_step D E V parse ustr (s, t) (s', t)"
| stock_not_reserved: "outbox_content (nv_outbox E) t i = Some (''StockReservationFailed'', p_body d)
    \<Longrightarrow> new \<noteq> 0 \<Longrightarrow> stockNotReserved_handleMessage D B p parse new now d (s, h) = (s', h')
    \<Longrightarrow> saga_step D E V parse ustr (s, t) (s', t)"

section \<open>What is on the wire\<close>

definition requests ::
  "'s order_db \<Rightarrow> (string \<Rightarrow> uuid option) \<Rightarrow> 's \<Rightarrow> (uuid \<times> uuid \<times> ReserveStockItem list) set" where
  "requests D parse s =
     {r. \<exists>i b. outbox_content (db_outbox D) s i = Some (''ReserveStockRequested'', b)
        \<and> request_of parse b = Some r}"

definition reserved_answers :: "'t inventory_db \<Rightarrow> (string \<Rightarrow> uuid option) \<Rightarrow> 't \<Rightarrow> uuid set" where
  "reserved_answers E parse t =
     {oid. \<exists>i b m. outbox_content (nv_outbox E) t i = Some (''StockReserved'', b)
        \<and> event_ids parse decode_StockReserved b = Some (m, oid)}"

definition rejected_answers :: "'t inventory_db \<Rightarrow> (string \<Rightarrow> uuid option) \<Rightarrow> 't \<Rightarrow> uuid set" where
  "rejected_answers E parse t =
     {oid. \<exists>i b m. outbox_content (nv_outbox E) t i = Some (''StockReservationFailed'', b)
        \<and> event_ids parse decode_StockNotReserved b = Some (m, oid)}"

definition item_reserved :: "'t inventory_db \<Rightarrow> 't \<Rightarrow> uuid \<Rightarrow> uuid \<times> goint \<Rightarrow> bool" where
  "item_reserved E t oid pq \<longleftrightarrow>
     (\<exists>r\<in>ran (g_rows (nv_reservations E) t). rv_order_id r = oid
        \<and> rv_product_id r = fst pq \<and> rv_quantity r = snd pq \<and> rv_status r = ReservationStatusReserved)"

definition nothing_reserved :: "'t inventory_db \<Rightarrow> 't \<Rightarrow> uuid \<Rightarrow> bool" where
  "nothing_reserved E t oid \<longleftrightarrow> (\<forall>r\<in>ran (g_rows (nv_reservations E) t). rv_order_id r \<noteq> oid)"

text \<open>The products and quantities of an order, from its rows and from a request.\<close>

definition ordered :: "'s order_db \<Rightarrow> 's \<Rightarrow> uuid \<Rightarrow> (uuid \<times> goint) set" where
  "ordered D s oid =
     (\<lambda>r. (ir_product_id r, ir_quantity r)) ` {r \<in> ran (g_rows (db_items D) s). ir_order_id r = oid}"

definition asked :: "ReserveStockItem list \<Rightarrow> (uuid \<times> goint) set" where
  "asked its = (\<lambda>it. (rs_product_id it, rs_quantity it)) ` set its"

section \<open>The invariant\<close>

text \<open>
  The requests on the wire are those of stored orders, one for each; an answer of either kind is
  about a request that was handled, and says what the reservations are; every reservation
  belongs to a handled request; and an order is settled as one of the answers says.
\<close>

inductive saga_inv ::
  "'s order_db \<Rightarrow> 't inventory_db \<Rightarrow> (string \<Rightarrow> uuid option) \<Rightarrow> 's \<times> 't \<Rightarrow> bool" for D E parse where
  invI: "\<lbrakk>order_fk D s; inventory_wf E t;
     \<And>m oid its. (m, oid, its) \<in> requests D parse s \<Longrightarrow>
        order_status D s oid \<noteq> None \<and> ordered D s oid = asked its;
     \<And>m m' oid its its'. (m, oid, its) \<in> requests D parse s \<Longrightarrow> (m', oid, its') \<in> requests D parse s \<Longrightarrow>
        m = m' \<and> its = its';
     \<And>oid. oid \<in> reserved_answers E parse t \<Longrightarrow> \<exists>m its. (m, oid, its) \<in> requests D parse s
        \<and> m \<in> inbox_ids (nv_inbox E) t \<and> (\<forall>pq\<in>asked its. item_reserved E t oid pq);
     \<And>oid. oid \<in> rejected_answers E parse t \<Longrightarrow> \<exists>m its. (m, oid, its) \<in> requests D parse s
        \<and> m \<in> inbox_ids (nv_inbox E) t \<and> nothing_reserved E t oid;
     \<And>r. r \<in> ran (g_rows (nv_reservations E) t) \<Longrightarrow> \<exists>m its. (m, rv_order_id r, its) \<in> requests D parse s
        \<and> m \<in> inbox_ids (nv_inbox E) t;
     \<And>oid. order_status D s oid = Some OrderStatusConfirmed \<Longrightarrow> oid \<in> reserved_answers E parse t;
     \<And>oid. order_status D s oid = Some OrderStatusFailed \<Longrightarrow> oid \<in> rejected_answers E parse t\<rbrakk>
   \<Longrightarrow> saga_inv D E parse (s, t)"

section \<open>Steps of the order service\<close>

text \<open>Two states of the order database that agree on the items, the outbox's content and the keys.\<close>

lemma requests_content:
  "outbox_content (db_outbox D) s' = outbox_content (db_outbox D) s \<Longrightarrow> requests D parse s' = requests D parse s"
  by (simp add: requests_def)

lemma ordered_rows: "g_rows (db_items D) s' = g_rows (db_items D) s \<Longrightarrow> ordered D s' oid = ordered D s oid"
  by (simp add: ordered_def)

lemma fk_status:
  assumes "order_fk D s" and "g_rows (db_items D) s' = g_rows (db_items D) s"
    and "\<And>oid. order_status D s oid \<noteq> None \<Longrightarrow> order_status D s' oid \<noteq> None"
  shows "order_fk D s'"
  using assms by (simp add: order_fk_def order_status_def)

lemma saga_inv_order_step:
  assumes inv: "saga_inv D E parse (s, t)"
    and items: "g_rows (db_items D) s' = g_rows (db_items D) s"
    and content: "outbox_content (db_outbox D) s' = outbox_content (db_outbox D) s"
    and keep: "\<And>oid. order_status D s oid \<noteq> None \<Longrightarrow> order_status D s' oid \<noteq> None"
    and conf: "\<And>oid. order_status D s' oid = Some OrderStatusConfirmed \<Longrightarrow>
      order_status D s oid = Some OrderStatusConfirmed \<or> oid \<in> reserved_answers E parse t"
    and fail: "\<And>oid. order_status D s' oid = Some OrderStatusFailed \<Longrightarrow>
      order_status D s oid = Some OrderStatusFailed \<or> oid \<in> rejected_answers E parse t"
  shows "saga_inv D E parse (s', t)"
  using inv
proof cases
  note req = requests_content [OF content, of parse]
  case invI
  show ?thesis
  proof (rule saga_inv.invI, unfold req)
    show "order_fk D s'" by (rule fk_status [OF invI(1) items keep])
    show "inventory_wf E t" by (rule invI(2))
    show "order_status D s' oid \<noteq> None \<and> ordered D s' oid = asked its"
      if "(m, oid, its) \<in> requests D parse s" for m oid its
      using invI(3) [OF that] keep ordered_rows [OF items] by simp
    show "oid \<in> reserved_answers E parse t" if "order_status D s' oid = Some OrderStatusConfirmed" for oid
      using conf [OF that] invI(8) by blast
    show "oid \<in> rejected_answers E parse t" if "order_status D s' oid = Some OrderStatusFailed" for oid
      using fail [OF that] invI(9) by blast
  qed (fact invI(4) invI(5) invI(6) invI(7))+
qed

text \<open>A status change, and what it leaves alone.\<close>

lemma settle_frames:
  assumes laws: "order_db_laws D"
    and run: "handle_settlement (IsProcessed D) settle (SaveProcessed D new now) et i m b s = (e, s')"
    and settle: "\<And>s. \<exists>st. settle s i = g_updates (db_orders D) s (\<lambda>r. or_id r = i \<and> or_status r = OrderStatusPending)
       (\<lambda>r. r\<lparr>or_status := st, or_updated_at := now\<rparr>)"
  shows "g_rows (db_items D) s' = g_rows (db_items D) s" and "g_rows (db_outbox D) s' = g_rows (db_outbox D) s"
proof -
  note fr = order_frames [OF laws]
  have u: "g_rows (db_items D) (snd (settle s i)) = g_rows (db_items D) s"
    "g_rows (db_outbox D) (snd (settle s i)) = g_rows (db_outbox D) s" for s
    using settle [of s] gorm_frameD(2) [OF fr(1)] gorm_frameD(2) [OF fr(2)] by auto
  have c: "g_rows (db_items D) (snd (SaveProcessed D new now s m et b)) = g_rows (db_items D) s"
    "g_rows (db_outbox D) (snd (SaveProcessed D new now s m et b)) = g_rows (db_outbox D) s" for s
    unfolding SaveProcessed_def inbox_insert_def
    using gorm_frameD(1) [OF fr(11)] gorm_frameD(1) [OF fr(12)] by simp_all
  have s': "s' = s \<or> s' = snd (seq (\<lambda>s. settle s i) (\<lambda>s. SaveProcessed D new now s m et b) s)"
    using run by (auto simp: handle_settlement_def split: sum.splits if_splits)
  then show "g_rows (db_items D) s' = g_rows (db_items D) s"
    and "g_rows (db_outbox D) s' = g_rows (db_outbox D) s"
    by (auto simp: seq_snd u c)
qed

lemma confirm_frames:
  assumes "order_db_laws D" and "HandleConfirmOrder D new now i m b s = (e, s')"
  shows "g_rows (db_items D) s' = g_rows (db_items D) s" and "g_rows (db_outbox D) s' = g_rows (db_outbox D) s"
  using settle_frames [OF assms(1) assms(2) [unfolded HandleConfirmOrder_def]] by (auto simp: ConfirmOrder_def)

lemma reject_frames:
  assumes "order_db_laws D" and "HandleRejectOrder D new now i m b s = (e, s')"
  shows "g_rows (db_items D) s' = g_rows (db_items D) s" and "g_rows (db_outbox D) s' = g_rows (db_outbox D) s"
  using settle_frames [OF assms(1) assms(2) [unfolded HandleRejectOrder_def]] by (auto simp: RejectOrder_def)

lemma saga_confirmed:
  assumes laws: "order_db_laws D" and inv: "saga_inv D E parse (s, t)"
    and on_wire: "outbox_content (nv_outbox E) t k = Some (''StockReserved'', b)" and new: "new \<noteq> 0"
    and ids: "event_ids parse decode_StockReserved b = Some (m, i)"
    and run: "HandleConfirmOrder D new now i m b s = (e, s')"
  shows "saga_inv D E parse (s', t)"
proof -
  have i: "i \<in> reserved_answers E parse t" using on_wire ids by (auto simp: reserved_answers_def)
  note st = confirm_keeps [OF laws new run]
  note fr = confirm_frames [OF laws run]
  show ?thesis
  proof (rule saga_inv_order_step [OF inv fr(1)])
    show "outbox_content (db_outbox D) s' = outbox_content (db_outbox D) s"
      by (simp add: outbox_content_def fr(2) fun_eq_iff)
  qed (use st i in \<open>auto simp: settle_status_def split: if_splits\<close>)
qed

lemma saga_rejected:
  assumes laws: "order_db_laws D" and inv: "saga_inv D E parse (s, t)"
    and on_wire: "outbox_content (nv_outbox E) t k = Some (''StockReservationFailed'', b)" and new: "new \<noteq> 0"
    and ids: "event_ids parse decode_StockNotReserved b = Some (m, i)"
    and run: "HandleRejectOrder D new now i m b s = (e, s')"
  shows "saga_inv D E parse (s', t)"
proof -
  have i: "i \<in> rejected_answers E parse t" using on_wire ids by (auto simp: rejected_answers_def)
  note st = reject_keeps [OF laws new run]
  note fr = reject_frames [OF laws run]
  show ?thesis
  proof (rule saga_inv_order_step [OF inv fr(1)])
    show "outbox_content (db_outbox D) s' = outbox_content (db_outbox D) s"
      by (simp add: outbox_content_def fr(2) fun_eq_iff)
  qed (use st i in \<open>auto simp: settle_status_def split: if_splits\<close>)
qed

lemma saga_confirm:
  assumes laws: "order_db_laws D" and inv: "saga_inv D E parse (s, t)"
    and on_wire: "outbox_content (nv_outbox E) t k = Some (''StockReserved'', p_body d)" and new: "new \<noteq> 0"
    and run: "stockReserved_handleMessage D B p parse new now d (s, h) = (s', h')"
  shows "saga_inv D E parse (s', t)"
  using run [unfolded stockReserved_handleMessage_def]
proof (cases rule: handle_stock_event_cases)
  case (malformed reason)
  then show ?thesis using inv by simp
next
  case (failed m i e)
  show ?thesis by (rule saga_confirmed [OF laws inv on_wire new failed(1,2)])
next
  case (processed m i)
  show ?thesis by (rule saga_confirmed [OF laws inv on_wire new processed(1,2)])
qed

lemma saga_reject:
  assumes laws: "order_db_laws D" and inv: "saga_inv D E parse (s, t)"
    and on_wire: "outbox_content (nv_outbox E) t k = Some (''StockReservationFailed'', p_body d)" and new: "new \<noteq> 0"
    and run: "stockNotReserved_handleMessage D B p parse new now d (s, h) = (s', h')"
  shows "saga_inv D E parse (s', t)"
  using run [unfolded stockNotReserved_handleMessage_def]
proof (cases rule: handle_stock_event_cases)
  case (malformed reason)
  then show ?thesis using inv by simp
next
  case (failed m i e)
  show ?thesis by (rule saga_rejected [OF laws inv on_wire new failed(1,2)])
next
  case (processed m i)
  show ?thesis by (rule saga_rejected [OF laws inv on_wire new processed(1,2)])
qed

lemma saga_order_worker:
  assumes laws: "order_db_laws D" and inv: "saga_inv D E parse (s, t)"
    and run: "order_outbox_process (db_outbox D) clock B exchange n (s, h) = (s', h')"
  shows "saga_inv D E parse (s', t)"
proof -
  note fr = order_frames [OF laws]
  note run = run [unfolded order_outbox_process_def]
  have ob: "outbox_laws (db_outbox D)" using laws by (simp add: order_db_laws_def)
  have st: "order_status D s' = order_status D s"
    using outbox_process_keeps [OF fr(7) run] by (simp add: order_status_def fun_eq_iff)
  have "outbox_content (db_outbox D) s' = outbox_content (db_outbox D) s"
    using worker.process_keeps [OF ob run [unfolded outbox_process_def]] by blast
  then show ?thesis
    by (rule saga_inv_order_step [OF inv outbox_process_keeps [OF fr(8) run]]) (simp_all add: st)
qed

section \<open>Steps of the inventory service\<close>

lemma requests_of_content:
  assumes "outbox_content (db_outbox D) s i = Some (''ReserveStockRequested'', b)"
    and "request_of parse b = Some r"
  shows "r \<in> requests D parse s"
  using assms by (auto simp: requests_def)

text \<open>What a new message adds to the content of the inventory's outbox.\<close>

lemma answered_content:
  assumes laws: "inventory_db_laws E" and ans: "answered E t m q t'"
  obtains b where "outbox_content (nv_outbox E) t' = (outbox_content (nv_outbox E) t)(ob_id q \<mapsto> (ob_event_type q, b))"
    and "same_body b (ob_payload q)" and "outbox_content (nv_outbox E) t (ob_id q) = None"
proof -
  let ?q = "g_stored (nv_outbox E) q"
  have cols: "outbox_columns (nv_outbox E)" using laws by (simp add: inventory_db_laws_def outbox_laws_def)
  have key: "sc_key outbox_schema ?q = ob_id q"
    using gorm_stored_key [OF inventory_gorm(3) [OF laws], of q] by (simp add: outbox_schema_def)
  from ans have rows: "g_rows (nv_outbox E) t' = (g_rows (nv_outbox E) t)(ob_id q \<mapsto> ?q)"
    and fresh: "g_rows (nv_outbox E) t (ob_id q) = None"
    using key by (auto simp: answered_def insertable_def)
  have "outbox_content (nv_outbox E) t' = (outbox_content (nv_outbox E) t)(ob_id q \<mapsto> (ob_event_type ?q, ob_payload ?q))"
    by (rule ext) (simp add: outbox_content_def rows)
  moreover have "ob_event_type ?q = ob_event_type q" and "same_body (ob_payload ?q) (ob_payload q)"
    using cols by (simp_all add: outbox_columns_def)
  moreover have "outbox_content (nv_outbox E) t (ob_id q) = None" by (simp add: outbox_content_def fresh)
  ultimately show thesis using that by metis
qed

lemma reserved_answers_add:
  assumes "outbox_content (nv_outbox E) t' = (outbox_content (nv_outbox E) t)(k \<mapsto> (ty, b))"
    and "outbox_content (nv_outbox E) t k = None"
  shows "reserved_answers E parse t' = reserved_answers E parse t
      \<union> {oid. ty = ''StockReserved'' \<and> (\<exists>m. event_ids parse decode_StockReserved b = Some (m, oid))}"
    and "rejected_answers E parse t' = rejected_answers E parse t
      \<union> {oid. ty = ''StockReservationFailed'' \<and> (\<exists>m. event_ids parse decode_StockNotReserved b = Some (m, oid))}"
proof -
  have split: "outbox_content (nv_outbox E) t' i = Some c \<longleftrightarrow>
      outbox_content (nv_outbox E) t i = Some c \<or> i = k \<and> c = (ty, b)" for i c
    using assms by auto
  show "reserved_answers E parse t' = reserved_answers E parse t
      \<union> {oid. ty = ''StockReserved'' \<and> (\<exists>m. event_ids parse decode_StockReserved b = Some (m, oid))}"
    unfolding reserved_answers_def split by blast
  show "rejected_answers E parse t' = rejected_answers E parse t
      \<union> {oid. ty = ''StockReservationFailed'' \<and> (\<exists>m. event_ids parse decode_StockNotReserved b = Some (m, oid))}"
    unfolding rejected_answers_def split by blast
qed

lemma item_reserved_grow:
  assumes "ran (g_rows (nv_reservations E) t) \<subseteq> ran (g_rows (nv_reservations E) t')" and "item_reserved E t oid pq"
  shows "item_reserved E t' oid pq"
  using assms unfolding item_reserved_def by blast

text \<open>The general step of the inventory: the request \<open>(m, oid, its)\<close> is answered.\<close>

lemma saga_inv_answer:
  assumes inv: "saga_inv D E parse (s, t)"
    and req: "(m, oid, its) \<in> requests D parse s" and fresh: "m \<notin> inbox_ids (nv_inbox E) t"
    and inbox: "inbox_ids (nv_inbox E) t' = insert m (inbox_ids (nv_inbox E) t)"
    and wf: "inventory_wf E t'"
    and grow: "ran (g_rows (nv_reservations E) t) \<subseteq> ran (g_rows (nv_reservations E) t')"
    and own: "\<And>r. r \<in> ran (g_rows (nv_reservations E) t') \<Longrightarrow>
      r \<in> ran (g_rows (nv_reservations E) t) \<or> rv_order_id r = oid"
    and res: "reserved_answers E parse t' \<subseteq> reserved_answers E parse t
        \<union> {o'. o' = oid \<and> (\<forall>pq\<in>asked its. item_reserved E t' oid pq)}"
    and rej: "rejected_answers E parse t' \<subseteq> rejected_answers E parse t
        \<union> {o'. o' = oid \<and> ran (g_rows (nv_reservations E) t') = ran (g_rows (nv_reservations E) t)}"
    and mono: "reserved_answers E parse t \<subseteq> reserved_answers E parse t'"
      "rejected_answers E parse t \<subseteq> rejected_answers E parse t'"
  shows "saga_inv D E parse (s, t')"
  using inv
proof cases
  case invI
  have unhandled: "\<not> (\<exists>m' its'. (m', oid, its') \<in> requests D parse s \<and> m' \<in> inbox_ids (nv_inbox E) t)"
    using invI(4) [OF req] fresh by blast
  have none: "nothing_reserved E t oid"
    unfolding nothing_reserved_def using invI(7) unhandled by blast
  show ?thesis
  proof (rule saga_inv.invI)
    show "order_fk D s" by (rule invI(1))
    show "inventory_wf E t'" by (rule wf)
    fix o'
    assume "o' \<in> reserved_answers E parse t'"
    then consider "o' \<in> reserved_answers E parse t" | "o' = oid" "\<forall>pq\<in>asked its. item_reserved E t' oid pq"
      using res by blast
    then show "\<exists>m its. (m, o', its) \<in> requests D parse s \<and> m \<in> inbox_ids (nv_inbox E) t'
        \<and> (\<forall>pq\<in>asked its. item_reserved E t' o' pq)"
    proof cases
      case 1
      from invI(5) [OF this] obtain m' its' where r: "(m', o', its') \<in> requests D parse s"
        "m' \<in> inbox_ids (nv_inbox E) t" "\<forall>pq\<in>asked its'. item_reserved E t o' pq" by blast
      have "\<forall>pq\<in>asked its'. item_reserved E t' o' pq"
        using r(3) item_reserved_grow [OF grow] by blast
      then show ?thesis using r(1,2) unfolding inbox by blast
    next
      case 2
      then show ?thesis using req unfolding inbox by blast
    qed
  next
    fix o'
    assume "o' \<in> rejected_answers E parse t'"
    then consider "o' \<in> rejected_answers E parse t"
      | "o' = oid" "ran (g_rows (nv_reservations E) t') = ran (g_rows (nv_reservations E) t)"
      using rej by blast
    then show "\<exists>m its. (m, o', its) \<in> requests D parse s \<and> m \<in> inbox_ids (nv_inbox E) t'
        \<and> nothing_reserved E t' o'"
    proof cases
      case 1
      from invI(6) [OF 1] obtain m' its' where r: "(m', o', its') \<in> requests D parse s"
        "m' \<in> inbox_ids (nv_inbox E) t" "nothing_reserved E t o'" by blast
      then have "o' \<noteq> oid" using unhandled by blast
      then have "nothing_reserved E t' o'" using r(3) own unfolding nothing_reserved_def by blast
      then show ?thesis using r unfolding inbox by blast
    next
      case 2
      then have "nothing_reserved E t' o'" using none unfolding nothing_reserved_def by simp
      then show ?thesis using req 2(1) unfolding inbox by blast
    qed
  next
    fix r
    assume "r \<in> ran (g_rows (nv_reservations E) t')"
    with own [OF this] invI(7) req show "\<exists>m its. (m, rv_order_id r, its) \<in> requests D parse s \<and> m \<in> inbox_ids (nv_inbox E) t'"
      unfolding inbox by blast
  next
    show "o' \<in> reserved_answers E parse t'" if "order_status D s o' = Some OrderStatusConfirmed" for o'
      using invI(8) [OF that] mono by blast
    show "o' \<in> rejected_answers E parse t'" if "order_status D s o' = Some OrderStatusFailed" for o'
      using invI(9) [OF that] mono by blast
  qed (fact invI(3) invI(4))+
qed

lemma saga_inv_inventory_same:
  assumes "saga_inv D E parse (s, t)" and "g_rows (nv_inventory E) t' = g_rows (nv_inventory E) t"
    and res: "g_rows (nv_reservations E) t' = g_rows (nv_reservations E) t"
    and inbox: "g_rows (nv_inbox E) t' = g_rows (nv_inbox E) t"
    and out: "outbox_content (nv_outbox E) t' = outbox_content (nv_outbox E) t"
  shows "saga_inv D E parse (s, t')"
proof -
  have a: "reserved_answers E parse t' = reserved_answers E parse t"
    "rejected_answers E parse t' = rejected_answers E parse t"
    by (simp_all add: reserved_answers_def rejected_answers_def out)
  have b: "item_reserved E t' = item_reserved E t" "nothing_reserved E t' = nothing_reserved E t"
    by (simp_all add: item_reserved_def nothing_reserved_def res fun_eq_iff)
  have c: "inbox_ids (nv_inbox E) t' = inbox_ids (nv_inbox E) t" by (simp add: inbox_ids_def inbox)
  from assms(1) show ?thesis
  proof cases
    case invI
    show ?thesis
    proof (rule saga_inv.invI, unfold a b c res)
      show "inventory_wf E t'" using invI(2) assms(2) by (simp add: inventory_wf_def)
    qed (fact invI(1) invI(3) invI(4) invI(5) invI(6) invI(7) invI(8) invI(9))+
  qed
qed

lemma saga_inventory_worker:
  assumes laws: "inventory_db_laws E" and inv: "saga_inv D E parse (s, t)"
    and run: "inventory_outbox_process (nv_outbox E) clock B exchange n (t, h) = (t', h')"
  shows "saga_inv D E parse (s, t')"
proof -
  note fr = inventory_frames [OF laws]
  note run = run [unfolded inventory_outbox_process_def]
  have ob: "outbox_laws (nv_outbox E)" using laws by (simp add: inventory_db_laws_def)
  have "outbox_content (nv_outbox E) t' = outbox_content (nv_outbox E) t"
    using worker.process_keeps [OF ob run [unfolded outbox_process_def]] by blast
  then show ?thesis
    by (rule saga_inv_inventory_same [OF inv outbox_process_keeps [OF fr(7) run]
          outbox_process_keeps [OF fr(8) run] outbox_process_keeps [OF fr(9) run]])
qed

text \<open>The transaction that answers a request is such a step.\<close>

lemma saga_ReserveStock:
  assumes uuid: "uuid_laws parse ustr" and laws: "inventory_db_laws E" and new: "\<And>i. new i \<noteq> 0"
    and inv: "saga_inv D E parse (s, t)" and req: "(m, oid, its) \<in> requests D parse s"
    and run: "ReserveStockWithInboxAndOutbox E ustr new clock m oid its payload t = (e, t')"
  shows "saga_inv D E parse (s, t')"
proof -
  have wf: "inventory_wf E t" using inv by cases
  show ?thesis
    using laws new wf run
  proof (cases rule: ReserveStock_cases)
    case unchanged
    then have "outbox_content (nv_outbox E) t' = outbox_content (nv_outbox E) t"
      by (simp add: outbox_content_def same_inventory_rows_def fun_eq_iff)
    with unchanged(1) show ?thesis
      by (intro saga_inv_inventory_same [OF inv]) (simp_all add: same_inventory_rows_def)
  next
    case reserved
    let ?q = "stock_event_message ustr new (length its) (clock 1) oid ''StockReserved'' '''' its"
    obtain b where content: "outbox_content (nv_outbox E) t' =
        (outbox_content (nv_outbox E) t)(ob_id ?q \<mapsto> (ob_event_type ?q, b))"
      and b: "same_body b (ob_payload ?q)" and fresh: "outbox_content (nv_outbox E) t (ob_id ?q) = None"
      by (rule answered_content [OF laws reserved(3)])
    have ty: "ob_event_type ?q = ''StockReserved''" by (simp add: stock_event_message_def)
    have ids: "event_ids parse decode_StockReserved b = Some (new (length its), oid)"
      using answer_round_trip(1) [OF uuid] b by (simp add: stock_event_message_def)
    note add = reserved_answers_add [OF content fresh, of parse, unfolded ty ids]
    have ins: "insert_rows reservation_schema (g_rows (nv_reservations E) t)
        (map (g_stored (nv_reservations E)) (reservations_of new 0 (clock 0) oid its)) = Some (g_rows (nv_reservations E) t')"
      using reserved(1) by (simp add: stock_reserved_def)
    have all: "\<forall>pq\<in>asked its. item_reserved E t' oid pq"
    proof
      fix pq assume "pq \<in> asked its"
      then obtain it where it: "it \<in> set its" and pq: "pq = (rs_product_id it, rs_quantity it)" by (auto simp: asked_def)
      from reservations_of_item [OF it, of new 0 "clock 0" oid] obtain r
        where r: "r \<in> set (reservations_of new 0 (clock 0) oid its)" "rv_order_id r = oid"
          "rv_status r = ReservationStatusReserved" "rv_product_id r = rs_product_id it" "rv_quantity r = rs_quantity it"
        by blast
      have "g_stored (nv_reservations E) r \<in> ran (g_rows (nv_reservations E) t')"
        using insert_rows_added [OF ins, of "g_stored (nv_reservations E) r"] r(1) by (auto simp: ran_def)
      then show "item_reserved E t' oid pq"
        unfolding item_reserved_def pq using r(2-) by (intro bexI) (simp_all add: reservations_stored [OF laws])
    qed
    show ?thesis
    proof (rule saga_inv_answer [OF inv req])
      show "m \<notin> inbox_ids (nv_inbox E) t" "inbox_ids (nv_inbox E) t' = insert m (inbox_ids (nv_inbox E) t)"
        using reserved(3) by (simp_all add: answered_def)
      show "inventory_wf E t'" by (rule reserved(2))
      show "ran (g_rows (nv_reservations E) t) \<subseteq> ran (g_rows (nv_reservations E) t')"
        using insert_rows_grow [OF ins] by (auto simp: ran_def)
      show "r \<in> ran (g_rows (nv_reservations E) t) \<or> rv_order_id r = oid"
        if "r \<in> ran (g_rows (nv_reservations E) t')" for r
      proof -
        from that obtain k where "g_rows (nv_reservations E) t' k = Some r" by (auto simp: ran_def)
        from insert_rows_dom [OF ins this] show ?thesis
          using reservations_of_fields by (auto simp: ran_def reservations_stored [OF laws])
      qed
    qed (use add all in auto)
  next
    case (rejected it reason)
    let ?q = "stock_event_message ustr new 0 (clock 0) oid ''StockReservationFailed'' reason its"
    obtain b where content: "outbox_content (nv_outbox E) t' =
        (outbox_content (nv_outbox E) t)(ob_id ?q \<mapsto> (ob_event_type ?q, b))"
      and b: "same_body b (ob_payload ?q)" and fresh: "outbox_content (nv_outbox E) t (ob_id ?q) = None"
      by (rule answered_content [OF laws rejected(5)])
    have ty: "ob_event_type ?q = ''StockReservationFailed''" by (simp add: stock_event_message_def)
    have "reason \<noteq> ''''" using rejected(4) by auto
    then have ids: "event_ids parse decode_StockNotReserved b = Some (new 0, oid)"
      using answer_round_trip(2) [OF uuid] b by (simp add: stock_event_message_def)
    note add = reserved_answers_add [OF content fresh, of parse, unfolded ty ids]
    have same: "g_rows (nv_reservations E) t' = g_rows (nv_reservations E) t"
      "g_rows (nv_inventory E) t' = g_rows (nv_inventory E) t"
      using rejected(3) by (simp_all add: stock_untouched_def)
    show ?thesis
    proof (rule saga_inv_answer [OF inv req])
      show "m \<notin> inbox_ids (nv_inbox E) t" "inbox_ids (nv_inbox E) t' = insert m (inbox_ids (nv_inbox E) t)"
        using rejected(5) by (simp_all add: answered_def)
      show "inventory_wf E t'" using wf by (simp add: inventory_wf_def same)
    qed (use add same in auto)
  qed
qed

lemma saga_reserve:
  assumes uuid: "uuid_laws parse ustr" and laws: "inventory_db_laws E" and new: "\<forall>i. fst env i \<noteq> 0"
    and inv: "saga_inv D E parse (s, t)"
    and on_wire: "outbox_content (db_outbox D) s k = Some (''ReserveStockRequested'', p_body d)"
    and run: "inventory_handleMessage E B parse ustr env d (t, h) = (t', h')"
  shows "saga_inv D E parse (s, t')"
  using run [unfolded inventory_handleMessage_def]
proof (cases rule: inventory.message_cases)
  case malformed
  then show ?thesis using inv by simp
next
  case (failed m i its e)
  have "\<And>i. fst env i \<noteq> 0" using new by blast
  from saga_ReserveStock [OF uuid laws this inv requests_of_content [OF on_wire failed(1)]
      failed(2) [unfolded inventory_handle_run]] show ?thesis .
next
  case (handled m i its)
  have "\<And>i. fst env i \<noteq> 0" using new by blast
  from saga_ReserveStock [OF uuid laws this inv requests_of_content [OF on_wire handled(1)]
      handled(2) [unfolded inventory_handle_run]] show ?thesis .
qed

section \<open>Creating an order\<close>

lemma created_content:
  assumes laws: "order_db_laws D" and cr: "order_created D s ord q s'"
  obtains b where "outbox_content (db_outbox D) s' = (outbox_content (db_outbox D) s)(om_id q \<mapsto> (om_event_type q, b))"
    and "same_body b (om_payload q)" and "outbox_content (db_outbox D) s (om_id q) = None"
proof -
  let ?q = "g_stored (db_outbox D) (toOutboxDataModel q)"
  have gl: "gorm_laws outbox_schema (db_outbox D)" and cols: "outbox_columns (db_outbox D)"
    using laws by (simp_all add: order_db_laws_def outbox_laws_def)
  have key: "sc_key outbox_schema ?q = om_id q"
    using gorm_stored_key [OF gl, of "toOutboxDataModel q"] by (simp add: outbox_schema_def toOutboxDataModel_def)
  from cr have rows: "g_rows (db_outbox D) s' = (g_rows (db_outbox D) s)(om_id q \<mapsto> ?q)"
    and fresh: "g_rows (db_outbox D) s (om_id q) = None"
    using key by (auto simp: order_created_def Let_def insertable_def)
  have "outbox_content (db_outbox D) s' = (outbox_content (db_outbox D) s)(om_id q \<mapsto> (ob_event_type ?q, ob_payload ?q))"
    by (rule ext) (simp add: outbox_content_def rows)
  moreover have "ob_event_type ?q = ob_event_type (toOutboxDataModel q)"
      and "same_body (ob_payload ?q) (ob_payload (toOutboxDataModel q))"
    using cols unfolding outbox_columns_def by blast+
  then have "ob_event_type ?q = om_event_type q" and "same_body (ob_payload ?q) (om_payload q)"
    by (simp_all add: toOutboxDataModel_def)
  moreover have "outbox_content (db_outbox D) s (om_id q) = None" by (simp add: outbox_content_def fresh)
  ultimately show thesis using that by metis
qed

lemma created_requests:
  assumes uuid: "uuid_laws parse ustr" and laws: "order_db_laws D"
    and cr: "order_created D s ord (reservation_message ustr new now ord) s'"
  shows "requests D parse s' = insert (new (length (od_items ord) + 1), od_id ord, requested (od_items ord)) (requests D parse s)"
proof -
  let ?q = "reservation_message ustr new now ord"
  obtain b where content: "outbox_content (db_outbox D) s' = (outbox_content (db_outbox D) s)(om_id ?q \<mapsto> (om_event_type ?q, b))"
    and b: "same_body b (om_payload ?q)" and fresh: "outbox_content (db_outbox D) s (om_id ?q) = None"
    by (rule created_content [OF laws cr])
  have req: "request_of parse b = Some (new (length (od_items ord) + 1), od_id ord, requested (od_items ord))"
    using b by (intro request_round_trip [OF uuid]) (simp add: reservation_message_def Let_def)
  have ty: "om_event_type ?q = ''ReserveStockRequested''" by (simp add: reservation_message_def Let_def)
  have split: "outbox_content (db_outbox D) s' i = Some c \<longleftrightarrow>
      outbox_content (db_outbox D) s i = Some c \<or> i = om_id ?q \<and> c = (''ReserveStockRequested'', b)" for i c
    using content fresh ty by auto
  show ?thesis unfolding requests_def split using req by auto
qed

lemma created_ordered:
  assumes laws: "order_db_laws D" and fk: "order_fk D s" and cr: "order_created D s ord q s'"
    and ids: "\<forall>it\<in>set (od_items ord). oi_order_id it = od_id ord"
  shows "ordered D s' (od_id ord) = asked (requested (od_items ord))"
    and "oid \<noteq> od_id ord \<Longrightarrow> ordered D s' oid = ordered D s oid"
    and "order_fk D s'"
proof -
  let ?rs = "map (g_stored (db_items D)) (toOrderItemDataModels (od_items ord))"
  obtain num where st: "\<And>r. g_stored (db_items D) r =
      r\<lparr>ir_unit_price := num (ir_unit_price r), ir_subtotal := num (ir_subtotal r)\<rparr>"
    using laws unfolding order_db_laws_def order_item_columns_def by blast
  show "ordered D s' (od_id ord) = asked (requested (od_items ord))"
    unfolding ordered_def created_item_rows [OF laws fk cr ids]
    by (simp add: asked_def requested_def toOrderItemDataModels_def st image_image)
  from cr have ins: "insert_rows order_item_schema (g_rows (db_items D) s) ?rs = Some (g_rows (db_items D) s')"
    by (simp add: order_created_def Let_def)
  have mem: "ir_order_id r = od_id ord" if "r \<in> set ?rs" for r
    using that ids by (auto simp: toOrderItemDataModels_def stored_item_order [OF laws])
  have rows: "r \<in> ran (g_rows (db_items D) s) \<or> ir_order_id r = od_id ord"
    if "r \<in> ran (g_rows (db_items D) s')" for r
  proof -
    from that obtain k where "g_rows (db_items D) s' k = Some r" by (auto simp: ran_def)
    from insert_rows_dom [OF ins this] mem show ?thesis by (auto simp: ran_def)
  qed
  have grow: "ran (g_rows (db_items D) s) \<subseteq> ran (g_rows (db_items D) s')"
    using insert_rows_grow [OF ins] by (auto simp: ran_def)
  show "ordered D s' oid = ordered D s oid" if "oid \<noteq> od_id ord"
  proof -
    have "{r \<in> ran (g_rows (db_items D) s'). ir_order_id r = oid} = {r \<in> ran (g_rows (db_items D) s). ir_order_id r = oid}"
      using rows grow that by blast
    then show ?thesis by (simp add: ordered_def)
  qed
  have orders: "g_rows (db_orders D) s' = (g_rows (db_orders D) s)(od_id ord \<mapsto> g_stored (db_orders D) (toOrderDataModel ord))"
    using cr by (simp add: order_created_def Let_def)
  show "order_fk D s'"
    unfolding order_fk_def
  proof
    fix r assume "r \<in> ran (g_rows (db_items D) s')"
    with rows [OF this] fk show "g_rows (db_orders D) s' (ir_order_id r) \<noteq> None"
      by (auto simp: order_fk_def orders)
  qed
qed

lemma saga_created:
  assumes uuid: "uuid_laws parse ustr" and laws: "order_db_laws D" and inv: "saga_inv D E parse (s, t)"
    and ord: "NewOrder new now1 c items = Inr ord"
    and cr: "order_created D s ord (reservation_message ustr new now2 ord) s'"
  shows "saga_inv D E parse (s', t)"
  using inv
proof cases
  case invI
  let ?r = "(new (length (od_items ord) + 1), od_id ord, requested (od_items ord))"
  note f = NewOrder_fields [OF ord]
  have ids: "\<forall>it\<in>set (od_items ord). oi_order_id it = od_id ord"
  proof
    fix it assume "it \<in> set (od_items ord)"
    then have "oi_order_id it \<in> set (map oi_order_id (od_items ord))" by simp
    then show "oi_order_id it = od_id ord" unfolding f(1,12) by (simp add: set_replicate_conv_if split: if_splits)
  qed
  note st = status_created [OF laws cr f(3)]
  note reqs = created_requests [OF uuid laws cr]
  note os = created_ordered [OF laws invI(1) cr ids]
  have old: "oid \<noteq> od_id ord" if "(m, oid, its) \<in> requests D parse s" for m oid its
    using invI(3) [OF that] st(1) by auto
  show ?thesis
  proof (rule saga_inv.invI)
    show "order_fk D s'" by (rule os(3))
    show "inventory_wf E t" by (rule invI(2))
    show "order_status D s' oid \<noteq> None \<and> ordered D s' oid = asked its"
      if r: "(m, oid, its) \<in> requests D parse s'" for m oid its
    proof (cases "(m, oid, its) \<in> requests D parse s")
      case True
      then show ?thesis using invI(3) [OF True] old [OF True] os(2) st(2) by simp
    next
      case False
      with r reqs have "(m, oid, its) = ?r" by simp
      then show ?thesis using os(1) st(2) by simp
    qed
    show "m = m' \<and> its = its'"
      if "(m, oid, its) \<in> requests D parse s'" "(m', oid, its') \<in> requests D parse s'" for m m' oid its its'
      using that reqs old invI(4) by auto
    show "\<exists>m its. (m, oid, its) \<in> requests D parse s' \<and> m \<in> inbox_ids (nv_inbox E) t
        \<and> (\<forall>pq\<in>asked its. item_reserved E t oid pq)" if "oid \<in> reserved_answers E parse t" for oid
      using invI(5) [OF that] reqs by auto
    show "\<exists>m its. (m, oid, its) \<in> requests D parse s' \<and> m \<in> inbox_ids (nv_inbox E) t
        \<and> nothing_reserved E t oid" if "oid \<in> rejected_answers E parse t" for oid
      using invI(6) [OF that] reqs by auto
    show "\<exists>m its. (m, rv_order_id r, its) \<in> requests D parse s' \<and> m \<in> inbox_ids (nv_inbox E) t"
      if "r \<in> ran (g_rows (nv_reservations E) t)" for r
      using invI(7) [OF that] reqs by auto
    show "oid \<in> reserved_answers E parse t" if "order_status D s' oid = Some OrderStatusConfirmed" for oid
      using that st(2) invI(8) [of oid] by (auto split: if_splits)
    show "oid \<in> rejected_answers E parse t" if "order_status D s' oid = Some OrderStatusFailed" for oid
      using that st(2) invI(9) [of oid] by (auto split: if_splits)
  qed
qed

lemma saga_create:
  assumes uuid: "uuid_laws parse ustr" and laws: "order_db_laws D" and inv: "saga_inv D E parse (s, t)"
    and new: "\<forall>i. new i \<noteq> 0"
    and run: "order_CreateOrder D V parse ustr new now1 now2 s req = (res, s')"
  shows "saga_inv D E parse (s', t)"
proof -
  have "s' = s \<or> (\<exists>input r. CreateOrder D V ustr new now1 now2 s input = (r, s'))"
    using run
    by (auto simp: order_CreateOrder_def server_CreateOrder_def Let_def
        split: option.splits sum.splits prod.splits)
  then show ?thesis
  proof (elim disjE exE)
    assume "s' = s"
    then show ?thesis using inv by simp
  next
    fix input r
    assume c: "CreateOrder D V ustr new now1 now2 s input = (r, s')"
    from laws new c show ?thesis
    proof (cases rule: CreateOrder_cases)
      case (refused e)
      then show ?thesis using inv by simp
    next
      case (created ord)
      show ?thesis by (rule saga_created [OF uuid laws inv created(1,3)])
    next
      case (unchanged e)
      then have "outbox_content (db_outbox D) s' = outbox_content (db_outbox D) s"
        and "order_status D s' = order_status D s" and "g_rows (db_items D) s' = g_rows (db_items D) s"
        by (simp_all add: same_order_rows_def outbox_content_def order_status_def fun_eq_iff)
      then show ?thesis by (intro saga_inv_order_step [OF inv]) simp_all
    qed
  qed
qed

section \<open>Every run\<close>

lemma saga_step_inv:
  assumes "uuid_laws parse ustr" and "order_db_laws D" and "inventory_db_laws E"
    and "saga_step D E V parse ustr x y" and "saga_inv D E parse x"
  shows "saga_inv D E parse y"
  using assms(4)
proof cases
  case (create new now1 now2 s req res s' t)
  with assms(5) have "saga_inv D E parse (s, t)" by simp
  from saga_create [OF assms(1,2) this create(3,4)] show ?thesis unfolding create(2) .
next
  case (order_worker clock B exchange n s h s' h' t)
  with assms(5) have "saga_inv D E parse (s, t)" by simp
  from saga_order_worker [OF assms(2) this order_worker(3)] show ?thesis unfolding order_worker(2) .
next
  case (reserve s i d env B t h t' h')
  with assms(5) have "saga_inv D E parse (s, t)" by simp
  from saga_reserve [OF assms(1,3) reserve(4) this reserve(3,5)] show ?thesis unfolding reserve(2) .
next
  case (inventory_worker clock B exchange n t h t' h' s)
  with assms(5) have "saga_inv D E parse (s, t)" by simp
  from saga_inventory_worker [OF assms(3) this inventory_worker(3)] show ?thesis unfolding inventory_worker(2) .
next
  case (stock_reserved t i d new B p now s h s' h')
  with assms(5) have "saga_inv D E parse (s, t)" by simp
  from saga_confirm [OF assms(2) this stock_reserved(3,4,5)] show ?thesis unfolding stock_reserved(2) .
next
  case (stock_not_reserved t i d new B p now s h s' h')
  with assms(5) have "saga_inv D E parse (s, t)" by simp
  from saga_reject [OF assms(2) this stock_not_reserved(3,4,5)] show ?thesis unfolding stock_not_reserved(2) .
qed

lemma saga_steps_inv:
  assumes "uuid_laws parse ustr" and "order_db_laws D" and "inventory_db_laws E"
    and "(saga_step D E V parse ustr)\<^sup>*\<^sup>* x y" and "saga_inv D E parse x"
  shows "saga_inv D E parse y"
  using assms(4,5) by (induction rule: rtranclp_induct) (auto intro: saga_step_inv [OF assms(1-3)])

text \<open>The system starts with no orders, no messages and no reservations, and any well-formed stock.\<close>

definition saga_start :: "'s order_db \<Rightarrow> 't inventory_db \<Rightarrow> 's \<times> 't \<Rightarrow> bool" where
  "saga_start D E st \<longleftrightarrow> (case st of (s, t) \<Rightarrow>
     g_rows (db_orders D) s = Map.empty \<and> g_rows (db_items D) s = Map.empty
     \<and> g_rows (db_outbox D) s = Map.empty \<and> g_rows (nv_outbox E) t = Map.empty
     \<and> g_rows (nv_reservations E) t = Map.empty \<and> inventory_wf E t)"

lemma saga_start_inv:
  assumes "saga_start D E x"
  shows "saga_inv D E parse x"
proof -
  obtain s t where x: "x = (s, t)" by fastforce
  have "requests D parse s = {}" "reserved_answers E parse t = {}" "rejected_answers E parse t = {}"
    "order_status D s = (\<lambda>_. None)"
    using assms
    by (auto simp: x saga_start_def requests_def reserved_answers_def rejected_answers_def outbox_content_def
        order_status_def)
  then show ?thesis
    unfolding x using assms by (intro saga_inv.invI) (auto simp: x saga_start_def order_fk_def)
qed

end
