(* ===== verification/Gorm_Reference.thy ===== *)
theory Gorm_Reference
  imports Gorm "HOL-Library.AList"
begin

text \<open>
  A concrete table that satisfies \<open>gorm_laws\<close>: rows in a list that is a component of the
  state, read and written by \<open>get\<close> and \<open>put\<close>. It is no model of PostgreSQL; it shows that the
  laws can hold together and gives the witnesses a database to run on.
\<close>

definition ref_alist :: "'r schema \<Rightarrow> 'r list \<Rightarrow> (uuid \<times> 'r) list" where
  "ref_alist sch l = map (\<lambda>r. (sc_key sch r, r)) l"

definition ref_select :: "'r schema \<Rightarrow> 'r list \<Rightarrow> ('r \<Rightarrow> bool) \<Rightarrow> 'r list" where
  "ref_select sch l p = filter p (map snd (AList.clearjunk (ref_alist sch l)))"

fun ref_insert :: "'r schema \<Rightarrow> 'r list \<Rightarrow> 'r list \<Rightarrow> 'r list option" where
  "ref_insert sch l [] = Some l"
| "ref_insert sch l (r # rs) =
     (if sc_check sch r \<and> list_all (\<lambda>r'. sc_key sch r' \<noteq> sc_key sch r \<and> \<not> sc_conflict sch r r') l
      then ref_insert sch (r # l) rs else None)"

definition ref_gorm ::
  "'r schema \<Rightarrow> ('s \<Rightarrow> 'r list) \<Rightarrow> ('r list \<Rightarrow> 's \<Rightarrow> 's) \<Rightarrow> ('s, 'r) gorm" where
  "ref_gorm sch get put =
     \<lparr>g_rows = (\<lambda>s. map_of (ref_alist sch (get s))),
      g_stored = (\<lambda>r. r),
      g_assigned = (\<lambda>r r'. r'),
      g_create = (\<lambda>s rs. case ref_insert sch (get s) rs of
          None \<Rightarrow> (Some (Ext ''constraint violation''), s)
        | Some l \<Rightarrow> (None, put l s)),
      g_updates = (\<lambda>s p f.
          if list_all (\<lambda>r. p r \<longrightarrow> sc_check sch (f r)) (get s)
          then (None, put (map (\<lambda>r. if p r then f r else r) (get s)) s)
          else (Some (Ext ''constraint violation''), s)),
      g_count = (\<lambda>s p. Inr (int (length (ref_select sch (get s) p)))),
      g_first = (\<lambda>s p. case ref_select sch (get s) p of
          [] \<Rightarrow> Inl ErrRecordNotFound | r # _ \<Rightarrow> Inr r),
      g_find = (\<lambda>s p. Inr (ref_select sch (get s) p)),
      g_find_ordered = (\<lambda>s p key n. Inr (take n (sort_key key (ref_select sch (get s) p))))\<rparr>"

definition ref_tx :: "'s \<Rightarrow> 's act \<Rightarrow> err option \<times> 's" where
  "ref_tx s f = (case f s of (None, s') \<Rightarrow> (None, s') | (Some e, _) \<Rightarrow> (Some e, s))"

lemma ref_alist_simps [simp]:
  "ref_alist sch [] = []"
  "ref_alist sch (r # l) = (sc_key sch r, r) # ref_alist sch l"
  by (simp_all add: ref_alist_def)

lemma ref_alist_key: "map_of (ref_alist sch l) k = Some r \<Longrightarrow> sc_key sch r = k \<and> r \<in> set l"
  by (induction l) (auto split: if_splits)

lemma ref_alist_None: "map_of (ref_alist sch l) k = None \<longleftrightarrow> (\<forall>r\<in>set l. sc_key sch r \<noteq> k)"
  by (induction l) auto

lemma ran_ref_alist: "ran (map_of (ref_alist sch l)) \<subseteq> set l"
  by (auto simp: ran_def dest: ref_alist_key)

lemma ref_insert_rows:
  "ref_insert sch l rs = Some l' \<Longrightarrow>
     insert_rows sch (map_of (ref_alist sch l)) rs = Some (map_of (ref_alist sch l'))"
proof (induction rs arbitrary: l)
  case Nil
  then show ?case by simp
next
  case (Cons r rs)
  then have ok: "sc_check sch r" "\<forall>r'\<in>set l. sc_key sch r' \<noteq> sc_key sch r \<and> \<not> sc_conflict sch r r'"
    and rest: "ref_insert sch (r # l) rs = Some l'"
    by (auto simp: list_all_iff split: if_splits)
  from ok have "insertable sch (map_of (ref_alist sch l)) r"
    using ran_ref_alist [of sch l] by (auto simp: insertable_def ref_alist_None)
  with Cons.IH [OF rest] show ?case by (simp add: fun_upd_def)
qed

lemma ref_update_rows:
  assumes "\<And>r. sc_key sch (f r) = sc_key sch r"
  shows "map_of (ref_alist sch (map (\<lambda>r. if p r then f r else r) l))
    = update_rows (map_of (ref_alist sch l)) p f"
  by (induction l) (auto simp: update_rows_def assms fun_eq_iff)

lemma lists_rows_ref_select: "lists_rows (map_of (ref_alist sch l)) p (ref_select sch l p)"
proof -
  let ?c = "AList.clearjunk (ref_alist sch l)"
  let ?ks = "map fst (filter (p \<circ> snd) ?c)"
  have d: "distinct (map fst ?c)" by (rule distinct_clearjunk)
  have m: "map_of ?c = map_of (ref_alist sch l)" by (rule map_of_clearjunk)
  have ks: "distinct ?ks" using d by (rule distinct_map_filter)
  have look: "map_of (ref_alist sch l) k = Some r \<longleftrightarrow> (k, r) \<in> set ?c" for k r
    using d m map_of_eq_Some_iff by metis
  have set: "set ?ks = {k. \<exists>r. map_of (ref_alist sch l) k = Some r \<and> p r}"
    by (force simp: look)
  have "map (the \<circ> map_of (ref_alist sch l)) ?ks = map snd (filter (p \<circ> snd) ?c)"
    using look by (auto simp: comp_def) (metis option.sel)
  then have "ref_select sch l p = map (the \<circ> map_of (ref_alist sch l)) ?ks"
    by (simp add: ref_select_def filter_map)
  with ks set show ?thesis unfolding lists_rows_def by blast
qed

lemma insort_key_map: "insort_key key (g x) (map g xs) = map g (insort_key (key \<circ> g) x xs)"
  by (induction xs) auto

lemma sort_key_map: "sort_key key (map g xs) = map g (sort_key (key \<circ> g) xs)"
proof (induction xs)
  case Nil
  show ?case by simp
next
  case (Cons x xs)
  have "sort_key key (map g (x # xs)) = insort_key key (g x) (sort_key key (map g xs))" by simp
  also have "\<dots> = map g (insort_key (key \<circ> g) x (sort_key (key \<circ> g) xs))"
    by (simp only: Cons.IH insort_key_map)
  finally show ?case by (simp add: comp_def)
qed

lemma lists_rows_sort:
  assumes "lists_rows m p xs"
  shows "lists_rows m p (sort_key key xs)"
proof -
  from assms obtain ks where ks: "distinct ks" "set ks = {k. \<exists>r. m k = Some r \<and> p r}"
    and xs: "xs = map (the \<circ> m) ks" unfolding lists_rows_def by blast
  have "sort_key key xs = map (the \<circ> m) (sort_key (key \<circ> (the \<circ> m)) ks)"
    unfolding xs by (rule sort_key_map)
  moreover have "distinct (sort_key (key \<circ> (the \<circ> m)) ks)"
    and "set (sort_key (key \<circ> (the \<circ> m)) ks) = {k. \<exists>r. m k = Some r \<and> p r}"
    using ks by simp_all
  ultimately show ?thesis unfolding lists_rows_def by blast
qed

lemma ref_select_set:
  "set (ref_select sch l p) = {r \<in> ran (map_of (ref_alist sch l)). p r}"
  by (rule lists_rows_set [OF lists_rows_ref_select])

lemma ref_select_Nil:
  assumes "ref_select sch l p = []"
  shows "\<forall>r\<in>ran (map_of (ref_alist sch l)). \<not> p r"
  using ref_select_set [of sch l p] assms by auto

lemma ref_select_Cons:
  assumes "ref_select sch l p = r # rs"
  shows "r \<in> ran (map_of (ref_alist sch l)) \<and> p r"
  using ref_select_set [of sch l p] assms by auto

lemma ref_query_law: "query_law (ref_gorm sch get put)"
  unfolding query_law_def
proof (intro conjI allI impI)
  let ?T = "ref_gorm sch get put"
  fix s :: 'a and p :: "'b \<Rightarrow> bool"
  fix n assume "g_count ?T s p = Inr n"
  then show "finite (dom (g_rows ?T s))"
    and "n = int (card {k. \<exists>r. g_rows ?T s k = Some r \<and> p r})"
    by (simp_all add: ref_gorm_def finite_dom_map_of
        lists_rows_length [OF lists_rows_ref_select])
next
  let ?T = "ref_gorm sch get put"
  fix s :: 'a and p :: "'b \<Rightarrow> bool" and r
  assume "g_first ?T s p = Inr r"
  then show "r \<in> ran (g_rows ?T s)" and "p r"
    by (auto simp: ref_gorm_def dest: ref_select_Cons split: list.splits)
next
  let ?T = "ref_gorm sch get put"
  fix s :: 'a and p :: "'b \<Rightarrow> bool" and e
  assume "g_first ?T s p = Inl e"
  then have "ref_select sch (get s) p = []" by (auto simp: ref_gorm_def split: list.splits)
  then show "\<forall>r\<in>ran (g_rows ?T s). \<not> p r" by (simp add: ref_gorm_def ref_select_Nil)
next
  let ?T = "ref_gorm sch get put"
  fix s :: 'a and p :: "'b \<Rightarrow> bool" and xs
  assume "g_find ?T s p = Inr xs"
  then show "lists_rows (g_rows ?T s) p xs"
    using lists_rows_ref_select [of sch "get s" p] by (simp add: ref_gorm_def)
next
  let ?T = "ref_gorm sch get put"
  fix s :: 'a and p :: "'b \<Rightarrow> bool" and key :: "'b \<Rightarrow> time" and n xs
  assume "g_find_ordered ?T s p key n = Inr xs"
  then have "xs = take n (sort_key key (ref_select sch (get s) p))" by (simp add: ref_gorm_def)
  moreover have "lists_rows (g_rows ?T s) p (sort_key key (ref_select sch (get s) p))"
    using lists_rows_sort [OF lists_rows_ref_select] by (simp add: ref_gorm_def)
  ultimately show "\<exists>ys. lists_rows (g_rows ?T s) p ys \<and> sorted (map key ys) \<and> xs = take n ys"
    using sorted_sort_key by blast
qed

theorem ref_gorm_laws:
  assumes get_put: "\<And>l s. get (put l s) = l"
  shows "gorm_laws sch (ref_gorm sch get put)"
proof -
  let ?T = "ref_gorm sch get put"
  have "create_law sch ?T"
    by (auto simp: create_law_def ref_gorm_def get_put ref_insert_rows split: option.splits)
  moreover have "updates_law sch ?T"
    unfolding updates_law_def
  proof (intro allI impI)
    fix s p f e s'
    assume run: "g_updates ?T s p f = (e, s')" and key: "\<forall>r. sc_key sch (f r) = sc_key sch r"
    show "(updatable sch (g_rows ?T s) p (assign_row ?T f)
         \<and> g_rows ?T s' = update_rows (g_rows ?T s) p (assign_row ?T f))
       \<or> (e \<noteq> None \<and> g_rows ?T s' = g_rows ?T s)"
    proof (cases "list_all (\<lambda>r. p r \<longrightarrow> sc_check sch (f r)) (get s)")
      case True
      then have upd: "updatable sch (map_of (ref_alist sch (get s))) p f"
        using ran_ref_alist [of sch "get s"] by (auto simp: updatable_def list_all_iff)
      have "assign_row ?T f = f" by (simp add: assign_row_def ref_gorm_def fun_eq_iff)
      with True run key upd show ?thesis
        by (auto simp: ref_gorm_def get_put ref_update_rows)
    next
      case False
      with run show ?thesis by (auto simp: ref_gorm_def)
    qed
  qed
  moreover have "query_law ?T" by (rule ref_query_law)
  moreover have "key_law sch ?T"
    by (auto simp: key_law_def ref_gorm_def dest: ref_alist_key)
  ultimately show ?thesis by (simp add: gorm_laws_def)
qed

lemma ref_gorm_frame:
  assumes "\<And>l s. get' (put l s) = get' s"
  shows "gorm_frame (ref_gorm sch get put) (ref_gorm sch' get' put')"
  using assms by (auto simp: gorm_frame_def ref_gorm_def split: option.splits)

lemma ref_tx_laws: "(\<And>s. same s s) \<Longrightarrow> tx_laws same ref_tx"
  unfolding tx_laws_def ref_tx_def by (auto split: prod.splits option.splits)

end
