(* ===== verification/Amqp_Reference.thy ===== *)
theory Amqp_Reference
  imports Amqp
begin

text \<open>A broker that accepts every call, and deliveries with a given body, for the witnesses.\<close>

definition ok_broker :: amqp where
  "ok_broker = \<lparr>reply_err = (\<lambda>h. None), reply_acked = (\<lambda>h. True), reply_return = (\<lambda>h. NoReturn),
     reply_queue = (\<lambda>h. ''queue'')\<rparr>"

definition delivery_of :: "nat \<Rightarrow> body \<Rightarrow> delivery" where
  "delivery_of tag b =
     \<lparr>p_headers = None, p_content_type = ''application/json'', p_content_encoding = '''',
      p_persistent = True, p_priority = 0, p_correlation_id = '''', p_reply_to = '''',
      p_message_id = '''', p_timestamp = 0, p_type = '''', p_app_id = '''', p_body = b, d_tag = tag\<rparr>"

end
