(* ===== verification/Order_Properties.thy ===== *)
theory Order_Properties
  imports Order_System Gorm_Reference Amqp_Reference
begin

text \<open>
  The properties of the order service, each with a witness on a concrete database: the reference
  tables of \<open>Gorm_Reference\<close>, empty or holding one order.
\<close>

section \<open>A database to run on\<close>

record order_store =
  os_orders :: "order_row list"
  os_items :: "order_item_row list"
  os_outbox :: "outbox_row list"
  os_inbox :: "inbox_row list"

definition ref_order_db :: "order_store order_db" where
  "ref_order_db =
     \<lparr>db_orders = ref_gorm order_schema os_orders (\<lambda>l s. s\<lparr>os_orders := l\<rparr>),
      db_items = ref_gorm order_item_schema os_items (\<lambda>l s. s\<lparr>os_items := l\<rparr>),
      db_outbox = ref_gorm outbox_schema os_outbox (\<lambda>l s. s\<lparr>os_outbox := l\<rparr>),
      db_inbox = ref_gorm inbox_schema os_inbox (\<lambda>l s. s\<lparr>os_inbox := l\<rparr>),
      db_tx = ref_tx\<rparr>"

lemma ref_order_columns: "order_columns (ref_gorm sch get put)"
  unfolding order_columns_def ref_gorm_def
  by (intro exI [of _ "\<lambda>x. x"]) (simp add: numeric_12_2_def)

lemma ref_order_item_columns: "order_item_columns (ref_gorm sch get put)"
  unfolding order_item_columns_def ref_gorm_def
  by (intro exI [of _ "\<lambda>x. x"]) (simp add: numeric_12_2_def)

lemma ref_order_db_laws: "order_db_laws ref_order_db"
  by (simp add: order_db_laws_def ref_order_db_def ref_gorm_laws ref_gorm_frame ref_tx_laws
      ref_order_columns ref_order_item_columns outbox_laws_def inbox_laws_def outbox_columns_def
      inbox_columns_def same_order_rows_def)
    (simp add: ref_gorm_def)

definition empty_orders :: order_store where
  "empty_orders = \<lparr>os_orders = [], os_items = [], os_outbox = [], os_inbox = []\<rparr>"

definition a_request :: CreateOrderRequest where
  "a_request = \<lparr>cr_customer_id = ''42'', cr_items =
     [\<lparr>cq_product_id = ''7'', cq_product_name = ''pen'', cq_unit_price = Fin 3, cq_quantity = 2\<rparr>]\<rparr>"

definition ids :: "nat \<Rightarrow> uuid" where
  "ids i = (if i = 0 then 200 else if i = 1 then 201 else if i = 2 then 100 else 202)"

lemma ids_nonzero: "\<forall>i. ids i \<noteq> 0"
  by (simp add: ids_def)

definition create_run :: "(err + proto_order) \<times> order_store" where
  "create_run = order_CreateOrder ref_order_db ref_ozzo ref_parse ref_ustr ids 0 0 empty_orders a_request"

lemma create_run_eq:
  "order_CreateOrder ref_order_db ref_ozzo ref_parse ref_ustr ids 0 0 empty_orders a_request
     = (fst create_run, snd create_run)"
  by (simp add: create_run_def)

section \<open>Creating an order\<close>

text \<open>
  C3: A call of CreateOrder has one of three outcomes. A request that is not well formed
  (an unreadable UUID, no items, an empty name, a price that is not at least 0, a quantity
  below 1) is refused as InvalidArgument and changes nothing. Otherwise either one
  transaction stores the order as PENDING under a fresh id, with exactly the items asked for,
  together with one event that asks for their reservation, and the answer is the order (or,
  when only the commit's reply was lost, a status); or nothing is stored and the answer is a
  status. No failure leaves an order without its event or an event without its order.
\<close>

theorem create_order_atomic:
  assumes "order_db_laws D" and "ozzo_laws V" and "\<forall>i. new i \<noteq> 0"
    and "order_CreateOrder D V parse ustr new now1 now2 s req = (res, s')"
  shows "(\<not> request_ok parse req \<and> s' = s \<and> (\<exists>m. res = Inl (Status InvalidArgument m)))
    \<or> (request_ok parse req \<and> (\<exists>ord. order_created D s ord (reservation_message ustr new now2 ord) s'
        \<and> od_status ord = OrderStatusPending
        \<and> parse (cr_customer_id req) = Some (od_customer_id ord)
        \<and> map (Some \<circ> oi_product_id) (od_items ord) = map (parse \<circ> cq_product_id) (cr_items req)
        \<and> map oi_product_name (od_items ord) = map cq_product_name (cr_items req)
        \<and> map oi_unit_price (od_items ord) = map cq_unit_price (cr_items req)
        \<and> map oi_quantity (od_items ord) = map (to_int \<circ> cq_quantity) (cr_items req)
        \<and> (res = Inr (toProtoOrder ustr ord) \<or> (\<exists>c m. res = Inl (Status c m)))))
    \<or> (request_ok parse req \<and> same_order_rows D s s' \<and> (\<exists>c m. res = Inl (Status c m)))"
proof -
  have status: "\<exists>c m. serviceError e Internal = Status c m" for e by (simp add: serviceError_def)
  from assms show ?thesis
  proof (cases rule: order_CreateOrder_cases)
    case (invalid m)
    then show ?thesis by blast
  next
    case (created ord)
    then have "res = Inr (toProtoOrder ustr ord) \<or> (\<exists>c m. res = Inl (Status c m))" using status by metis
    then show ?thesis using created(1-3) unfolding order_matches_def by blast
  next
    case (unchanged e)
    then show ?thesis using status by metis
  qed
qed

theorem create_order_atomic_witness:
  "request_ok ref_parse a_request \<and> map or_status (os_orders (snd create_run)) = [''PENDING''] \<and>
   (\<exists>ord. order_created ref_order_db empty_orders ord (reservation_message ref_ustr ids 0 ord) (snd create_run))"
proof -
  have ok: "request_ok ref_parse a_request"
    by code_simp
  have st: "map or_status (os_orders (snd create_run)) = [''PENDING'']" by code_simp
  then have "\<not> same_order_rows ref_order_db empty_orders (snd create_run)"
    by (auto simp: same_order_rows_def ref_order_db_def ref_gorm_def empty_orders_def map_eq_Cons_conv
        fun_eq_iff)
  then show ?thesis
    using create_order_atomic [OF ref_order_db_laws ref_ozzo_laws ids_nonzero create_run_eq] ok st by blast
qed

text \<open>
  C20: An order's total is the sum of its items, in order: the subtotal of each item is its price
  times its quantity, and the total adds the subtotals from the first to the last. For items that
  validation accepts with quantities up to \<open>2 ^ 53\<close>, the total is at least 0; and where the prices
  are whole numbers and the exact total is at most \<open>2 ^ 53\<close>, the total is exact.
\<close>

theorem order_total:
  assumes "NewOrder new now customer items = Inr ord"
    and "\<forall>it\<in>set items. f_nonneg (oi_unit_price it) \<and> 1 \<le> sint (oi_quantity it) \<and> sint (oi_quantity it) \<le> 2 ^ 53"
  shows "od_total_amount ord = foldl f_add (Zero False) (map oi_subtotal (od_items ord))
    \<and> map oi_subtotal (od_items ord) = map item_cost items
    \<and> f_nonneg (od_total_amount ord)
    \<and> (\<forall>price. (\<forall>it\<in>set items. oi_unit_price it = whole (price it) \<and> 0 \<le> price it) \<longrightarrow>
        sum_list (map (\<lambda>it. price it * sint (oi_quantity it)) items) \<le> 2 ^ 53 \<longrightarrow>
        od_total_amount ord = whole (sum_list (map (\<lambda>it. price it * sint (oi_quantity it)) items)))"
proof (intro conjI allI impI)
  note f = NewOrder_fields [OF assms(1)]
  show "od_total_amount ord = foldl f_add (Zero False) (map oi_subtotal (od_items ord))"
    and "map oi_subtotal (od_items ord) = map item_cost items" using f(6,7) by simp_all
  show "f_nonneg (od_total_amount ord)"
    unfolding f(6) using assms(2) item_cost_nonneg by (intro foldl_f_add_nonneg) auto
  fix price
  assume whole: "\<forall>it\<in>set items. oi_unit_price it = whole (price it) \<and> 0 \<le> price it"
    and sum: "sum_list (map (\<lambda>it. price it * sint (oi_quantity it)) items) \<le> 2 ^ 53"
  let ?cost = "\<lambda>it. price it * sint (oi_quantity it)"
  have pos: "0 \<le> ?cost it" if "it \<in> set items" for it
    using whole assms(2) that by (intro mult_nonneg_nonneg) auto
  have "?cost it \<le> 2 ^ 53" if "it \<in> set items" for it
  proof -
    have "?cost it \<le> sum_list (map ?cost items)"
      using that pos by (intro member_le_sum_list) auto
    with sum show ?thesis by simp
  qed
  then have "map item_cost items = map whole (map ?cost items)"
    using whole assms(2) by (simp add: item_cost_whole)
  moreover have "foldl f_add (whole 0) (map whole (map ?cost items)) = whole (0 + sum_list (map ?cost items))"
    using pos sum by (intro foldl_f_add_whole) auto
  moreover have z: "whole 0 = Zero False" by (simp add: whole_def)
  ultimately show "od_total_amount ord = whole (sum_list (map ?cost items))"
    unfolding f(6) by (simp only: z add_0)
qed

definition two_items :: "order_item list" where
  "two_items = order_items_of
     [\<lparr>ci_product_id = 7, ci_product_name = ''pen'', ci_unit_price = whole 3, ci_quantity = 2\<rparr>,
      \<lparr>ci_product_id = 8, ci_product_name = ''ink'', ci_unit_price = whole 10, ci_quantity = 1\<rparr>]"

theorem order_total_witness:
  "\<exists>ord. NewOrder ids 0 42 two_items = Inr ord \<and> od_total_amount ord = whole 16"
proof -
  obtain ord where ord: "NewOrder ids 0 42 two_items = Inr ord" using NewOrder_Inr by blast
  have ok: "\<forall>it\<in>set two_items. f_nonneg (oi_unit_price it) \<and> 1 \<le> sint (oi_quantity it) \<and> sint (oi_quantity it) \<le> 2 ^ 53"
    by (simp add: two_items_def order_items_of_def whole_def)
  let ?price = "\<lambda>it. if oi_product_id it = 7 then (3::int) else 10"
  have "\<forall>it\<in>set two_items. oi_unit_price it = whole (?price it) \<and> 0 \<le> ?price it"
    and "sum_list (map (\<lambda>it. ?price it * sint (oi_quantity it)) two_items) = 16"
    by (simp_all add: two_items_def order_items_of_def)
  with order_total [OF ord ok] ord show ?thesis by auto
qed

text \<open>
  C12: Every step of the order service, be it a request, a delivery to a consumer or a pass of the
  outbox worker, with whatever failures, moves each order at most one step along its life: an
  order appears as PENDING, and a PENDING order becomes CONFIRMED or FAILED.
\<close>

theorem order_step_refines_life:
  assumes "order_db_laws D" and "order_step D V parse ustr B p s s'"
  shows "order_life\<^sup>=\<^sup>= (order_status D s i) (order_status D s' i)"
  by (rule order_step_status [OF assms])

definition stock_body :: body where
  "stock_body = Doc (JObj [(''message_id'', JStr ''55''), (''order_id'', JStr ''200'')])"

definition stock_delivery :: delivery where
  "stock_delivery = delivery_of 1 stock_body"

definition a_policy :: retryPolicy where
  "a_policy = newRetryPolicy ''inventory'' ''stock.reserved'' ''orders'' 3 5000000000"

definition confirm_run :: "order_store \<times> chan" where
  "confirm_run = stockReserved_handleMessage ref_order_db ok_broker a_policy ref_parse 300 9 stock_delivery
     (snd create_run, [])"

lemma confirm_step:
  "order_step ref_order_db ref_ozzo ref_parse ref_ustr ok_broker a_policy (snd create_run) (fst confirm_run)"
  by (rule order_step.reserved [of 300 _ _ _ _ 9 stock_delivery _ "[]" _ "snd confirm_run"])
    (simp_all add: confirm_run_def)

lemma create_step:
  "order_step ref_order_db ref_ozzo ref_parse ref_ustr ok_broker a_policy empty_orders (snd create_run)"
  by (rule order_step.create [OF ids_nonzero create_run_eq])

lemma confirm_status: "map or_status (os_orders (fst confirm_run)) = [''CONFIRMED'']"
  by code_simp

lemma single_row_status:
  "map or_id (os_orders s) = [i] \<Longrightarrow> map or_status (os_orders s) = [st] \<Longrightarrow>
     order_status ref_order_db s i = Some st"
  by (cases "os_orders s")
    (auto simp: order_status_def ref_order_db_def ref_gorm_def order_schema_def)

lemma confirmed_200: "order_status ref_order_db (fst confirm_run) 200 = Some OrderStatusConfirmed"
proof (rule single_row_status)
  show "map or_id (os_orders (fst confirm_run)) = [200]" by code_simp
  show "map or_status (os_orders (fst confirm_run)) = [OrderStatusConfirmed]"
    by (simp add: confirm_status OrderStatusConfirmed_def)
qed

lemma pending_200: "order_status ref_order_db (snd create_run) 200 = Some OrderStatusPending"
proof (rule single_row_status)
  show "map or_id (os_orders (snd create_run)) = [200]" by code_simp
  show "map or_status (os_orders (snd create_run)) = [OrderStatusPending]" by code_simp
qed

theorem order_step_refines_life_witness:
  "order_life\<^sup>=\<^sup>= (Some OrderStatusPending) (Some OrderStatusConfirmed)"
  using order_step_refines_life [OF ref_order_db_laws confirm_step, of 200] confirmed_200 pending_200 by simp

text \<open>
  C13: A settled order stays as it is. Once an order is CONFIRMED or FAILED, it keeps that status
  through every later run of the service, whatever events are repeated, late or contradictory.
\<close>

theorem settled_order_final:
  assumes "order_db_laws D" and "(order_step D V parse ustr B p)\<^sup>*\<^sup>* s s'"
    and "order_status D s i = Some OrderStatusConfirmed \<or> order_status D s i = Some OrderStatusFailed"
  shows "order_status D s' i = order_status D s i"
  by (rule order_life_final [OF order_steps_life [OF assms(1,2)] assms(3)])

definition late_run :: "order_store \<times> chan" where
  "late_run = stockNotReserved_handleMessage ref_order_db ok_broker a_policy ref_parse 301 9
     (stock_delivery\<lparr>p_body := Doc (JObj [(''message_id'', JStr ''56''), (''order_id'', JStr ''200'')])\<rparr>)
     (fst confirm_run, [])"

theorem settled_order_final_witness:
  "order_status ref_order_db (fst late_run) 200 = Some OrderStatusConfirmed"
proof -
  have "order_step ref_order_db ref_ozzo ref_parse ref_ustr ok_broker a_policy (fst confirm_run) (fst late_run)"
    by (rule order_step.not_reserved [of 301 _ _ _ _ 9
          "stock_delivery\<lparr>p_body := Doc (JObj [(''message_id'', JStr ''56''), (''order_id'', JStr ''200'')])\<rparr>" _ "[]" _ "snd late_run"])
      (simp_all add: late_run_def)
  then show ?thesis
    using settled_order_final [OF ref_order_db_laws r_into_rtranclp, of ref_ozzo ref_parse ref_ustr ok_broker
        a_policy "fst confirm_run" "fst late_run" 200] confirmed_200 by simp
qed

text \<open>
  C7: Confirming an order is idempotent and survives failures. Let a StockReserved message be
  handled any number of times, each attempt failing or not at any of its statements; once an
  attempt returns no error, exactly the order named by the message has moved, from PENDING to
  CONFIRMED, as one undisturbed attempt would have done, and the message is recorded.
\<close>

theorem confirm_order_converges:
  assumes "order_db_laws D" and "m \<notin> order_inbox D s"
    and "(\<lambda>u v. \<exists>new now e. new \<noteq> 0 \<and> HandleConfirmOrder D new now i m b u = (e, v))\<^sup>*\<^sup>* s s1"
    and "new \<noteq> 0" and "HandleConfirmOrder D new now i m b s1 = (None, s')"
  shows "order_status D s' = settle_status OrderStatusConfirmed (order_status D s) i \<and> m \<in> order_inbox D s'"
proof -
  have "(\<lambda>u v. \<exists>env e. fst env \<noteq> (0::uuid) \<and> handle_settlement (IsProcessed D) (ConfirmOrder D (snd env))
      (SaveProcessed D (fst env) (snd env)) ''StockReserved'' i m b u = (e, v))\<^sup>*\<^sup>* s s1"
    using assms(3)
  proof (rule rtranclp_mono [THEN predicate2D, rotated])
    show "(\<lambda>u v. \<exists>new now e. new \<noteq> 0 \<and> HandleConfirmOrder D new now i m b u = (e, v))
      \<le> (\<lambda>u v. \<exists>env e. fst env \<noteq> (0::uuid) \<and> handle_settlement (IsProcessed D) (ConfirmOrder D (snd env))
          (SaveProcessed D (fst env) (snd env)) ''StockReserved'' i m b u = (e, v))"
      by (auto simp: HandleConfirmOrder_def)
  qed
  from confirming.attempts_converge [OF assms(1,2) _ this _ assms(5) [unfolded HandleConfirmOrder_run]] assms(4)
  show ?thesis by simp
qed

theorem confirm_order_converges_witness:
  "order_status ref_order_db (snd (HandleConfirmOrder ref_order_db 300 9 200 55 stock_body (snd create_run))) 200
     = Some OrderStatusConfirmed"
proof -
  have unseen: "(55::uuid) \<notin> order_inbox ref_order_db (snd create_run)"
  proof -
    have "os_inbox (snd create_run) = []"
    proof -
      have "length (os_inbox (snd create_run)) = 0" by code_simp
      then show ?thesis by simp
    qed
    then show ?thesis by (simp add: order_inbox_def inbox_ids_def ref_order_db_def ref_gorm_def)
  qed
  have "fst (HandleConfirmOrder ref_order_db 300 9 200 55 stock_body (snd create_run)) = None" by code_simp
  then have run: "HandleConfirmOrder ref_order_db 300 9 200 55 stock_body (snd create_run)
      = (None, snd (HandleConfirmOrder ref_order_db 300 9 200 55 stock_body (snd create_run)))"
    by (metis prod.collapse)
  show ?thesis
    using confirm_order_converges [OF ref_order_db_laws unseen rtranclp.rtrancl_refl _ run] pending_200
    by (simp add: settle_status_def)
qed

text \<open>
  C19: An order that was created is read back as it was. When its amounts are whole numbers that
  fit the NUMERIC(12, 2) columns, a GetOrder that succeeds on the state CreateOrder left returns
  the same customer, status, total and items.
\<close>

theorem created_order_read_back:
  assumes "order_db_laws D" and "order_fk D s" and "whole_order ord"
    and "NewOrder new now1 customer items = Inr ord"
    and "order_created D s ord message s'" and "GetOrder D s' (od_id ord) = Inr ord'"
  shows "od_id ord' = od_id ord \<and> od_customer_id ord' = od_customer_id ord
    \<and> od_status ord' = OrderStatusPending \<and> od_total_amount ord' = od_total_amount ord
    \<and> set (od_items ord') = set (od_items ord)"
proof -
  note f = NewOrder_fields [OF assms(4)]
  have its: "\<forall>it\<in>set (od_items ord). oi_order_id it = od_id ord"
  proof
    fix it assume "it \<in> set (od_items ord)"
    then have "oi_order_id it \<in> set (map oi_order_id (od_items ord))" by simp
    then show "oi_order_id it = od_id ord" unfolding f(1,12) by (simp add: set_replicate_conv_if split: if_splits)
  qed
  have w: "\<forall>it\<in>set (od_items ord). whole_amount (oi_unit_price it) \<and> whole_amount (oi_subtotal it)"
    and t: "whole_amount (od_total_amount ord)" using assms(3) by (simp_all add: whole_order_def)
  obtain r rows where r: "g_rows (db_orders D) s' (od_id ord) = Some r"
    and rows: "set rows = {q \<in> ran (g_rows (db_items D) s'). ir_order_id q = od_id ord}"
    and ord': "ord' = toDomainOrder r rows"
    by (rule GetOrder_Inr [OF assms(1,6)])
  have "r = g_stored (db_orders D) (toOrderDataModel ord)"
    using assms(5) r by (simp add: order_created_def Let_def)
  moreover have "set rows = set (toOrderItemDataModels (od_items ord))"
    unfolding rows created_item_rows [OF assms(1,2,5) its] stored_items_whole [OF assms(1) w] by simp
  then have "set (toDomainOrderItems rows) = set (toDomainOrderItems (toOrderItemDataModels (od_items ord)))"
    by (simp add: toDomainOrderItems_def)
  then have "set (toDomainOrderItems rows) = set (od_items ord)" by (simp only: domain_items_inverse)
  ultimately show ?thesis
    using stored_order_whole [OF assms(1) t] f(3) by (simp add: ord' toDomainOrder_def)
qed

definition pen_order :: order where
  "pen_order = (case NewOrder ids 0 42 (take 1 two_items) of Inr ord \<Rightarrow> ord | Inl e \<Rightarrow> undefined)"

definition pen_run :: "err option \<times> order_store" where
  "pen_run = CreateWithOutbox ref_order_db empty_orders pen_order (reservation_message ref_ustr ids 0 pen_order)"

lemma pen_new: "NewOrder ids 0 42 (take 1 two_items) = Inr pen_order"
  using NewOrder_Inr [of ids 0 42 "take 1 two_items"] by (auto simp: pen_order_def)

lemma pen_created:
  "order_created ref_order_db empty_orders pen_order (reservation_message ref_ustr ids 0 pen_order) (snd pen_run)"
proof -
  note f = NewOrder_fields [OF pen_new]
  have keys: "create_keys pen_order (reservation_message ref_ustr ids 0 pen_order)"
  proof -
    have "\<forall>x\<in>set (map oi_id (od_items pen_order)). x \<noteq> 0" unfolding f(13) using ids_nonzero by auto
    then show ?thesis using f(1) ids_nonzero by (simp add: create_keys_def reservation_message_def Let_def)
  qed
  have "fst pen_run = None" by code_simp
  then have run: "CreateWithOutbox ref_order_db empty_orders pen_order (reservation_message ref_ustr ids 0 pen_order)
      = (None, snd pen_run)" unfolding pen_run_def by (metis prod.collapse)
  show ?thesis
    using ref_order_db_laws keys run by (cases rule: CreateWithOutbox_cases) simp_all
qed

theorem created_order_read_back_witness:
  "\<exists>ord'. GetOrder ref_order_db (snd pen_run) 200 = Inr ord' \<and> od_total_amount ord' = od_total_amount pen_order"
proof -
  note f = NewOrder_fields [OF pen_new]
  have w2: "whole_amount (whole n)" if "\<bar>n\<bar> < 10 ^ 10" for n using that by (auto simp: whole_amount_def)
  have cost: "map item_cost (take 1 two_items) = [whole 6]"
    using item_cost_whole [of "hd two_items" 3] by (simp add: two_items_def order_items_of_def)
  have tot: "od_total_amount pen_order = whole 6"
    unfolding f(6) cost by (simp add: whole_def)
  have "\<forall>x\<in>set (map oi_subtotal (od_items pen_order)). whole_amount x" unfolding f(7) cost using w2 [of 6] by simp
  moreover have "\<forall>x\<in>set (map oi_unit_price (od_items pen_order)). whole_amount x"
    unfolding f(10) using w2 [of 3] by (simp add: two_items_def order_items_of_def)
  ultimately have whole: "whole_order pen_order" using tot w2 [of 6] by (simp add: whole_order_def)
  have fk: "order_fk ref_order_db empty_orders"
    by (simp add: order_fk_def ref_order_db_def ref_gorm_def empty_orders_def)
  have "case GetOrder ref_order_db (snd pen_run) 200 of Inr ord' \<Rightarrow> True | Inl e \<Rightarrow> False" by code_simp
  then obtain ord' where get: "GetOrder ref_order_db (snd pen_run) 200 = Inr ord'" by (auto split: sum.splits)
  have id: "od_id pen_order = 200" using f(1) by (simp add: ids_def)
  show ?thesis
    using created_order_read_back [OF ref_order_db_laws fk whole pen_new pen_created get [folded id]] get by blast
qed

end
