(* ===== verification/Inventory_Properties.thy ===== *)
theory Inventory_Properties
  imports Inventory_Consumer Gorm_Reference Ozzo Amqp_Reference
begin

text \<open>
  The properties of the inventory service, each with a witness on a concrete database: the
  reference tables of \<open>Gorm_Reference\<close>, one product with five pieces in stock.
\<close>

section \<open>A database to run on\<close>

record inventory_store =
  is_inventory :: "inventory_row list"
  is_reservations :: "reservation_row list"
  is_outbox :: "outbox_row list"
  is_inbox :: "inbox_row list"

definition ref_inventory_db :: "inventory_store inventory_db" where
  "ref_inventory_db =
     \<lparr>nv_inventory = ref_gorm inventory_schema is_inventory (\<lambda>l s. s\<lparr>is_inventory := l\<rparr>),
      nv_reservations = ref_gorm reservation_schema is_reservations (\<lambda>l s. s\<lparr>is_reservations := l\<rparr>),
      nv_outbox = ref_gorm outbox_schema is_outbox (\<lambda>l s. s\<lparr>is_outbox := l\<rparr>),
      nv_inbox = ref_gorm inbox_schema is_inbox (\<lambda>l s. s\<lparr>is_inbox := l\<rparr>),
      nv_tx = ref_tx\<rparr>"

lemma ref_outbox_columns: "outbox_columns (ref_gorm sch get put)"
  by (simp add: outbox_columns_def ref_gorm_def)

lemma ref_inbox_columns: "inbox_columns (ref_gorm sch get put)"
  by (simp add: inbox_columns_def ref_gorm_def)

lemma ref_inventory_columns: "inventory_columns (ref_gorm sch get put)"
  unfolding inventory_columns_def ref_gorm_def by (rule exI [of _ "\<lambda>t. t"]) simp

lemma ref_reservation_columns: "reservation_columns (ref_gorm sch get put)"
  unfolding reservation_columns_def ref_gorm_def by (rule exI [of _ "\<lambda>t. t"]) simp

lemma ref_inventory_db_laws: "inventory_db_laws ref_inventory_db"
  by (simp add: inventory_db_laws_def ref_inventory_db_def ref_gorm_laws ref_gorm_frame ref_tx_laws
      ref_outbox_columns ref_inbox_columns ref_inventory_columns ref_reservation_columns
      outbox_laws_def inbox_laws_def same_inventory_rows_def)

definition one_product :: inventory_store where
  "one_product =
     \<lparr>is_inventory = [\<lparr>iv_id = 1, iv_product_id = 7, iv_available = 5, iv_reserved = 0,
        iv_created_at = 0, iv_updated_at = 0\<rparr>],
      is_reservations = [], is_outbox = [], is_inbox = []\<rparr>"

definition take_two :: "ReserveStockItem list" where
  "take_two = [\<lparr>rs_product_id = 7, rs_quantity = 2\<rparr>]"

definition counting :: "nat \<Rightarrow> uuid" where
  "counting i = (if i < 1000 then word_of_nat (i + 1) else 1)"

lemma counting_nonzero: "counting i \<noteq> 0"
proof (cases "i < 1000")
  case True
  have "unat (word_of_nat n :: uuid) = n" if "n \<le> 1000" for n
    using that by (simp add: unsigned_of_nat take_bit_nat_eq_self)
  from this [of "i + 1"] True have "unat (counting i) = i + 1" by (simp add: counting_def)
  then show ?thesis by auto
next
  case False
  then show ?thesis by (simp add: counting_def)
qed

lemma one_product_wf: "inventory_wf ref_inventory_db one_product"
  by (simp add: inventory_wf_def ref_inventory_db_def ref_gorm_def one_product_def inventory_schema_def
      int4_def)

definition reserve_run :: "err option \<times> inventory_store" where
  "reserve_run = ReserveStockWithInboxAndOutbox ref_inventory_db ref_ustr counting (\<lambda>_. 0) 100 200 take_two
     (Doc JNull) one_product"

lemma reserve_run_eq: "ReserveStockWithInboxAndOutbox ref_inventory_db ref_ustr counting (\<lambda>_. 0) 100 200 take_two
     (Doc JNull) one_product = (fst reserve_run, snd reserve_run)"
  by (simp add: reserve_run_def)

section \<open>The properties\<close>

text \<open>
  C2: A reservation request changes nothing, or reserves all its items, or reserves none of
  them. It reserves all of them only if every product is in stock in the quantity asked for, and
  then leaves one pending \<open>StockReserved\<close> event; it reserves none only if an item is not in stock,
  and then leaves the stock as it was and one pending \<open>StockReservationFailed\<close> event; in both cases
  the request is recorded as handled. It changes nothing only if it was handled before or
  returns an error, whenever statements fail.
\<close>

theorem reserve_stock_all_or_nothing:
  assumes "inventory_db_laws D" and "\<forall>i. new i \<noteq> 0" and "inventory_wf D s"
    and "ReserveStockWithInboxAndOutbox D ustr new clock m orderID items payload s = (e, s')"
  shows "(same_inventory_rows D s s' \<and> (e \<noteq> None \<or> m \<in> inbox_ids (nv_inbox D) s))
    \<or> (stock_reserved D new (clock 0) s orderID items s'
       \<and> answered D s m
           (stock_event_message ustr new (length items) (clock 1) orderID ''StockReserved'' '''' items) s')
    \<or> ((\<exists>it\<in>set items. \<not> stocked D s it) \<and> stock_untouched D s s'
       \<and> (\<exists>reason. reason \<noteq> '''' \<and> answered D s m
           (stock_event_message ustr new 0 (clock 0) orderID ''StockReservationFailed'' reason items) s'))"
proof -
  have new: "\<And>i. new i \<noteq> 0" using assms(2) by blast
  from assms(1) new assms(3,4) show ?thesis by (cases rule: ReserveStock_cases) auto
qed

text \<open>
  The stock is conserved and never negative. Whatever a request asks for and however it ends,
  every product keeps its row, what is available plus what is reserved stays the same, and both
  are at least 0; no computation on 64-bit quantities wraps around.
\<close>

theorem stock_conserved:
  assumes "inventory_db_laws D" and "\<forall>i. new i \<noteq> 0" and "inventory_wf D s"
    and "ReserveStockWithInboxAndOutbox D ustr new clock m orderID items payload s = (e, s')"
    and "g_rows (nv_inventory D) s k = Some r"
  shows "\<exists>r'. g_rows (nv_inventory D) s' k = Some r' \<and> iv_product_id r' = iv_product_id r
    \<and> sint (iv_available r') + sint (iv_reserved r') = sint (iv_available r) + sint (iv_reserved r)
    \<and> 0 \<le> sint (iv_available r') \<and> 0 \<le> sint (iv_reserved r')"
proof -
  have new: "\<And>i. new i \<noteq> 0" using assms(2) by blast
  show ?thesis by (rule ReserveStock_row [OF assms(1) new assms(3-5)])
qed

theorem reserve_stock_all_or_nothing_witness:
  "fst reserve_run = None \<and>
   ((same_inventory_rows ref_inventory_db one_product (snd reserve_run) \<and>
       (fst reserve_run \<noteq> None \<or> (100::uuid) \<in> inbox_ids (nv_inbox ref_inventory_db) one_product))
    \<or> (stock_reserved ref_inventory_db counting 0 one_product 200 take_two (snd reserve_run)
       \<and> answered ref_inventory_db one_product 100
           (stock_event_message ref_ustr counting (length take_two) 0 200 ''StockReserved'' '''' take_two)
           (snd reserve_run))
    \<or> ((\<exists>it\<in>set take_two. \<not> stocked ref_inventory_db one_product it)
       \<and> stock_untouched ref_inventory_db one_product (snd reserve_run)
       \<and> (\<exists>reason. reason \<noteq> '''' \<and> answered ref_inventory_db one_product 100
           (stock_event_message ref_ustr counting 0 0 200 ''StockReservationFailed'' reason take_two)
           (snd reserve_run))))"
proof -
  have "fst reserve_run = None" by code_simp
  then show ?thesis
    using reserve_stock_all_or_nothing [OF ref_inventory_db_laws _ one_product_wf reserve_run_eq]
      counting_nonzero by simp
qed

theorem stock_conserved_witness:
  "\<exists>r'. g_rows (nv_inventory ref_inventory_db) (snd reserve_run) 1 = Some r' \<and> iv_product_id r' = 7
    \<and> sint (iv_available r') + sint (iv_reserved r') = 5
    \<and> 0 \<le> sint (iv_available r') \<and> 0 \<le> sint (iv_reserved r')"
proof -
  have row: "g_rows (nv_inventory ref_inventory_db) one_product 1 =
      Some \<lparr>iv_id = 1, iv_product_id = 7, iv_available = 5, iv_reserved = 0,
        iv_created_at = 0, iv_updated_at = 0\<rparr>"
    by (simp add: ref_inventory_db_def ref_gorm_def one_product_def inventory_schema_def)
  show ?thesis
    using stock_conserved [OF ref_inventory_db_laws _ one_product_wf reserve_run_eq row]
      counting_nonzero by simp
qed

text \<open>
  A request that was handled before is answered by doing nothing: not one row of the four
  tables changes, whatever its payload and however often the broker delivers it again.
\<close>

theorem reserve_stock_idempotent:
  assumes "inventory_db_laws D" and "\<forall>i. new i \<noteq> 0" and "inventory_wf D s"
    and "m \<in> inbox_ids (nv_inbox D) s"
    and "ReserveStockWithInboxAndOutbox D ustr new clock m orderID items payload s = (e, s')"
  shows "same_inventory_rows D s s'"
proof -
  have new: "\<And>i. new i \<noteq> 0" using assms(2) by blast
  from assms(1) new assms(3,5) show ?thesis
    by (cases rule: ReserveStock_cases) (use assms(4) in \<open>auto simp: answered_def\<close>)
qed

theorem reserve_stock_idempotent_witness:
  "(100::uuid) \<in> inbox_ids (nv_inbox ref_inventory_db) (snd reserve_run) \<and>
   same_inventory_rows ref_inventory_db (snd reserve_run)
     (snd (ReserveStockWithInboxAndOutbox ref_inventory_db ref_ustr counting (\<lambda>_. 0) 100 200 take_two
       (Doc JNull) (snd reserve_run)))"
proof -
  have wf: "inventory_wf ref_inventory_db (snd reserve_run)"
    by (rule ReserveStock_wf [OF ref_inventory_db_laws counting_nonzero one_product_wf reserve_run_eq])
  have "map ib_message_id (is_inbox (snd reserve_run)) = [100]" by code_simp
  then obtain r where r: "is_inbox (snd reserve_run) = [r]" "ib_message_id r = 100" by auto
  then have seen: "(100::uuid) \<in> inbox_ids (nv_inbox ref_inventory_db) (snd reserve_run)"
    by (simp add: inbox_ids_def ref_inventory_db_def ref_gorm_def inbox_schema_def)
  show ?thesis
    using reserve_stock_idempotent [OF ref_inventory_db_laws _ wf seen prod.collapse [symmetric]]
      counting_nonzero seen by simp
qed

text \<open>
  C21: An order that names a product twice is never reserved, although the order service accepts
  it. Of a request not handled before, either the transaction returns an error and changes nothing,
  or an item is out of stock and a rejection naming it is recorded and answered. While there is
  enough of every product the first is the case, at every attempt: the two reservations violate
  UNIQUE(order_id, product_id), and the consumer puts the message back on its queue.
\<close>

theorem repeated_product_never_reserved:
  assumes "inventory_db_laws D" and "\<forall>i. new i \<noteq> 0" and "inventory_wf D s"
    and "m \<notin> inbox_ids (nv_inbox D) s" and "\<not> distinct (map rs_product_id items)"
    and "ReserveStockWithInboxAndOutbox D ustr new clock m orderID items payload s = (e, s')"
  shows "(e \<noteq> None \<and> same_inventory_rows D s s' \<and> m \<notin> inbox_ids (nv_inbox D) s'
      \<or> (\<exists>it reason. it \<in> set items \<and> \<not> stocked D s it
          \<and> g_rows (nv_inventory D) s' = g_rows (nv_inventory D) s
          \<and> g_rows (nv_reservations D) s' = g_rows (nv_reservations D) s
          \<and> reason \<in> {''inventory not found for product '' @ ustr (rs_product_id it),
              ''insufficient stock for product '' @ ustr (rs_product_id it)}
          \<and> answered D s m (stock_event_message ustr new 0 (clock 0) orderID ''StockReservationFailed'' reason items) s'))
    \<and> ((\<forall>it\<in>set items. stocked D s it) \<longrightarrow> e \<noteq> None)"
proof -
  have new: "\<And>i. new i \<noteq> 0" using assms(2) by blast
  from assms(1) new assms(3,6) show ?thesis
  proof (cases rule: ReserveStock_cases)
    case unchanged
    then show ?thesis using assms(4) by (simp add: same_inventory_rows_def inbox_ids_def)
  next
    case reserved
    then show ?thesis using assms(5) by (simp add: stock_reserved_def)
  next
    case (rejected it reason)
    then show ?thesis unfolding stock_untouched_def by blast
  qed
qed

definition take_twice :: "ReserveStockItem list" where
  "take_twice = [\<lparr>rs_product_id = 7, rs_quantity = 2\<rparr>, \<lparr>rs_product_id = 7, rs_quantity = 1\<rparr>]"

theorem repeated_product_never_reserved_witness:
  "fst (ReserveStockWithInboxAndOutbox ref_inventory_db ref_ustr counting (\<lambda>_. 0) 100 200 take_twice
       (Doc JNull) one_product) \<noteq> None"
proof -
  have unseen: "(100::uuid) \<notin> inbox_ids (nv_inbox ref_inventory_db) one_product"
    by (simp add: inbox_ids_def ref_inventory_db_def ref_gorm_def one_product_def)
  have twice: "\<not> distinct (map rs_product_id take_twice)" by (simp add: take_twice_def)
  have stock: "\<forall>it\<in>set take_twice. stocked ref_inventory_db one_product it"
    by (simp add: take_twice_def stocked_def ref_inventory_db_def ref_gorm_def one_product_def
        inventory_schema_def)
  show ?thesis
    using repeated_product_never_reserved [OF ref_inventory_db_laws _ one_product_wf unseen twice
        prod.collapse [symmetric]] counting_nonzero stock by blast
qed

text \<open>
  C8: The ledger of the consumer. Starting from a well-formed stock whose reserved quantities are
  the sums of the reservations, this stays so after any run of the consumer: whatever is
  delivered, malformed, repeated or out of order, and whichever statements, commits or
  acknowledgements fail, each product's reserved quantity is the sum of its reservations, and
  its total stock is what it was.
\<close>

theorem consumer_run_keeps_ledger:
  assumes "inventory_db_laws D" and "inventory_wf D s" and "ledger D s" and "events_ok es"
    and "inventory_Start D B parse ustr exchange queueName es (s, h) = (res, s', h')"
  shows "inventory_wf D s' \<and> ledger D s' \<and>
    (\<forall>k r. g_rows (nv_inventory D) s k = Some r \<longrightarrow>
      (\<exists>r'. g_rows (nv_inventory D) s' k = Some r' \<and> iv_product_id r' = iv_product_id r
        \<and> sint (iv_available r') + sint (iv_reserved r') = sint (iv_available r) + sint (iv_reserved r)))"
proof -
  let ?P = "\<lambda>t. inventory_wf D t \<and> ledger D t \<and>
    (\<forall>k r. g_rows (nv_inventory D) s k = Some r \<longrightarrow>
      (\<exists>r'. g_rows (nv_inventory D) t k = Some r' \<and> iv_product_id r' = iv_product_id r
        \<and> sint (iv_available r') + sint (iv_reserved r') = sint (iv_available r) + sint (iv_reserved r)))"
  have start: "?P s" using assms(2,3) by auto
  obtain e h1 where ini: "plain_consumer_setup B exchange queueName ''order.created'' h = (e, h1)" by fastforce
  show ?thesis
  proof (cases e)
    case (Some x)
    then have "s' = s" using assms(5) ini by (simp add: inventory_Start_def consumer_Start_def)
    then show ?thesis using start by simp
  next
    case None
    then have loop: "consumer_loop deliveries_closed (inventory_handleMessage D B parse ustr) es (s, h1) = (res, s', h')"
      using assms(5) ini by (simp add: inventory_Start_def consumer_Start_def)
    show ?thesis
    proof (rule inventory_loop_keeps [of ?P, OF _ start assms(4) loop])
      fix env :: inventory_env and m i its b t e t'
      assume t: "?P t" and "\<forall>i. fst env i \<noteq> 0"
        and run: "ReserveStockWithInboxAndOutbox D ustr (fst env) (snd env) m i its b t = (e, t')"
      then have new: "\<And>i. fst env i \<noteq> 0" by blast
      have wf: "inventory_wf D t" and led: "ledger D t" using t by auto
      have "\<exists>r'. g_rows (nv_inventory D) t' k = Some r' \<and> iv_product_id r' = iv_product_id r
          \<and> sint (iv_available r') + sint (iv_reserved r') = sint (iv_available r) + sint (iv_reserved r)"
        if r: "g_rows (nv_inventory D) s k = Some r" for k r
      proof -
        from t r obtain r1 where r1: "g_rows (nv_inventory D) t k = Some r1" "iv_product_id r1 = iv_product_id r"
          "sint (iv_available r1) + sint (iv_reserved r1) = sint (iv_available r) + sint (iv_reserved r)" by blast
        from ReserveStock_row [OF assms(1) new wf run r1(1)] r1 show ?thesis by auto
      qed
      then show "?P t'"
        using ReserveStock_wf [OF assms(1) new wf run] ReserveStock_ledger [OF assms(1) new wf led run] by blast
    qed
  qed
qed

definition request_body :: body where
  "request_body = Doc (JObj [(''message_id'', JStr ''100''), (''order_id'', JStr ''200''),
     (''items'', JArr [JObj [(''product_id'', JStr ''7''), (''quantity'', JNum (Some 2) (Fin 2))]])])"

definition twice_delivered :: "inventory_env consumer_event list" where
  "twice_delivered = [Deliver (delivery_of 1 request_body) (counting, \<lambda>_. 0),
     Deliver (delivery_of 2 request_body) (counting, \<lambda>_. 0)]"

definition start_run :: "err option option \<times> inventory_store \<times> chan" where
  "start_run = inventory_Start ref_inventory_db ok_broker ref_parse ref_ustr ''orders'' ''reserve''
     twice_delivered (one_product, [])"

theorem consumer_run_keeps_ledger_witness:
  "map iv_reserved (is_inventory (fst (snd start_run))) = [2] \<and>
   inventory_wf ref_inventory_db (fst (snd start_run)) \<and> ledger ref_inventory_db (fst (snd start_run))"
proof -
  have led: "ledger ref_inventory_db one_product"
    by (simp add: ledger_def row_sum_def ref_inventory_db_def ref_gorm_def one_product_def)
  have ok: "events_ok twice_delivered" by (simp add: twice_delivered_def counting_nonzero)
  have "start_run = (fst start_run, fst (snd start_run), snd (snd start_run))" by simp
  note run = this [unfolded start_run_def]
  have "map iv_reserved (is_inventory (fst (snd start_run))) = [2]" by code_simp
  then show ?thesis
    using consumer_run_keeps_ledger [OF ref_inventory_db_laws one_product_wf led ok run]
    unfolding start_run_def by blast
qed

text \<open>
  C18: What the inventory's consumer does with a delivery. It makes exactly one call to settle it:
  it drops a malformed request and leaves the database alone; it puts a request back on the queue
  when the transaction returned an error; and it acknowledges a request only once it is recorded
  as handled.
\<close>

theorem request_settled:
  assumes "inventory_db_laws D" and "inventory_wf D s" and "\<forall>i. fst env i \<noteq> 0"
    and "inventory_handleMessage D B parse ustr env d (s, h) = (s', h')"
  shows "(request_of parse (p_body d) = None \<and> s' = s \<and> h' = h @ [NackCall (d_tag d) False False])
    \<or> (\<exists>m i its. request_of parse (p_body d) = Some (m, i, its) \<and>
        ((h' = h @ [NackCall (d_tag d) False True] \<and>
            fst (ReserveStockWithInboxAndOutbox D ustr (fst env) (snd env) m i its (p_body d) s) \<noteq> None)
         \<or> (h' = h @ [AckCall (d_tag d) False] \<and> m \<in> inbox_ids (nv_inbox D) s')))"
  using assms(4) unfolding inventory_handleMessage_def
proof (cases rule: inventory.message_cases)
  case malformed
  then show ?thesis by simp
next
  case (failed m i its e)
  then show ?thesis by (simp add: inventory_handle_run)
next
  case (handled m i its)
  then show ?thesis using inventory.handle_done [OF _ assms(3) handled(2)] assms(1,2) by simp
qed

theorem request_settled_witness:
  "snd (inventory_handleMessage ref_inventory_db ok_broker ref_parse ref_ustr (counting, \<lambda>_. 0)
     (delivery_of 1 request_body) (one_product, [])) = [AckCall 1 False] \<and>
   (100::uuid) \<in> inbox_ids (nv_inbox ref_inventory_db)
     (fst (inventory_handleMessage ref_inventory_db ok_broker ref_parse ref_ustr (counting, \<lambda>_. 0)
       (delivery_of 1 request_body) (one_product, [])))"
proof -
  let ?run = "inventory_handleMessage ref_inventory_db ok_broker ref_parse ref_ustr (counting, \<lambda>_. 0)
     (delivery_of 1 request_body) (one_product, [])"
  have "single_ack 1 (snd ?run)" by code_simp
  then have acked: "snd ?run = [AckCall 1 False]" by (simp only: single_ack_iff)
  have "map_option fst (request_of ref_parse request_body) = Some 100" by code_simp
  then show ?thesis
    using request_settled [OF ref_inventory_db_laws one_product_wf, of "(counting, \<lambda>_. 0)" ok_broker ref_parse
        ref_ustr "delivery_of 1 request_body" "[]" "fst ?run" "snd ?run"] acked counting_nonzero
    by (auto simp: delivery_of_def)
qed

end
