(* ===== verification/Messaging_Properties.thy ===== *)
theory Messaging_Properties
  imports Wire Order_Properties Inventory_Properties
begin

text \<open>
  The properties of the messaging between the services: settlement of deliveries, retries, the
  outbox worker, and the events that travel between the order and the inventory service.
\<close>

section \<open>The order service's consumers\<close>

text \<open>
  C6: The consumers of the order service lose no event. A delivery of either is put back on the
  queue; or acknowledged, and then its event is recorded in the inbox, and if it was new and its
  order PENDING, the order has the status of the event, while nothing else has changed any status
  (an event for an unknown or already settled order settles nothing); or a copy with the same body
  has been published and confirmed before the acknowledgement, in the retry queue while attempts
  are left for a well-formed event and in the dead-letter exchange otherwise. The delivery is settled
  by the last call, and by no other.
\<close>

theorem stock_events_not_lost:
  assumes "order_db_laws D" and "new \<noteq> 0"
    and "(consume, decode, target) \<in>
      {(stockReserved_handleMessage D B p parse new now, decode_StockReserved, OrderStatusConfirmed),
       (stockNotReserved_handleMessage D B p parse new now, decode_StockNotReserved, OrderStatusFailed)}"
    and "consume d (s, h) = (s', h')"
  shows "(\<exists>pre. h' = h @ pre @ [NackCall (d_tag d) False True] \<and> settlements (d_tag d) pre = [])
    \<or> (h' = h @ [AckCall (d_tag d) False] \<and>
        (\<exists>m i. event_ids parse decode (p_body d) = Some (m, i) \<and> m \<in> order_inbox D s' \<and>
           order_status D s' =
             (if m \<notin> order_inbox D s \<and> order_status D s i = Some OrderStatusPending
              then (order_status D s)(i \<mapsto> target) else order_status D s)))
    \<or> (\<exists>exchange key copy.
        h' = h @ [PublishCall exchange key True False copy, WaitConfirm, AckCall (d_tag d) False] \<and>
        confirmed_at B h exchange key copy \<and> p_body copy = p_body d \<and>
        (exchange, key) =
          (if event_ids parse decode (p_body d) \<noteq> None
              \<and> sint (deliveryAttempt (p_headers d)) < sint (rp_maxAttempts p)
           then ('''', rp_retryQueue p) else (rp_deadLetterExchange p, rp_deadLetterQueue p)))"
proof -
  have settled: "m \<in> order_inbox D s' \<and> order_status D s' =
      (if m \<notin> order_inbox D s \<and> order_status D s i = Some OrderStatusPending
       then (order_status D s)(i \<mapsto> OrderStatusConfirmed) else order_status D s)"
    if run: "HandleConfirmOrder D new now i m b s = (None, s')" for m i b
    using confirming.handle_done [OF assms(1) _ run [unfolded HandleConfirmOrder_run]]
      confirming.handle_duplicate [OF assms(1) _ run [unfolded HandleConfirmOrder_run]] assms(2)
    by (cases "m \<in> order_inbox D s") (simp_all add: settle_status_def)
  have rejected: "m \<in> order_inbox D s' \<and> order_status D s' =
      (if m \<notin> order_inbox D s \<and> order_status D s i = Some OrderStatusPending
       then (order_status D s)(i \<mapsto> OrderStatusFailed) else order_status D s)"
    if run: "HandleRejectOrder D new now i m b s = (None, s')" for m i b
    using rejecting.handle_done [OF assms(1) _ run [unfolded HandleRejectOrder_run]]
      rejecting.handle_duplicate [OF assms(1) _ run [unfolded HandleRejectOrder_run]] assms(2)
    by (cases "m \<in> order_inbox D s") (simp_all add: settle_status_def)
  from assms(3) obtain handler where
    run: "consume d (s, h) = handle_stock_event B p parse decode handler now d (s, h)"
    and handler: "\<And>i m b. handler i m b s = (None, s') \<Longrightarrow> m \<in> order_inbox D s' \<and> order_status D s' =
      (if m \<notin> order_inbox D s \<and> order_status D s i = Some OrderStatusPending
       then (order_status D s)(i \<mapsto> target) else order_status D s)"
    using settled rejected
    by (elim insertE emptyE; clarsimp simp: stockReserved_handleMessage_def stockNotReserved_handleMessage_def; blast)
  from assms(4) [unfolded run] show ?thesis
  proof (cases rule: handle_stock_event_calls)
    case requeued
    then show ?thesis by blast
  next
    case handled
    then show ?thesis using handler by blast
  next
    case (copied exchange key headers)
    then show ?thesis using republished_keeps(1) [of d headers] unfolding copy_route_def by blast
  qed
qed

theorem stock_events_not_lost_witness:
  "order_status ref_order_db (snd create_run) 200 = Some OrderStatusPending
   \<and> order_status ref_order_db (fst confirm_run) 200 = Some OrderStatusConfirmed
   \<and> 55 \<in> order_inbox ref_order_db (fst confirm_run) \<and> snd confirm_run = [AckCall 1 False]"
proof -
  have "length (snd confirm_run) = 1 \<and>
      (case hd (snd confirm_run) of AckCall t multiple \<Rightarrow> t = 1 \<and> \<not> multiple | _ \<Rightarrow> False)" by code_simp
  then have calls: "snd confirm_run = [AckCall 1 False]"
    by (cases "snd confirm_run") (auto split: amqp_call.splits)
  have ids: "event_ids ref_parse decode_StockReserved stock_body = Some (55, 200)" by code_simp
  have d: "p_body stock_delivery = stock_body" "d_tag stock_delivery = 1"
    by (simp_all add: stock_delivery_def delivery_of_def)
  have "map or_id (os_orders (snd create_run)) = [200]" "map or_status (os_orders (snd create_run)) = [''PENDING'']"
    by code_simp+
  from single_row_status [OF this] have pending: "order_status ref_order_db (snd create_run) 200 = Some OrderStatusPending"
    by (simp add: OrderStatusPending_def)
  have "os_inbox (snd create_run) = []" by code_simp
  then have new: "order_inbox ref_order_db (snd create_run) = {}"
    by (simp add: order_inbox_def inbox_ids_def ref_order_db_def ref_gorm_def)
  have run: "stockReserved_handleMessage ref_order_db ok_broker a_policy ref_parse 300 9 stock_delivery
      (snd create_run, []) = (fst confirm_run, snd confirm_run)" by (simp add: confirm_run_def)
  from stock_events_not_lost [OF ref_order_db_laws _ insertI1 run] calls pending new ids d
  show ?thesis by auto
qed

section \<open>Retries\<close>

text \<open>
  C15: A message that fails at every attempt is tried exactly as often as configured. Let a
  well-formed event arrive for the first time, let its handling fail in every state (the
  database is down, say), let the broker confirm what is published and deliver each copy from the
  retry queue with its body and its attempt. Then the consumer publishes \<open>maxAttempts - 1\<close> copies to
  its retry queue, numbered from 2 on, and a last one to its dead-letter queue, numbered
  \<open>maxAttempts\<close>, all with the event's body, and nothing else.
\<close>

theorem attempts_bounded:
  assumes "event_ids parse decode (p_body d) = Some (m, i)"
    and "\<forall>t. \<exists>e t'. handler i m (p_body d) t = (Some e, t')"
    and "\<forall>h exchange key msg. confirmed_at B h exchange key msg"
    and "\<forall>msg. p_body (redeliver msg) = p_body msg
      \<and> deliveryAttempt (p_headers (redeliver msg)) = deliveryAttempt (p_headers msg)"
    and "deliveryAttempt (p_headers d) = 1"
    and "1 \<le> sint maxAttempts" and "sint maxAttempts < 2 ^ 31" and "nat (sint maxAttempts) \<le> fuel"
  shows "let p = newRetryPolicy source sourceKey queue maxAttempts delay;
             copies = copies_of (handle_stock_event B p parse decode handler now) redeliver (queue @ ''.retry'')
               fuel d (s, h)
    in map (\<lambda>(exchange, key, copy). (exchange, key)) copies =
         replicate (nat (sint maxAttempts) - 1) ('''', queue @ ''.retry'') @ [(source @ ''.dead-letter'', queue @ ''.dlq'')]
     \<and> map (\<lambda>(exchange, key, copy). sint (deliveryAttempt (p_headers copy))) copies =
         [2 .. sint maxAttempts] @ [sint maxAttempts]
     \<and> (\<forall>(exchange, key, copy) \<in> set copies. p_body copy = p_body d)"
proof -
  let ?p = "newRetryPolicy source sourceKey queue maxAttempts delay"
  let ?k = "nat (sint maxAttempts) - 1"
  have p: "rp_maxAttempts ?p = maxAttempts" "rp_retryQueue ?p = queue @ ''.retry''"
    "rp_deadLetterExchange ?p = source @ ''.dead-letter''" "rp_deadLetterQueue ?p = queue @ ''.dlq''"
    by (simp_all add: newRetryPolicy_def)
  have again: "\<And>msg. p_body (redeliver msg) = p_body msg"
    "\<And>msg. deliveryAttempt (p_headers (redeliver msg)) = deliveryAttempt (p_headers msg)" using assms(4) by simp_all
  have k: "sint maxAttempts - int ?k = 1" "?k < fuel" using assms(6,8) by simp_all
  have a: "sint (deliveryAttempt (p_headers d)) = sint (rp_maxAttempts ?p) - int ?k"
    using assms(5) k(1) by (simp add: p)
  have max: "sint (rp_maxAttempts ?p) < 2 ^ 31" and dlx: "rp_deadLetterExchange ?p \<noteq> ''''"
    using assms(7) by (simp_all add: p)
  show ?thesis
    using copies_of_failing [where handler = handler and p = ?p and d = d and k = ?k, OF assms(1-3) again max dlx refl a k(2),
        of now s h] k(1)
    unfolding p Let_def by (simp add: add.commute)
qed

definition plain_redelivery :: "publishing \<Rightarrow> delivery" where
  "plain_redelivery m = publishing.extend m (delivery.fields 2)"

text \<open>A database whose inbox cannot be read, and three attempts.\<close>

definition broken_order_db :: "order_store order_db" where
  "broken_order_db = ref_order_db\<lparr>db_inbox := (db_inbox ref_order_db)\<lparr>g_count := (\<lambda>s q. Inl (Ext ''connection lost''))\<rparr>\<rparr>"

theorem attempts_bounded_witness:
  "map (\<lambda>(exchange, key, copy). (exchange, key))
     (copies_of (stockReserved_handleMessage broken_order_db ok_broker a_policy ref_parse 300 9) plain_redelivery
        ''orders.retry'' 5 stock_delivery (empty_orders, []))
   = [('''', ''orders.retry''), ('''', ''orders.retry''), (''inventory.dead-letter'', ''orders.dlq'')]"
proof -
  have ids: "event_ids ref_parse decode_StockReserved (p_body stock_delivery) = Some (55, 200)" by code_simp
  have fails: "\<forall>t. \<exists>e t'. HandleConfirmOrder broken_order_db 300 9 200 55 (p_body stock_delivery) t = (Some e, t')"
    by (simp add: HandleConfirmOrder_def handle_settlement_def IsProcessed_def inbox_has_def broken_order_db_def)
  have broker: "\<forall>h exchange key msg. confirmed_at ok_broker h exchange key msg"
    by (simp add: confirmed_at_def ok_broker_def)
  have again: "\<forall>msg. p_body (plain_redelivery msg) = p_body msg
      \<and> deliveryAttempt (p_headers (plain_redelivery msg)) = deliveryAttempt (p_headers msg)"
    by (simp add: plain_redelivery_def publishing.defs delivery.defs)
  have first: "deliveryAttempt (p_headers stock_delivery) = 1"
    by (simp add: stock_delivery_def delivery_of_def deliveryAttempt_def)
  have consume: "stockReserved_handleMessage broken_order_db ok_broker a_policy ref_parse 300 9 =
      handle_stock_event ok_broker a_policy ref_parse decode_StockReserved (HandleConfirmOrder broken_order_db 300 9) 9"
    by (simp add: stockReserved_handleMessage_def fun_eq_iff)
  have "map (\<lambda>(exchange, key, copy). (exchange, key))
      (copies_of (stockReserved_handleMessage broken_order_db ok_broker a_policy ref_parse 300 9) plain_redelivery
        (''orders'' @ ''.retry'') 5 stock_delivery (empty_orders, []))
    = replicate (nat (sint (3::goint)) - 1) ('''', ''orders'' @ ''.retry'')
        @ [(''inventory'' @ ''.dead-letter'', ''orders'' @ ''.dlq'')]"
    unfolding consume unfolding a_policy_def
    by (rule attempts_bounded [where handler = "HandleConfirmOrder broken_order_db 300 9" and d = stock_delivery
          and maxAttempts = 3 and fuel = 5 and now = 9 and s = empty_orders and h = "[]",
          OF ids fails broker again first, unfolded Let_def, THEN conjunct1]) simp_all
  then show ?thesis by (simp add: numeral_2_eq_2)
qed

section \<open>The outbox\<close>

text \<open>
  C5: No event is lost. If a message of the outbox is pending before a pass of a service's worker
  and no longer pending after it, then the broker has confirmed it, under the routing key of its
  type and without reporting it as unroutable, whatever calls fail during the pass. A pass never
  changes what a message says and never makes a processed message pending again.
\<close>

theorem outbox_at_least_once:
  assumes "outbox_laws T"
    and "outbox_process route T clock B exchange n (s, h) = (s', h')"
  shows "(\<forall>i \<in> outbox_pending T s - outbox_pending T s'. \<forall>t b.
        outbox_content T s i = Some (t, b) \<longrightarrow> (t, b) \<in> rabbit_accepted route B exchange h')
    \<and> outbox_content T s' = outbox_content T s \<and> outbox_pending T s' \<subseteq> outbox_pending T s"
proof -
  note run = assms(2) [unfolded outbox_process_def]
  from worker.process_keeps [OF assms(1) run] worker.process_accepted [OF assms(1) run]
  show ?thesis by blast
qed

definition outbox_of_order :: "(order_store, outbox_row) gorm" where
  "outbox_of_order = db_outbox ref_order_db"

lemma outbox_of_order_laws: "outbox_laws outbox_of_order"
  using ref_order_db_laws by (simp add: order_db_laws_def outbox_of_order_def)

definition worker_run :: "order_store \<times> chan" where
  "worker_run = outbox_process order_eventRoutingKey outbox_of_order (\<lambda>_. 9) ok_broker ''orders'' 10
     (snd create_run, [])"

lemma worker_run_eq:
  "outbox_process order_eventRoutingKey outbox_of_order (\<lambda>_. 9) ok_broker ''orders'' 10 (snd create_run, [])
     = (fst worker_run, snd worker_run)"
  by (simp add: worker_run_def)

lemma one_outbox_row:
  assumes "map ob_id (os_outbox s) = [i]" and "map ob_processed_at (os_outbox s) = [t]"
  shows "outbox_pending outbox_of_order s = (if t = None then {i} else {})"
  using assms by (cases "os_outbox s")
    (auto simp: outbox_pending_def outbox_of_order_def ref_order_db_def ref_gorm_def outbox_schema_def split: if_splits)

theorem outbox_at_least_once_witness:
  "outbox_pending outbox_of_order (snd create_run) - outbox_pending outbox_of_order (fst worker_run) = {202} \<and>
   (\<exists>t b. outbox_content outbox_of_order (snd create_run) 202 = Some (t, b)
      \<and> (t, b) \<in> rabbit_accepted order_eventRoutingKey ok_broker ''orders'' (snd worker_run))"
proof -
  have a: "map ob_id (os_outbox (snd create_run)) = [202]" "map ob_processed_at (os_outbox (snd create_run)) = [None]"
    "map ob_id (os_outbox (fst worker_run)) = [202]" "map ob_processed_at (os_outbox (fst worker_run)) = [Some 9]"
    by code_simp+
  have p: "outbox_pending outbox_of_order (snd create_run) = {202}"
    and p': "outbox_pending outbox_of_order (fst worker_run) = {}"
    using one_outbox_row [OF a(1,2)] one_outbox_row [OF a(3,4)] by simp_all
  from p obtain r where "g_rows outbox_of_order (snd create_run) 202 = Some r" by (auto simp: outbox_pending_def)
  then have c: "outbox_content outbox_of_order (snd create_run) 202 = Some (ob_event_type r, ob_payload r)"
    by (simp add: outbox_content_def)
  with p p' outbox_at_least_once [OF outbox_of_order_laws worker_run_eq] show ?thesis by auto
qed

text \<open>
  C14: The worker makes progress. While the database is in good condition (a condition that
  \<open>MarkAsProcessed\<close> keeps and under which the queries and the marking succeed) and the broker
  accepts the pending events, \<open>k\<close> ticks empty an outbox of at most \<open>k\<close> batches.
\<close>

theorem outbox_drains:
  assumes "outbox_laws T" and "finite (outbox_pending T s)" and "card (outbox_pending T s) \<le> k * n"
    and "good s" and "\<forall>t. good t \<longrightarrow> (\<exists>ms. FindUnprocessed T t n = Inr ms)"
    and "\<forall>t i. good t \<longrightarrow> fst (MarkAsProcessed T clock t i) = None \<and> good (snd (MarkAsProcessed T clock t i))"
    and "\<forall>h i t b. i \<in> outbox_pending T s \<longrightarrow> outbox_content T s i = Some (t, b) \<longrightarrow>
      fst (Publish route B exchange t b h) = None"
  shows "outbox_pending T (fst (snd (worker_start (outbox_process route T clock B exchange n)
    (replicate k Tick) (s, h)))) = {}"
  unfolding outbox_process_def
  by (rule worker.passes_drain [of T _ _ _ good, OF assms(1-4)]) (use assms(5-7) in auto)

lemma ref_first_find:
  "\<exists>ms. FindUnprocessed outbox_of_order t n = Inr ms"
  by (simp add: FindUnprocessed_def outbox_of_order_def ref_order_db_def ref_gorm_def)

theorem outbox_drains_witness:
  "outbox_pending outbox_of_order (fst (snd (worker_start
     (outbox_process order_eventRoutingKey outbox_of_order (\<lambda>_. 9) ok_broker ''orders'' 10)
     (replicate 1 Tick) (snd create_run, [])))) = {}"
proof (rule outbox_drains [OF outbox_of_order_laws])
  let ?good = "\<lambda>s. \<forall>r\<in>set (os_outbox s). sc_check outbox_schema r"
  have a: "map ob_id (os_outbox (snd create_run)) = [202]" "map ob_processed_at (os_outbox (snd create_run)) = [None]"
    "map ob_event_type (os_outbox (snd create_run)) = [''ReserveStockRequested'']"
    by code_simp+
  have p: "outbox_pending outbox_of_order (snd create_run) = {202}" using one_outbox_row [OF a(1,2)] by simp
  then show "finite (outbox_pending outbox_of_order (snd create_run))"
    and "card (outbox_pending outbox_of_order (snd create_run)) \<le> 1 * 10" by simp_all
  have "list_all (sc_check outbox_schema) (os_outbox (snd create_run))" by code_simp
  then show "?good (snd create_run)" by (simp add: list_all_iff)
  show "\<forall>t. ?good t \<longrightarrow> (\<exists>ms. FindUnprocessed outbox_of_order t 10 = Inr ms)" using ref_first_find by blast
  show "\<forall>t i. ?good t \<longrightarrow> fst (MarkAsProcessed outbox_of_order (\<lambda>_. 9) t i) = None
      \<and> ?good (snd (MarkAsProcessed outbox_of_order (\<lambda>_. 9) t i))"
    by (auto simp: MarkAsProcessed_def outbox_of_order_def ref_order_db_def ref_gorm_def list_all_iff
        outbox_schema_def)
  show "\<forall>h i t b. i \<in> outbox_pending outbox_of_order (snd create_run) \<longrightarrow>
      outbox_content outbox_of_order (snd create_run) i = Some (t, b) \<longrightarrow>
      fst (Publish order_eventRoutingKey ok_broker ''orders'' t b h) = None"
  proof (intro allI impI)
    fix h i t b
    assume "i \<in> outbox_pending outbox_of_order (snd create_run)"
      and c: "outbox_content outbox_of_order (snd create_run) i = Some (t, b)"
    from c a(3) have "t = ''ReserveStockRequested''"
      by (cases "os_outbox (snd create_run)")
        (auto simp: outbox_content_def outbox_of_order_def ref_order_db_def ref_gorm_def split: if_splits)
    then show "fst (Publish order_eventRoutingKey ok_broker ''orders'' t b h) = None"
      by (simp add: Publish_def order_eventRoutingKey_def confirmed_publish_def check_returned_def seq_def
          call_def ok_broker_def)
  qed
qed

end
