(* ===== verification/Saga_Properties.thy ===== *)
theory Saga_Properties
  imports Saga Messaging_Properties
begin

text \<open>
  The properties of the order and the inventory service together, with a run of the two on the
  reference databases as their witness.
\<close>

section \<open>A run of the two services\<close>

definition ordered_body :: body where
  "ordered_body = ob_payload (hd (os_outbox (snd create_run)))"

definition reserve_step_run :: "inventory_store \<times> chan" where
  "reserve_step_run = inventory_handleMessage ref_inventory_db ok_broker ref_parse ref_ustr (counting, \<lambda>_. 0)
     (delivery_of 1 ordered_body) (one_product, [])"

definition answer_body :: body where
  "answer_body = ob_payload (hd (is_outbox (fst reserve_step_run)))"

definition confirm_step_run :: "order_store \<times> chan" where
  "confirm_step_run = stockReserved_handleMessage ref_order_db ok_broker a_policy ref_parse 300 9
     (delivery_of 2 answer_body) (snd create_run, [])"

lemma single_content:
  assumes "map ob_id l = [i]" and "map ob_event_type l = [ty]"
  shows "outbox_content (ref_gorm outbox_schema get put) s i =
    (if get s = l then Some (ty, ob_payload (hd l)) else outbox_content (ref_gorm outbox_schema get put) s i)"
  using assms by (cases l) (auto simp: outbox_content_def ref_gorm_def outbox_schema_def)

lemma saga_run:
  "(saga_step ref_order_db ref_inventory_db ref_ozzo ref_parse ref_ustr)\<^sup>*\<^sup>*
     (empty_orders, one_product) (fst confirm_step_run, fst reserve_step_run)"
proof -
  let ?step = "saga_step ref_order_db ref_inventory_db ref_ozzo ref_parse ref_ustr"
  have a: "map ob_id (os_outbox (snd create_run)) = [202]"
    "map ob_event_type (os_outbox (snd create_run)) = [''ReserveStockRequested'']" by code_simp+
  have c: "outbox_content (db_outbox ref_order_db) (snd create_run) 202 =
      Some (''ReserveStockRequested'', p_body (delivery_of 1 ordered_body))"
    using single_content [OF a, of os_outbox _ "snd create_run"] by (simp add: ref_order_db_def ordered_body_def delivery_of_def)
  have b: "map ob_id (is_outbox (fst reserve_step_run)) = [3]"
    "map ob_event_type (is_outbox (fst reserve_step_run)) = [''StockReserved'']" by code_simp+
  have d: "outbox_content (nv_outbox ref_inventory_db) (fst reserve_step_run) 3 =
      Some (''StockReserved'', p_body (delivery_of 2 answer_body))"
    using single_content [OF b, of is_outbox _ "fst reserve_step_run"] by (simp add: ref_inventory_db_def answer_body_def delivery_of_def)
  have reserve_run: "inventory_handleMessage ref_inventory_db ok_broker ref_parse ref_ustr (counting, \<lambda>_. 0)
      (delivery_of 1 ordered_body) (one_product, []) = (fst reserve_step_run, snd reserve_step_run)"
    by (simp add: reserve_step_run_def)
  have confirm_run: "stockReserved_handleMessage ref_order_db ok_broker a_policy ref_parse 300 9
      (delivery_of 2 answer_body) (snd create_run, []) = (fst confirm_step_run, snd confirm_step_run)"
    by (simp add: confirm_step_run_def)
  have 1: "?step (empty_orders, one_product) (snd create_run, one_product)"
    by (rule saga_step.create [OF ids_nonzero create_run_eq])
  have 2: "?step (snd create_run, one_product) (snd create_run, fst reserve_step_run)"
    by (rule saga_step.reserve [OF c _ reserve_run])(simp add: counting_nonzero)
  have 3: "?step (snd create_run, fst reserve_step_run) (fst confirm_step_run, fst reserve_step_run)"
    by (rule saga_step.stock_reserved [OF d _ confirm_run]) simp
  show ?thesis
    by (rule converse_rtranclp_into_rtranclp [where r = ?step, OF 1], rule converse_rtranclp_into_rtranclp [where r = ?step, OF 2],
      rule r_into_rtranclp [where r = ?step, OF 3])
qed

lemma saga_start_ref: "saga_start ref_order_db ref_inventory_db (empty_orders, one_product)"
  using one_product_wf
  by (simp add: saga_start_def ref_order_db_def ref_inventory_db_def ref_gorm_def empty_orders_def one_product_def)

section \<open>The properties\<close>

text \<open>
  C1: The two services agree on every order. Start both with no orders, no messages and no
  reservations, and run them in any interleaving: clients send requests, the outbox workers run,
  the broker delivers any message that is in a sender's outbox, any number of times, in any order
  or never, and statements, commits and acknowledgements fail as they like. Then an order that is
  CONFIRMED has every one of its items reserved in the inventory, with its quantity; an order
  that is FAILED has nothing reserved; and whatever is reserved is reserved for an order that
  exists.
\<close>

theorem saga_consistent:
  assumes "uuid_laws parse ustr" and "order_db_laws D" and "inventory_db_laws E"
    and "saga_start D E start" and "(saga_step D E V parse ustr)\<^sup>*\<^sup>* start (s, t)"
  shows "(order_status D s oid = Some OrderStatusConfirmed \<longrightarrow> (\<forall>pq\<in>ordered D s oid. item_reserved E t oid pq))
    \<and> (order_status D s oid = Some OrderStatusFailed \<longrightarrow> nothing_reserved E t oid)
    \<and> (\<forall>r\<in>ran (g_rows (nv_reservations E) t). order_status D s (rv_order_id r) \<noteq> None)"
  using saga_steps_inv [OF assms(1-3,5) saga_start_inv [OF assms(4)]]
proof cases
  case invI
  show ?thesis
  proof (intro conjI impI ballI)
    fix pq
    assume "order_status D s oid = Some OrderStatusConfirmed" and pq: "pq \<in> ordered D s oid"
    then obtain m its where "(m, oid, its) \<in> requests D parse s" "\<forall>pq\<in>asked its. item_reserved E t oid pq"
      using invI(5) [OF invI(8)] by blast
    then show "item_reserved E t oid pq" using invI(3) pq by blast
  next
    assume "order_status D s oid = Some OrderStatusFailed"
    then show "nothing_reserved E t oid" using invI(6) [OF invI(9)] by blast
  next
    fix r
    assume "r \<in> ran (g_rows (nv_reservations E) t)"
    then show "order_status D s (rv_order_id r) \<noteq> None" using invI(7) invI(3) by blast
  qed
qed

theorem saga_consistent_witness:
  "order_status ref_order_db (fst confirm_step_run) 200 = Some OrderStatusConfirmed
   \<and> (7, 2) \<in> ordered ref_order_db (fst confirm_step_run) 200
   \<and> item_reserved ref_inventory_db (fst reserve_step_run) 200 (7, 2)"
proof -
  have st: "order_status ref_order_db (fst confirm_step_run) 200 = Some OrderStatusConfirmed"
  proof (rule single_row_status)
    show "map or_id (os_orders (fst confirm_step_run)) = [200]" by code_simp
    show "map or_status (os_orders (fst confirm_step_run)) = [OrderStatusConfirmed]" by code_simp
  qed
  have it: "map ir_order_id (os_items (fst confirm_step_run)) = [200]" "map ir_product_id (os_items (fst confirm_step_run)) = [7]"
    "map ir_quantity (os_items (fst confirm_step_run)) = [2]" by code_simp+
  have "(7, 2) \<in> ordered ref_order_db (fst confirm_step_run) 200"
    using it by (cases "os_items (fst confirm_step_run)")
      (auto simp: ordered_def ref_order_db_def ref_gorm_def ran_def order_item_schema_def)
  with st saga_consistent [OF ref_uuid_laws ref_order_db_laws ref_inventory_db_laws saga_start_ref saga_run, of 200]
  show ?thesis by blast
qed

section \<open>What crosses the wire\<close>

text \<open>
  C16: What the order service asks for is what the inventory service reads. The event stored with
  an order, after the JSONB column has reordered its members and reformatted its numbers, is
  decoded by the inventory's consumer to the event's own message id, the order's id, and the
  products and quantities of the order's items, in order.
\<close>

theorem reservation_request_read_back:
  assumes "uuid_laws parse ustr" and "order_db_laws D"
    and "order_created D s ord (reservation_message ustr new now ord) s'"
  shows "\<exists>b. outbox_content (db_outbox D) s' (new (length (od_items ord) + 2)) = Some (''ReserveStockRequested'', b)
    \<and> request_of parse b = Some (new (length (od_items ord) + 1), od_id ord, requested (od_items ord))"
proof -
  obtain b where "outbox_content (db_outbox D) s' = (outbox_content (db_outbox D) s)
      (om_id (reservation_message ustr new now ord) \<mapsto> (om_event_type (reservation_message ustr new now ord), b))"
    and b: "same_body b (om_payload (reservation_message ustr new now ord))"
    by (rule created_content [OF assms(2,3)])
  moreover have "request_of parse b = Some (new (length (od_items ord) + 1), od_id ord, requested (od_items ord))"
    using b by (intro request_round_trip [OF assms(1)]) (simp add: reservation_message_def Let_def)
  ultimately show ?thesis by (simp add: reservation_message_def Let_def)
qed

theorem reservation_request_read_back_witness:
  "\<exists>b. outbox_content (db_outbox ref_order_db) (snd pen_run) 202 = Some (''ReserveStockRequested'', b)
    \<and> request_of ref_parse b = Some (100, 200, requested (od_items pen_order))"
proof -
  have f: "od_id pen_order = 200" "length (od_items pen_order) = 1"
    by code_simp+
  show ?thesis
    using reservation_request_read_back [OF ref_uuid_laws ref_order_db_laws pen_created] f by (simp add: ids_def)
qed

text \<open>
  C17: What the inventory service answers is what the order service reads. The message stored with
  a request's inbox record has the type of the answer, and the consumer for that type reads the
  answer's message id and the order's id from it.
\<close>

theorem stock_answer_read_back:
  assumes "uuid_laws parse ustr" and "inventory_db_laws E" and "reason = '''' \<longleftrightarrow> ty = ''StockReserved''"
    and "answered E t m (stock_event_message ustr new k now oid ty reason items) t'"
  shows "\<exists>b. outbox_content (nv_outbox E) t' (new (Suc k)) = Some (ty, b)
    \<and> event_ids parse (if ty = ''StockReserved'' then decode_StockReserved else decode_StockNotReserved) b
        = Some (new k, oid)"
proof -
  let ?q = "stock_event_message ustr new k now oid ty reason items"
  obtain b where "outbox_content (nv_outbox E) t' = (outbox_content (nv_outbox E) t)(ob_id ?q \<mapsto> (ob_event_type ?q, b))"
    and b: "same_body b (ob_payload ?q)"
    by (rule answered_content [OF assms(2,4)])
  moreover from b have "same_body b (buildStockEventPayload ustr (new k) oid reason items)"
    by (simp add: stock_event_message_def)
  ultimately show ?thesis
    using answer_round_trip [OF assms(1), of b "new k" oid] assms(3)
    by (auto simp: stock_event_message_def)
qed

theorem stock_answer_read_back_witness:
  "\<exists>b. outbox_content (nv_outbox ref_inventory_db) (snd reserve_run) 3 = Some (''StockReserved'', b)
    \<and> event_ids ref_parse decode_StockReserved b = Some (2, 200)"
proof -
  have "map rv_order_id (is_reservations (snd reserve_run)) = [200]" by code_simp
  then have "\<not> stock_untouched ref_inventory_db one_product (snd reserve_run)"
    by (auto simp: stock_untouched_def ref_inventory_db_def ref_gorm_def one_product_def fun_eq_iff map_eq_Cons_conv)
  have "answered ref_inventory_db one_product 100
      (stock_event_message ref_ustr counting 1 0 200 ''StockReserved'' '''' take_two) (snd reserve_run)"
    using ref_inventory_db_laws counting_nonzero one_product_wf reserve_run_eq
  proof (cases rule: ReserveStock_cases)
    case unchanged
    then show ?thesis using \<open>\<not> stock_untouched _ _ _\<close>
      by (simp add: same_inventory_rows_def stock_untouched_def)
  next
    case reserved
    then show ?thesis by (simp add: take_two_def)
  next
    case (rejected it reason)
    then show ?thesis using \<open>\<not> stock_untouched _ _ _\<close> by simp
  qed
  from stock_answer_read_back [OF ref_uuid_laws ref_inventory_db_laws _ this] show ?thesis
    by (simp add: counting_def numeral_eq_Suc)
qed

end
