(* ===== verification/Inventory_Concurrency.thy ===== *)
theory Inventory_Concurrency
  imports Inventory_Service
begin

text \<open>
  Reservations that overlap. The service may run in several processes, and the broker may deliver
  a request again while its first delivery is still being handled, so the transactions of
  \<open>inventory_repository_pg.go\<close> overlap statement by statement. Each read of \<open>checkAndLockStock\<close> is
  a \<open>SELECT ... FOR UPDATE\<close>: it waits until no other transaction holds the row, reads the row as
  it is committed then (PostgreSQL's default READ COMMITTED), and keeps it locked until the
  transaction ends. The machine below runs any number of transactions with one step per
  statement of the check; the theorems show that each transaction still takes effect as a whole,
  as the contract of \<open>Inventory_Service\<close> says, and when transactions can wait for each other in a
  circle.

  The writes of a transaction are one step at its end. They are visible to the others only from
  the commit on, they update only rows the transaction has locked, and an INSERT that conflicts
  with one of a transaction still running waits for that one to end.
\<close>

section \<open>One transaction in steps\<close>

record reserve_job =
  jb_message :: uuid
  jb_order :: uuid
  jb_items :: "ReserveStockItem list"
  jb_payload :: body
  jb_new :: "nat \<Rightarrow> uuid"
  jb_clock :: "nat \<Rightarrow> time"

text \<open>What the reads of a transaction have led to.\<close>

datatype decision =
    Abort err
  | Seen
  | Answer bool string "uuid \<rightharpoonup> inventory_row"

text \<open>One iteration of \<open>checkAndLockStock\<close>: a decision, or the rows read so far.\<close>

definition check_item ::
  "'s inventory_db \<Rightarrow> (uuid \<Rightarrow> string) \<Rightarrow> 's \<Rightarrow> ReserveStockItem \<Rightarrow> (uuid \<rightharpoonup> inventory_row)
   \<Rightarrow> decision + (uuid \<rightharpoonup> inventory_row)" where
  "check_item D ustr s item inventories =
     (case g_first (nv_inventory D) s (\<lambda>r. iv_product_id r = rs_product_id item) of
        Inl err \<Rightarrow>
          if errors_Is err ErrRecordNotFound
          then Inl (Answer False (''inventory not found for product '' @ ustr (rs_product_id item)) inventories)
          else Inl (Abort err)
      | Inr inventory \<Rightarrow>
          if sint (iv_available inventory) < sint (rs_quantity item)
          then Inl (Answer False (''insufficient stock for product '' @ ustr (rs_product_id item)) inventories)
          else Inr (inventories(rs_product_id item \<mapsto> inventory)))"

text \<open>The row the iteration's query locks.\<close>

definition locked_row :: "'s inventory_db \<Rightarrow> 's \<Rightarrow> ReserveStockItem \<Rightarrow> uuid option" where
  "locked_row D s item =
     (case g_first (nv_inventory D) s (\<lambda>r. iv_product_id r = rs_product_id item) of
        Inl err \<Rightarrow> None
      | Inr inventory \<Rightarrow> Some (iv_id inventory))"

text \<open>The rest of the transaction's function once the reads are done.\<close>

definition finish_reservation ::
  "'s inventory_db \<Rightarrow> (uuid \<Rightarrow> string) \<Rightarrow> reserve_job \<Rightarrow> decision \<Rightarrow> 's act" where
  "finish_reservation D ustr j d s =
     (case d of
        Abort e \<Rightarrow> (Some e, s)
      | Seen \<Rightarrow> (None, s)
      | Answer success reason inventories \<Rightarrow>
          if success
          then seq (reserveStock D (jb_new j) 0 (jb_clock j 0) (jb_order j) (jb_items j) inventories)
            (seq (insertOutbox D ustr (jb_new j) (length (jb_items j)) (jb_clock j 1) (jb_order j)
                    ''StockReserved'' '''' (jb_items j))
              (insertInbox D (jb_new j (length (jb_items j) + 2)) (jb_clock j 2) (jb_message j)
                    ''ReserveStockRequested'' (jb_payload j))) s
          else seq (insertOutbox D ustr (jb_new j) 0 (jb_clock j 0) (jb_order j)
                    ''StockReservationFailed'' reason (jb_items j))
              (insertInbox D (jb_new j 2) (jb_clock j 1) (jb_message j)
                    ''ReserveStockRequested'' (jb_payload j)) s)"

text \<open>Without interruption these steps are the body of the transaction.\<close>

fun check_all ::
  "'s inventory_db \<Rightarrow> (uuid \<Rightarrow> string) \<Rightarrow> 's \<Rightarrow> ReserveStockItem list \<Rightarrow> (uuid \<rightharpoonup> inventory_row) \<Rightarrow> decision" where
  "check_all D ustr s [] inventories = Answer True '''' inventories"
| "check_all D ustr s (item # items) inventories =
     (case check_item D ustr s item inventories of
        Inl d \<Rightarrow> d
      | Inr inventories' \<Rightarrow> check_all D ustr s items inventories')"

lemma check_all_eq:
  "check_all D ustr s items inventories =
     (case checkAndLockStock D ustr s items inventories of
        Inl e \<Rightarrow> Abort e
      | Inr (success, reason, m) \<Rightarrow> Answer success reason m)"
  by (induction items arbitrary: inventories) (auto simp: check_item_def split: sum.splits)

lemma reserve_body_steps:
  "reserve_body D ustr (jb_new j) (jb_clock j) (jb_message j) (jb_order j) (jb_items j) (jb_payload j) s =
     finish_reservation D ustr j
       (case isMessageProcessed D s (jb_message j) of
          Inl e \<Rightarrow> Abort e
        | Inr True \<Rightarrow> Seen
        | Inr False \<Rightarrow> check_all D ustr s (jb_items j) Map.empty) s"
  by (auto simp: reserve_body_def finish_reservation_def check_all_eq Let_def
      split: sum.splits bool.splits prod.splits)

section \<open>The machine\<close>

datatype phase =
    Waiting
  | Locking "ReserveStockItem list" "uuid \<rightharpoonup> inventory_row"
  | Decided decision
  | Ended "err option"

record 's reserving =
  cm_db :: 's
  cm_locks :: "uuid \<rightharpoonup> nat"
  cm_phase :: "nat \<Rightarrow> phase"

definition reserving_start :: "'s \<Rightarrow> 's reserving" where
  "reserving_start s = \<lparr>cm_db = s, cm_locks = Map.empty, cm_phase = \<lambda>t. Waiting\<rparr>"

definition begin_phase :: "'s inventory_db \<Rightarrow> 's \<Rightarrow> reserve_job \<Rightarrow> phase" where
  "begin_phase D s j =
     (case isMessageProcessed D s (jb_message j) of
        Inl e \<Rightarrow> Decided (Abort e)
      | Inr True \<Rightarrow> Decided Seen
      | Inr False \<Rightarrow> Locking (jb_items j) Map.empty)"

definition check_phase ::
  "'s inventory_db \<Rightarrow> (uuid \<Rightarrow> string) \<Rightarrow> 's \<Rightarrow> ReserveStockItem \<Rightarrow> ReserveStockItem list
   \<Rightarrow> (uuid \<rightharpoonup> inventory_row) \<Rightarrow> phase" where
  "check_phase D ustr s item items inventories =
     (case check_item D ustr s item inventories of
        Inl d \<Rightarrow> Decided d
      | Inr inventories' \<Rightarrow> Locking items inventories')"

text \<open>\<open>FOR UPDATE\<close>: the row is free or the transaction's own, and then it is the transaction's.\<close>

definition row_free :: "(uuid \<rightharpoonup> nat) \<Rightarrow> nat \<Rightarrow> uuid option \<Rightarrow> bool" where
  "row_free locks t k = (case k of None \<Rightarrow> True | Some i \<Rightarrow> locks i = None \<or> locks i = Some t)"

definition take_row :: "(uuid \<rightharpoonup> nat) \<Rightarrow> nat \<Rightarrow> uuid option \<Rightarrow> (uuid \<rightharpoonup> nat)" where
  "take_row locks t k = (case k of None \<Rightarrow> locks | Some i \<Rightarrow> locks(i \<mapsto> t))"

definition release :: "(uuid \<rightharpoonup> nat) \<Rightarrow> nat \<Rightarrow> (uuid \<rightharpoonup> nat)" where
  "release locks t = (\<lambda>i. if locks i = Some t then None else locks i)"

text \<open>
  The steps. \<open>broken\<close> is a read that fails: a deadline that passes while the transaction waits, a
  lost connection, or PostgreSQL's choice of a victim in a deadlock. \<open>elsewhere\<close> is another client
  of the database that leaves stock, reservations and requests alone, as the outbox worker does.
\<close>

inductive reserve_step ::
  "'s inventory_db \<Rightarrow> (uuid \<Rightarrow> string) \<Rightarrow> (nat \<Rightarrow> reserve_job) \<Rightarrow> 's reserving \<Rightarrow> 's reserving \<Rightarrow> bool"
  for D ustr J where
  begins: "cm_phase M t = Waiting
    \<Longrightarrow> reserve_step D ustr J M (M\<lparr>cm_phase := (cm_phase M)(t := begin_phase D (cm_db M) (J t))\<rparr>)"
| reads: "cm_phase M t = Locking (item # items) inventories
    \<Longrightarrow> row_free (cm_locks M) t (locked_row D (cm_db M) item)
    \<Longrightarrow> reserve_step D ustr J M
          (M\<lparr>cm_locks := take_row (cm_locks M) t (locked_row D (cm_db M) item),
             cm_phase := (cm_phase M)(t := check_phase D ustr (cm_db M) item items inventories)\<rparr>)"
| all_read: "cm_phase M t = Locking [] inventories
    \<Longrightarrow> reserve_step D ustr J M (M\<lparr>cm_phase := (cm_phase M)(t := Decided (Answer True '''' inventories))\<rparr>)"
| broken: "cm_phase M t = Locking items inventories
    \<Longrightarrow> reserve_step D ustr J M (M\<lparr>cm_phase := (cm_phase M)(t := Decided (Abort e))\<rparr>)"
| ends: "cm_phase M t = Decided d
    \<Longrightarrow> nv_tx D (cm_db M) (finish_reservation D ustr (J t) d) = (e, s')
    \<Longrightarrow> reserve_step D ustr J M
          (M\<lparr>cm_db := s', cm_locks := release (cm_locks M) t, cm_phase := (cm_phase M)(t := Ended e)\<rparr>)"
| elsewhere: "stock_untouched D (cm_db M) s' \<Longrightarrow> g_rows (nv_inbox D) s' = g_rows (nv_inbox D) (cm_db M)
    \<Longrightarrow> reserve_step D ustr J M (M\<lparr>cm_db := s'\<rparr>)"

section \<open>The contract of a transaction, and one step of the atomic system\<close>

definition reserve_outcome ::
  "'s inventory_db \<Rightarrow> (uuid \<Rightarrow> string) \<Rightarrow> reserve_job \<Rightarrow> 's \<Rightarrow> err option \<Rightarrow> 's \<Rightarrow> bool" where
  "reserve_outcome D ustr j s e s' \<longleftrightarrow>
     (same_inventory_rows D s s' \<and> (e \<noteq> None \<or> jb_message j \<in> inbox_ids (nv_inbox D) s))
   \<or> (stock_reserved D (jb_new j) (jb_clock j 0) s (jb_order j) (jb_items j) s' \<and> inventory_wf D s'
      \<and> answered D s (jb_message j) (stock_event_message ustr (jb_new j) (length (jb_items j)) (jb_clock j 1)
           (jb_order j) ''StockReserved'' '''' (jb_items j)) s')
   \<or> ((\<exists>it\<in>set (jb_items j). \<not> stocked D s it) \<and> stock_untouched D s s'
      \<and> (\<exists>reason. reason \<noteq> '''' \<and> answered D s (jb_message j) (stock_event_message ustr (jb_new j) 0 (jb_clock j 0)
           (jb_order j) ''StockReservationFailed'' reason (jb_items j)) s'))"

definition atomic_step ::
  "'s inventory_db \<Rightarrow> (uuid \<Rightarrow> string) \<Rightarrow> (nat \<Rightarrow> reserve_job) \<Rightarrow> 's \<Rightarrow> 's \<Rightarrow> bool" where
  "atomic_step D ustr J s s' \<longleftrightarrow>
     (stock_untouched D s s' \<and> g_rows (nv_inbox D) s' = g_rows (nv_inbox D) s)
     \<or> (\<exists>t e. reserve_outcome D ustr (J t) s e s')"

lemma reserve_outcome_cases [consumes 1, case_names unchanged reserved rejected]:
  assumes "reserve_outcome D ustr j s e s'"
  obtains "same_inventory_rows D s s'" "e \<noteq> None \<or> jb_message j \<in> inbox_ids (nv_inbox D) s"
  | "stock_reserved D (jb_new j) (jb_clock j 0) s (jb_order j) (jb_items j) s'" "inventory_wf D s'"
      "answered D s (jb_message j) (stock_event_message ustr (jb_new j) (length (jb_items j)) (jb_clock j 1)
           (jb_order j) ''StockReserved'' '''' (jb_items j)) s'"
  | reason where "\<exists>it\<in>set (jb_items j). \<not> stocked D s it" "stock_untouched D s s'" "reason \<noteq> ''''"
      "answered D s (jb_message j) (stock_event_message ustr (jb_new j) 0 (jb_clock j 0)
           (jb_order j) ''StockReservationFailed'' reason (jb_items j)) s'"
  using assms unfolding reserve_outcome_def by blast

lemma outcome_wf:
  assumes "reserve_outcome D ustr j s e s'" and "inventory_wf D s"
  shows "inventory_wf D s'"
  using assms(1)
proof (cases rule: reserve_outcome_cases)
  case unchanged
  show ?thesis by (rule inventory_wf_same [OF assms(2) unchanged(1)])
next
  case reserved
  then show ?thesis by simp
next
  case (rejected reason)
  then show ?thesis using assms(2) by (simp add: stock_untouched_def inventory_wf_def)
qed

lemma outcome_ledger:
  assumes "inventory_db_laws D" and "reserve_outcome D ustr j s e s'" and "ledger D s"
  shows "ledger D s'"
  using assms(2)
proof (cases rule: reserve_outcome_cases)
  case unchanged
  then show ?thesis using assms(3) by (simp add: same_inventory_rows_def ledger_def)
next
  case reserved
  show ?thesis by (rule ledger_reserved [OF assms(1,3) reserved(1)])
next
  case (rejected reason)
  then show ?thesis using assms(3) by (simp add: stock_untouched_def ledger_def)
qed

lemma outcome_inbox:
  assumes "reserve_outcome D ustr j s e s'"
  shows "inbox_ids (nv_inbox D) s \<subseteq> inbox_ids (nv_inbox D) s'"
    and "e = None \<Longrightarrow> jb_message j \<in> inbox_ids (nv_inbox D) s'"
  using assms
  by (cases rule: reserve_outcome_cases; auto simp: answered_def same_inventory_rows_def inbox_ids_def)+

lemma outcome_row:
  assumes "reserve_outcome D ustr j s e s'" and "g_rows (nv_inventory D) s k = Some r"
  shows "\<exists>r'. g_rows (nv_inventory D) s' k = Some r' \<and> iv_product_id r' = iv_product_id r
    \<and> sint (iv_available r') + sint (iv_reserved r') = sint (iv_available r) + sint (iv_reserved r)"
  using assms(1)
proof (cases rule: reserve_outcome_cases)
  case reserved
  then have "stock_moved D s (jb_items j) s'" by (simp add: stock_reserved_def)
  from stock_movedD [OF this assms(2)] obtain r' where r': "g_rows (nv_inventory D) s' k = Some r'"
    "iv_product_id r' = iv_product_id r"
    "sint (iv_available r') = sint (iv_available r) - demanded (jb_items j) (iv_product_id r)"
    "sint (iv_reserved r') = sint (iv_reserved r) + demanded (jb_items j) (iv_product_id r)" .
  then show ?thesis by simp
qed (use assms(2) in \<open>simp_all add: same_inventory_rows_def stock_untouched_def\<close>)

lemma outcome_no_row:
  assumes "reserve_outcome D ustr j s e s'"
  shows "g_rows (nv_inventory D) s k = None \<longleftrightarrow> g_rows (nv_inventory D) s' k = None"
  using assms
proof (cases rule: reserve_outcome_cases)
  case reserved
  then have "stock_moved D s (jb_items j) s'" by (simp add: stock_reserved_def)
  then show ?thesis by (rule stock_moved_None)
qed (simp_all add: same_inventory_rows_def stock_untouched_def)

section \<open>What holds at every moment\<close>

text \<open>The rows a transaction has read are locked by it and are still the committed ones.\<close>

definition held :: "'s inventory_db \<Rightarrow> 's reserving \<Rightarrow> nat \<Rightarrow> (uuid \<rightharpoonup> inventory_row) \<Rightarrow> bool" where
  "held D M t inventories \<longleftrightarrow>
     (\<forall>p r. inventories p = Some r \<longrightarrow> cm_locks M (iv_id r) = Some t
        \<and> g_rows (nv_inventory D) (cm_db M) (iv_id r) = Some r \<and> iv_product_id r = p)"

definition enough :: "(uuid \<rightharpoonup> inventory_row) \<Rightarrow> ReserveStockItem list \<Rightarrow> bool" where
  "enough inventories items \<longleftrightarrow>
     (\<forall>it\<in>set items. \<exists>r. inventories (rs_product_id it) = Some r
        \<and> sint (rs_quantity it) \<le> sint (iv_available r))"

text \<open>Every lock of a transaction that still reads is on a row it has recorded.\<close>

definition recorded :: "'s reserving \<Rightarrow> nat \<Rightarrow> (uuid \<rightharpoonup> inventory_row) \<Rightarrow> bool" where
  "recorded M t inventories \<longleftrightarrow>
     (\<forall>k. cm_locks M k = Some t \<longrightarrow> (\<exists>p r. inventories p = Some r \<and> iv_id r = k))"

text \<open>An item that is out of stock stays so: its row is locked, or there is none.\<close>

definition short :: "'s inventory_db \<Rightarrow> 's reserving \<Rightarrow> nat \<Rightarrow> ReserveStockItem \<Rightarrow> bool" where
  "short D M t it \<longleftrightarrow>
     (\<exists>k r. cm_locks M k = Some t \<and> g_rows (nv_inventory D) (cm_db M) k = Some r
        \<and> iv_product_id r = rs_product_id it \<and> sint (iv_available r) < sint (rs_quantity it))
     \<or> (\<forall>r\<in>ran (g_rows (nv_inventory D) (cm_db M)). iv_product_id r \<noteq> rs_product_id it)"

definition reads_of :: "(uuid \<rightharpoonup> inventory_row) \<Rightarrow> ReserveStockItem list \<Rightarrow> bool" where
  "reads_of inventories items \<longleftrightarrow> dom inventories \<subseteq> rs_product_id ` set items"

fun phase_ok :: "'s inventory_db \<Rightarrow> 's reserving \<Rightarrow> nat \<Rightarrow> reserve_job \<Rightarrow> phase \<Rightarrow> bool" where
  "phase_ok D M t j Waiting \<longleftrightarrow> (\<forall>k. cm_locks M k \<noteq> Some t)"
| "phase_ok D M t j (Locking items inventories) \<longleftrightarrow>
     held D M t inventories \<and> recorded M t inventories
     \<and> (\<exists>seen. jb_items j = seen @ items \<and> enough inventories seen \<and> reads_of inventories seen)"
| "phase_ok D M t j (Decided (Abort e)) \<longleftrightarrow> True"
| "phase_ok D M t j (Decided Seen) \<longleftrightarrow> jb_message j \<in> inbox_ids (nv_inbox D) (cm_db M)"
| "phase_ok D M t j (Decided (Answer success reason inventories)) \<longleftrightarrow>
     (if success then held D M t inventories \<and> enough inventories (jb_items j)
      else reason \<noteq> '''' \<and> (\<exists>it\<in>set (jb_items j). short D M t it))"
| "phase_ok D M t j (Ended e) \<longleftrightarrow> (\<forall>k. cm_locks M k \<noteq> Some t)
     \<and> (e = None \<longrightarrow> jb_message j \<in> inbox_ids (nv_inbox D) (cm_db M))"

definition reserving_ok :: "'s inventory_db \<Rightarrow> (nat \<Rightarrow> reserve_job) \<Rightarrow> 's reserving \<Rightarrow> bool" where
  "reserving_ok D J M \<longleftrightarrow> inventory_wf D (cm_db M) \<and> (\<forall>t. phase_ok D M t (J t) (cm_phase M t))"

text \<open>
  What the other transactions and clients may do meanwhile: keep the rows \<open>t\<close> has locked, keep
  its locks, keep the products' rows and the handled requests.
\<close>

definition undisturbed :: "'s inventory_db \<Rightarrow> nat \<Rightarrow> 's reserving \<Rightarrow> 's reserving \<Rightarrow> bool" where
  "undisturbed D t M M' \<longleftrightarrow>
     (\<forall>k. cm_locks M' k = Some t \<longleftrightarrow> cm_locks M k = Some t)
     \<and> (\<forall>k. cm_locks M k = Some t \<longrightarrow>
          g_rows (nv_inventory D) (cm_db M') k = g_rows (nv_inventory D) (cm_db M) k)
     \<and> iv_product_id ` ran (g_rows (nv_inventory D) (cm_db M'))
         = iv_product_id ` ran (g_rows (nv_inventory D) (cm_db M))
     \<and> inbox_ids (nv_inbox D) (cm_db M) \<subseteq> inbox_ids (nv_inbox D) (cm_db M')"

lemma short_undisturbed:
  assumes "short D M t it" and "undisturbed D t M M'"
  shows "short D M' t it"
  using assms(1) [unfolded short_def]
proof (elim disjE exE conjE)
  fix k r
  assume "cm_locks M k = Some t" "g_rows (nv_inventory D) (cm_db M) k = Some r"
    "iv_product_id r = rs_product_id it" "sint (iv_available r) < sint (rs_quantity it)"
  then show ?thesis using assms(2) unfolding short_def undisturbed_def by metis
next
  assume "\<forall>r\<in>ran (g_rows (nv_inventory D) (cm_db M)). iv_product_id r \<noteq> rs_product_id it"
  then have "rs_product_id it \<notin> iv_product_id ` ran (g_rows (nv_inventory D) (cm_db M))" by auto
  then have "rs_product_id it \<notin> iv_product_id ` ran (g_rows (nv_inventory D) (cm_db M'))"
    using assms(2) by (simp add: undisturbed_def)
  then show ?thesis unfolding short_def by (metis imageI)
qed

lemma held_undisturbed: "held D M t m \<Longrightarrow> undisturbed D t M M' \<Longrightarrow> held D M' t m"
  unfolding held_def undisturbed_def by metis

lemma phase_ok_undisturbed:
  assumes ok: "phase_ok D M t j ph" and u: "undisturbed D t M M'"
  shows "phase_ok D M' t j ph"
proof (cases ph)
  case (Locking items inventories)
  then show ?thesis using ok u held_undisturbed [OF _ u] by (auto simp: recorded_def undisturbed_def)
next
  case (Decided d)
  show ?thesis
  proof (cases d)
    case (Answer success reason inventories)
    then show ?thesis using Decided ok held_undisturbed [OF _ u] short_undisturbed [OF _ u]
      by (cases success) fastforce+
  qed (use Decided ok u in \<open>auto simp: undisturbed_def\<close>)
qed (use ok u in \<open>auto simp: undisturbed_def\<close>)

text \<open>The laws of a snapshot that is held.\<close>

lemma held_snapshot:
  assumes "held D M t m" and "enough m items"
  shows "snapshot_ok D (cm_db M) items m" and "\<forall>it\<in>set items. stocked D (cm_db M) it"
proof -
  show "snapshot_ok D (cm_db M) items m"
    using assms unfolding snapshot_ok_def held_def enough_def by blast
  show "\<forall>it\<in>set items. stocked D (cm_db M) it"
    using assms unfolding stocked_def held_def enough_def by (metis ranI)
qed

lemma short_unstocked:
  assumes "inventory_wf D (cm_db M)" and "short D M t it"
  shows "\<not> stocked D (cm_db M) it"
proof
  assume "stocked D (cm_db M) it"
  then obtain r where r: "r \<in> ran (g_rows (nv_inventory D) (cm_db M))" "iv_product_id r = rs_product_id it"
    "sint (rs_quantity it) \<le> sint (iv_available r)" unfolding stocked_def by blast
  from assms(2) [unfolded short_def] r(1,2) obtain k q
    where q: "g_rows (nv_inventory D) (cm_db M) k = Some q" "iv_product_id q = rs_product_id it"
      "sint (iv_available q) < sint (rs_quantity it)" by blast
  then have "q = r" using assms(1) r(1,2) unfolding inventory_wf_def by (metis ranI)
  with q r show False by simp
qed

section \<open>The end of a transaction\<close>

text \<open>The loop of UPDATEs reaches only the rows of its snapshot.\<close>

lemma reserveStock_other_rows:
  assumes laws: "inventory_db_laws D"
    and "reserveStock D new k now orderID items inventories s = (None, s')"
    and "\<forall>it\<in>set items. \<exists>r. inventories (rs_product_id it) = Some r \<and> iv_id r \<noteq> i"
  shows "g_rows (nv_inventory D) s' i = g_rows (nv_inventory D) s i"
  using assms(2,3)
proof (induction items arbitrary: k s)
  case Nil
  then show ?case by simp
next
  case (Cons it items)
  then obtain row where row: "inventories (rs_product_id it) = Some row" "iv_id row \<noteq> i" by auto
  obtain s1 s2 where
    u: "g_updates (nv_inventory D) s (\<lambda>r. iv_id r = iv_id row) (reserve_update row (rs_quantity it) now) = (None, s1)"
    and c: "g_create (nv_reservations D) s1 [new_reservation (new k) orderID it now] = (None, s2)"
    and rest: "reserveStock D new (Suc k) now orderID items inventories s2 = (None, s')"
    by (rule reserveStock_cons [OF Cons.prems(1) row(1)])
  have key: "sc_key inventory_schema (reserve_update row (rs_quantity it) now r) = sc_key inventory_schema r" for r
    by (simp add: inventory_schema_def reserve_update_def)
  have "g_rows (nv_inventory D) s1 i = g_rows (nv_inventory D) s i"
    using inventory_key [OF laws, of s i] row(2)
    by (auto simp: gorm_updates_None(2) [OF inventory_gorm(1) [OF laws] u key] update_rows_def split: option.splits)
  moreover have "g_rows (nv_inventory D) s2 = g_rows (nv_inventory D) s1"
    by (rule gorm_frameD(3) [OF inventory_frames(4) [OF laws] c])
  moreover have "g_rows (nv_inventory D) s' i = g_rows (nv_inventory D) s2 i"
    by (rule Cons.IH [OF rest]) (use Cons.prems(2) in simp)
  ultimately show ?case by simp
qed

lemma finish_committed:
  assumes laws: "inventory_db_laws D" and new: "\<And>i. jb_new j i \<noteq> 0"
    and ok: "phase_ok D M t j (Decided d)" and wf: "inventory_wf D (cm_db M)"
    and run: "finish_reservation D ustr j d (cm_db M) = (None, s')"
  shows "reserve_outcome D ustr j (cm_db M) None s'"
    and "\<And>k. cm_locks M k \<noteq> Some t \<Longrightarrow> g_rows (nv_inventory D) s' k = g_rows (nv_inventory D) (cm_db M) k"
proof -
  let ?P = "reserve_outcome D ustr j (cm_db M) None s' \<and>
    (\<forall>k. cm_locks M k \<noteq> Some t \<longrightarrow> g_rows (nv_inventory D) s' k = g_rows (nv_inventory D) (cm_db M) k)"
  have ?P
  proof (cases d)
    case (Abort e)
    then show ?thesis using run by (simp add: finish_reservation_def)
  next
    case Seen
    then show ?thesis using run ok
      by (simp add: finish_reservation_def reserve_outcome_def same_inventory_rows_def)
  next
    case (Answer success reason inventories)
    show ?thesis
    proof (cases success)
      case True
      with Answer ok have h: "held D M t inventories" and en: "enough inventories (jb_items j)" by simp_all
      have run': "seq (reserveStock D (jb_new j) 0 (jb_clock j 0) (jb_order j) (jb_items j) inventories)
            (seq (insertOutbox D ustr (jb_new j) (length (jb_items j)) (jb_clock j 1) (jb_order j)
                    ''StockReserved'' '''' (jb_items j))
              (insertInbox D (jb_new j (length (jb_items j) + 2)) (jb_clock j 2) (jb_message j)
                    ''ReserveStockRequested'' (jb_payload j))) (cm_db M) = (None, s')"
        using run Answer True by (simp add: finish_reservation_def)
      have out: "reserve_outcome D ustr j (cm_db M) None s'"
        using reserve_success [OF laws new wf held_snapshot [OF h en] run'] by (simp add: reserve_outcome_def)
      from run' obtain s1 where r1: "reserveStock D (jb_new j) 0 (jb_clock j 0) (jb_order j) (jb_items j)
            inventories (cm_db M) = (None, s1)"
        and rest: "seq (insertOutbox D ustr (jb_new j) (length (jb_items j)) (jb_clock j 1) (jb_order j)
                    ''StockReserved'' '''' (jb_items j))
              (insertInbox D (jb_new j (length (jb_items j) + 2)) (jb_clock j 2) (jb_message j)
                    ''ReserveStockRequested'' (jb_payload j)) s1 = (None, s')"
        by (auto simp: seq_None_iff)
      have "g_rows (nv_inventory D) s' k = g_rows (nv_inventory D) (cm_db M) k" if "cm_locks M k \<noteq> Some t" for k
      proof -
        have "\<forall>it\<in>set (jb_items j). \<exists>r. inventories (rs_product_id it) = Some r \<and> iv_id r \<noteq> k"
          using h en that unfolding held_def enough_def by metis
        from reserveStock_other_rows [OF laws r1 this] answer_None(2) [OF laws new rest] show ?thesis
          by (simp add: stock_untouched_def)
      qed
      with out show ?thesis by blast
    next
      case False
      with Answer ok obtain it where re: "reason \<noteq> ''''" and it: "it \<in> set (jb_items j)" "short D M t it" by auto
      have "seq (insertOutbox D ustr (jb_new j) 0 (jb_clock j 0) (jb_order j)
                    ''StockReservationFailed'' reason (jb_items j))
              (insertInbox D (jb_new j 2) (jb_clock j 1) (jb_message j)
                    ''ReserveStockRequested'' (jb_payload j)) (cm_db M) = (None, s')"
        using run Answer False by (simp add: finish_reservation_def)
      note ans = answer_None [OF laws new this]
      have "\<not> stocked D (cm_db M) it" by (rule short_unstocked [OF wf it(2)])
      then show ?thesis using ans re it(1)
        by (auto simp: reserve_outcome_def stock_untouched_def)
    qed
  qed
  then show "reserve_outcome D ustr j (cm_db M) None s'"
    and "\<And>k. cm_locks M k \<noteq> Some t \<Longrightarrow> g_rows (nv_inventory D) s' k = g_rows (nv_inventory D) (cm_db M) k"
    by blast+
qed

lemma reserve_outcome_same:
  assumes "reserve_outcome D ustr j s None s1" and "same_inventory_rows D s1 s'"
  shows "reserve_outcome D ustr j s e s'"
  using assms(1)
proof (cases rule: reserve_outcome_cases)
  case unchanged
  then show ?thesis using assms(2) by (simp add: reserve_outcome_def same_inventory_rows_def)
next
  case reserved
  then show ?thesis
    using stock_reserved_same [OF _ assms(2)] inventory_wf_same [OF _ assms(2)] answered_same [OF _ assms(2)]
    by (simp add: reserve_outcome_def)
next
  case (rejected reason)
  then show ?thesis
    using stock_untouched_same [OF _ assms(2)] answered_same [OF _ assms(2)]
    unfolding reserve_outcome_def by blast
qed

lemma finish_outcome:
  assumes laws: "inventory_db_laws D" and new: "\<And>i. jb_new j i \<noteq> 0"
    and ok: "phase_ok D M t j (Decided d)" and wf: "inventory_wf D (cm_db M)"
    and run: "nv_tx D (cm_db M) (finish_reservation D ustr j d) = (e, s')"
  shows "reserve_outcome D ustr j (cm_db M) e s'"
    and "\<And>k. cm_locks M k \<noteq> Some t \<Longrightarrow> g_rows (nv_inventory D) s' k = g_rows (nv_inventory D) (cm_db M) k"
proof -
  have tx: "tx_laws (same_inventory_rows D) (nv_tx D)" using laws by (simp add: inventory_db_laws_def)
  let ?P = "reserve_outcome D ustr j (cm_db M) e s' \<and>
    (\<forall>k. cm_locks M k \<noteq> Some t \<longrightarrow> g_rows (nv_inventory D) s' k = g_rows (nv_inventory D) (cm_db M) k)"
  from tx run have ?P
  proof (cases rule: tx_cases)
    case (committed s1)
    note c = finish_committed [OF laws new ok wf committed(1)]
    from reserve_outcome_same [OF c(1) committed(2)] c(2) committed(2) show ?thesis
      by (simp add: same_inventory_rows_def)
  next
    case rolled_back
    then show ?thesis by (simp add: reserve_outcome_def same_inventory_rows_def)
  qed
  then show "reserve_outcome D ustr j (cm_db M) e s'"
    and "\<And>k. cm_locks M k \<noteq> Some t \<Longrightarrow> g_rows (nv_inventory D) s' k = g_rows (nv_inventory D) (cm_db M) k"
    by blast+
qed

section \<open>Every step keeps it\<close>

lemma outcome_products:
  assumes "reserve_outcome D ustr j s e s'"
  shows "iv_product_id ` ran (g_rows (nv_inventory D) s') = iv_product_id ` ran (g_rows (nv_inventory D) s)"
proof (intro equalityI subsetI)
  fix p assume "p \<in> iv_product_id ` ran (g_rows (nv_inventory D) s)"
  then obtain k r where "g_rows (nv_inventory D) s k = Some r" "p = iv_product_id r" by (auto simp: ran_def)
  with outcome_row [OF assms, of k r] show "p \<in> iv_product_id ` ran (g_rows (nv_inventory D) s')"
    by (auto simp: ran_def intro: rev_image_eqI)
next
  fix p assume "p \<in> iv_product_id ` ran (g_rows (nv_inventory D) s')"
  then obtain k r' where k: "g_rows (nv_inventory D) s' k = Some r'" "p = iv_product_id r'" by (auto simp: ran_def)
  with outcome_no_row [OF assms, of k] obtain r where r: "g_rows (nv_inventory D) s k = Some r" by auto
  with outcome_row [OF assms r] k show "p \<in> iv_product_id ` ran (g_rows (nv_inventory D) s)"
    by (auto simp: ran_def intro: rev_image_eqI)
qed

lemma undisturbed_locks:
  assumes "cm_db M' = cm_db M" and "\<And>k. cm_locks M' k = Some t \<longleftrightarrow> cm_locks M k = Some t"
  shows "undisturbed D t M M'"
  using assms by (simp add: undisturbed_def)

lemma take_row_other:
  "row_free locks t k \<Longrightarrow> u \<noteq> t \<Longrightarrow> take_row locks t k i = Some u \<longleftrightarrow> locks i = Some u"
  by (auto simp: row_free_def take_row_def split: option.splits)

lemma release_other: "u \<noteq> t \<Longrightarrow> release locks t i = Some u \<longleftrightarrow> locks i = Some u"
  by (simp add: release_def)

lemma release_own: "release locks t i \<noteq> Some t"
  by (simp add: release_def)

text \<open>One read: the row is the transaction's from here on.\<close>

lemma check_item_row:
  assumes laws: "inventory_db_laws D" and "check_item D ustr s item inventories = Inr inventories'"
  obtains r where "inventories' = inventories(rs_product_id item \<mapsto> r)" and "locked_row D s item = Some (iv_id r)"
    and "g_rows (nv_inventory D) s (iv_id r) = Some r" and "iv_product_id r = rs_product_id item"
    and "sint (rs_quantity item) \<le> sint (iv_available r)"
proof -
  from assms(2) obtain r where r: "g_first (nv_inventory D) s (\<lambda>r. iv_product_id r = rs_product_id item) = Inr r"
    and "inventories' = inventories(rs_product_id item \<mapsto> r)" "sint (rs_quantity item) \<le> sint (iv_available r)"
    by (auto simp: check_item_def split: sum.splits if_splits)
  with that check_first [OF laws r] show thesis by (simp add: locked_row_def)
qed

lemma check_item_short:
  assumes laws: "inventory_db_laws D"
    and "check_item D ustr s item inventories = Inl (Answer success reason m)"
  shows "\<not> success" and "reason \<noteq> ''''"
    and "(\<exists>r. locked_row D s item = Some (iv_id r) \<and> g_rows (nv_inventory D) s (iv_id r) = Some r
        \<and> iv_product_id r = rs_product_id item \<and> sint (iv_available r) < sint (rs_quantity item))
      \<or> (\<forall>r\<in>ran (g_rows (nv_inventory D) s). iv_product_id r \<noteq> rs_product_id item)"
proof -
  show "\<not> success" and "reason \<noteq> ''''"
    using assms(2) by (auto simp: check_item_def split: sum.splits if_splits)
  show "(\<exists>r. locked_row D s item = Some (iv_id r) \<and> g_rows (nv_inventory D) s (iv_id r) = Some r
        \<and> iv_product_id r = rs_product_id item \<and> sint (iv_available r) < sint (rs_quantity item))
      \<or> (\<forall>r\<in>ran (g_rows (nv_inventory D) s). iv_product_id r \<noteq> rs_product_id item)"
  proof (cases "g_first (nv_inventory D) s (\<lambda>r. iv_product_id r = rs_product_id item)")
    case (Inl err)
    with assms(2) have "errors_Is err ErrRecordNotFound" by (auto simp: check_item_def split: if_splits)
    with gorm_first_not_found [OF inventory_gorm(1) [OF laws] Inl] show ?thesis by blast
  next
    case (Inr r)
    with assms(2) check_first [OF laws Inr] show ?thesis
      by (auto simp: check_item_def locked_row_def split: if_splits)
  qed
qed

lemma reads_phase_ok:
  assumes laws: "inventory_db_laws D" and wf: "inventory_wf D (cm_db M)"
    and ok: "phase_ok D M t j (Locking (item # items) inventories)"
    and db: "cm_db M' = cm_db M" and free: "row_free (cm_locks M) t (locked_row D (cm_db M) item)"
    and locks: "cm_locks M' = take_row (cm_locks M) t (locked_row D (cm_db M) item)"
  shows "phase_ok D M' t j (check_phase D ustr (cm_db M) item items inventories)"
proof -
  from ok obtain seen where h: "held D M t inventories" and rec: "recorded M t inventories"
    and seen: "jb_items j = seen @ item # items" "enough inventories seen" "reads_of inventories seen" by auto
  have keep: "cm_locks M k = Some t \<Longrightarrow> cm_locks M' k = Some t" for k
    by (auto simp: locks take_row_def split: option.splits)
  show ?thesis
  proof (cases "check_item D ustr (cm_db M) item inventories")
    case (Inl d)
    have it: "item \<in> set (jb_items j)" using seen(1) by simp
    show ?thesis
    proof (cases d)
      case (Answer success reason m)
      note s = check_item_short [OF laws Inl [unfolded Answer]]
      have "short D M' t item"
        using s(3) unfolding short_def db locks by (auto simp: take_row_def)
      then show ?thesis using Inl Answer s(1,2) it by (auto simp: check_phase_def)
    next
      case Seen
      then show ?thesis using Inl by (auto simp: check_item_def split: sum.splits if_splits)
    qed (use Inl in \<open>simp add: check_phase_def\<close>)
  next
    case (Inr inventories')
    obtain r where r: "inventories' = inventories(rs_product_id item \<mapsto> r)"
      "locked_row D (cm_db M) item = Some (iv_id r)" "g_rows (nv_inventory D) (cm_db M) (iv_id r) = Some r"
      "iv_product_id r = rs_product_id item" "sint (rs_quantity item) \<le> sint (iv_available r)"
      using check_item_row [OF laws Inr] .
    have same: "q = r" if "inventories (rs_product_id item) = Some q" for q
    proof -
      from h that have "g_rows (nv_inventory D) (cm_db M) (iv_id q) = Some q"
        "iv_product_id q = rs_product_id item" unfolding held_def by auto
      with wf r(3,4) show ?thesis unfolding inventory_wf_def by (metis ranI)
    qed
    have "held D M' t inventories'"
      using h r keep unfolding held_def db by (auto simp: locks take_row_def)
    moreover have "recorded M' t inventories'"
      unfolding recorded_def
    proof (intro allI impI)
      fix k assume k: "cm_locks M' k = Some t"
      show "\<exists>p q. inventories' p = Some q \<and> iv_id q = k"
      proof (cases "k = iv_id r")
        case True
        then show ?thesis using r(1) by auto
      next
        case False
        with k have "cm_locks M k = Some t" by (simp add: locks r(2) take_row_def)
        with rec obtain p q where q: "inventories p = Some q" "iv_id q = k" unfolding recorded_def by blast
        have "p \<noteq> rs_product_id item" using same q False by auto
        with q False r(1) show ?thesis by (intro exI [of _ p] exI [of _ q]) auto
      qed
    qed
    moreover have "enough inventories' (seen @ [item])"
      using seen(2) r same by (fastforce simp: enough_def)
    moreover have "reads_of inventories' (seen @ [item])"
      using seen(3) r(1) by (auto simp: reads_of_def)
    ultimately show ?thesis using Inr seen(1) by (auto simp: check_phase_def intro: exI [of _ "seen @ [item]"])
  qed
qed

text \<open>The transaction that moves keeps its part; the others are not disturbed.\<close>

lemma reserving_ok_step:
  assumes "reserving_ok D J M" and "inventory_wf D (cm_db M')"
    and "cm_phase M' = (cm_phase M)(t := ph)" and "phase_ok D M' t (J t) ph"
    and "\<And>u. u \<noteq> t \<Longrightarrow> undisturbed D u M M'"
  shows "reserving_ok D J M'"
  unfolding reserving_ok_def
proof (intro conjI allI)
  fix u
  show "phase_ok D M' u (J u) (cm_phase M' u)"
  proof (cases "u = t")
    case True
    then show ?thesis using assms(3,4) by simp
  next
    case False
    have "phase_ok D M u (J u) (cm_phase M u)" using assms(1) by (simp add: reserving_ok_def)
    from phase_ok_undisturbed [OF this assms(5) [OF False]] False assms(3) show ?thesis by simp
  qed
qed (rule assms(2))

lemma reserve_step_ok:
  assumes laws: "inventory_db_laws D" and new: "\<And>t i. jb_new (J t) i \<noteq> 0"
    and ok: "reserving_ok D J M" and step: "reserve_step D ustr J M M'"
  shows "reserving_ok D J M' \<and> atomic_step D ustr J (cm_db M) (cm_db M')"
proof -
  have wf: "inventory_wf D (cm_db M)" and ph: "phase_ok D M t (J t) (cm_phase M t)" for t
    using ok by (simp_all add: reserving_ok_def)
  have still: "atomic_step D ustr J (cm_db M) (cm_db M)" by (simp add: atomic_step_def stock_untouched_def)
  have local: ?thesis
    if "cm_db M' = cm_db M" "cm_phase M' = (cm_phase M)(t := q)" "phase_ok D M' t (J t) q"
      and "\<And>u k. u \<noteq> t \<Longrightarrow> cm_locks M' k = Some u \<longleftrightarrow> cm_locks M k = Some u" for t q
  proof -
    have "reserving_ok D J M'"
      by (rule reserving_ok_step [OF ok _ that(2,3)]) (use wf that(1,4) in \<open>simp_all add: undisturbed_locks\<close>)
    then show ?thesis using still that(1) by simp
  qed
  from step show ?thesis
  proof cases
    case (begins t)
    have seen: "b \<longleftrightarrow> jb_message (J t) \<in> inbox_ids (nv_inbox D) (cm_db M)"
      if "isMessageProcessed D (cm_db M) (jb_message (J t)) = Inr b" for b
      using inbox_has_iff [OF inventory_gorm(4) [OF laws] that [unfolded isMessageProcessed_def]] .
    have "phase_ok D M t (J t) (begin_phase D (cm_db M) (J t))"
      using ph [of t] begins(2) seen
      by (auto simp: begin_phase_def held_def recorded_def enough_def reads_of_def split: sum.splits bool.splits)
    then have "phase_ok D M' t (J t) (begin_phase D (cm_db M) (J t))"
      by (rule phase_ok_undisturbed) (simp add: begins(1) undisturbed_locks)
    then show ?thesis by (rule local [rotated 2]) (simp_all add: begins(1))
  next
    case (reads t item items inventories)
    have "phase_ok D M' t (J t) (check_phase D ustr (cm_db M) item items inventories)"
      using ph [of t] reads by (intro reads_phase_ok [OF laws wf]) simp_all
    then show ?thesis by (rule local [rotated 2]) (simp_all add: reads(1) take_row_other [OF reads(3)])
  next
    case (all_read t inventories)
    have "phase_ok D M t (J t) (Decided (Answer True '''' inventories))"
      using ph [of t] all_read(2) by simp
    then have "phase_ok D M' t (J t) (Decided (Answer True '''' inventories))"
      by (rule phase_ok_undisturbed) (simp add: all_read(1) undisturbed_locks)
    then show ?thesis by (rule local [rotated 2]) (simp_all add: all_read(1))
  next
    case (broken t items inventories e)
    have "phase_ok D M' t (J t) (Decided (Abort e))" by simp
    then show ?thesis by (rule local [rotated 2]) (simp_all add: broken(1))
  next
    case (ends t d e s')
    have okd: "phase_ok D M t (J t) (Decided d)" using ph [of t] ends(2) by simp
    note out = finish_outcome [OF laws new okd wf ends(3)]
    have "undisturbed D u M M'" if "u \<noteq> t" for u
      using that out(2) outcome_products [OF out(1)] outcome_inbox(1) [OF out(1)]
      by (auto simp: ends(1) undisturbed_def release_other)
    moreover have "phase_ok D M' t (J t) (Ended e)"
      using outcome_inbox(2) [OF out(1)] by (simp add: ends(1) release_own)
    moreover have "inventory_wf D (cm_db M')" using outcome_wf [OF out(1) wf] by (simp add: ends(1))
    moreover have "atomic_step D ustr J (cm_db M) (cm_db M')"
      using out(1) by (auto simp: ends(1) atomic_step_def)
    ultimately show ?thesis using reserving_ok_step [OF ok, of M' t] by (simp add: ends(1))
  next
    case (elsewhere s')
    have u: "undisturbed D u M M'" for u
      using elsewhere by (auto simp: undisturbed_def stock_untouched_def inbox_ids_def)
    have "inventory_wf D (cm_db M')"
      using wf elsewhere by (simp add: inventory_wf_def stock_untouched_def)
    moreover have "phase_ok D M' t (J t) (cm_phase M' t)" for t
      using phase_ok_undisturbed [OF ph u] elsewhere(1) by simp
    ultimately show ?thesis
      using elsewhere by (auto simp: reserving_ok_def atomic_step_def)
  qed
qed

lemma reserving_start_ok: "inventory_wf D s \<Longrightarrow> reserving_ok D J (reserving_start s)"
  by (simp add: reserving_ok_def reserving_start_def)

lemma reserve_steps_ok:
  assumes laws: "inventory_db_laws D" and new: "\<And>t i. jb_new (J t) i \<noteq> 0" and "inventory_wf D s"
    and "(reserve_step D ustr J)\<^sup>*\<^sup>* (reserving_start s) M"
  shows "reserving_ok D J M \<and> (atomic_step D ustr J)\<^sup>*\<^sup>* s (cm_db M)"
  using assms(4)
proof (induction rule: rtranclp_induct)
  case base
  show ?case using reserving_start_ok [OF assms(3)] by (simp add: reserving_start_def)
next
  case (step M M')
  from reserve_step_ok [OF laws new step.IH [THEN conjunct1] step.hyps(2)] step.IH show ?case
    by (auto intro: rtranclp.rtrancl_into_rtrancl)
qed

text \<open>What the atomic steps keep.\<close>

lemma atomic_steps_keep:
  assumes laws: "inventory_db_laws D" and "inventory_wf D s" and "ledger D s"
    and "(atomic_step D ustr J)\<^sup>*\<^sup>* s s'"
  shows "inventory_wf D s' \<and> ledger D s' \<and>
    (\<forall>k r. g_rows (nv_inventory D) s k = Some r \<longrightarrow>
      (\<exists>r'. g_rows (nv_inventory D) s' k = Some r' \<and> iv_product_id r' = iv_product_id r
        \<and> sint (iv_available r') + sint (iv_reserved r') = sint (iv_available r) + sint (iv_reserved r)))"
  using assms(4)
proof (induction rule: rtranclp_induct)
  case base
  show ?case using assms(2,3) by auto
next
  case (step t t')
  from step.hyps(2) [unfolded atomic_step_def] show ?case
  proof (elim disjE exE conjE)
    assume "stock_untouched D t t'" "g_rows (nv_inbox D) t' = g_rows (nv_inbox D) t"
    then show ?thesis using step.IH by (simp add: stock_untouched_def inventory_wf_def ledger_def)
  next
    fix u e assume out: "reserve_outcome D ustr (J u) t e t'"
    have "\<exists>r'. g_rows (nv_inventory D) t' k = Some r' \<and> iv_product_id r' = iv_product_id r
        \<and> sint (iv_available r') + sint (iv_reserved r') = sint (iv_available r) + sint (iv_reserved r)"
      if r: "g_rows (nv_inventory D) s k = Some r" for k r
    proof -
      from step.IH r obtain r1 where r1: "g_rows (nv_inventory D) t k = Some r1" "iv_product_id r1 = iv_product_id r"
        "sint (iv_available r1) + sint (iv_reserved r1) = sint (iv_available r) + sint (iv_reserved r)" by blast
      from outcome_row [OF out r1(1)] r1 show ?thesis by auto
    qed
    then show ?thesis using outcome_wf [OF out] outcome_ledger [OF laws out] step.IH by blast
  qed
qed

section \<open>Who waits for whom\<close>

definition waits_for :: "'s inventory_db \<Rightarrow> 's reserving \<Rightarrow> nat \<Rightarrow> nat \<Rightarrow> bool" where
  "waits_for D M t u \<longleftrightarrow>
     (case cm_phase M t of
        Locking (item # items) inventories \<Rightarrow>
          (case locked_row D (cm_db M) item of
             None \<Rightarrow> False
           | Some k \<Rightarrow> cm_locks M k = Some u \<and> u \<noteq> t)
      | _ \<Rightarrow> False)"

lemma waits_forE:
  assumes "waits_for D M t u"
  obtains item items inventories k where "cm_phase M t = Locking (item # items) inventories"
    and "locked_row D (cm_db M) item = Some k" and "cm_locks M k = Some u" and "u \<noteq> t"
  using assms by (auto simp: waits_for_def split: phase.splits list.splits option.splits)

text \<open>A transaction that waits does so until another one ends, or its statement is broken off.\<close>

lemma waiting_stuck:
  assumes "waits_for D M t u" and "reserve_step D ustr J M M'"
  shows "cm_phase M' t = cm_phase M t \<or> (\<exists>e. cm_phase M' t = Decided (Abort e))"
proof -
  from assms(1) obtain item items inventories k where w: "cm_phase M t = Locking (item # items) inventories"
    "locked_row D (cm_db M) item = Some k" "cm_locks M k = Some u" "u \<noteq> t" by (rule waits_forE)
  from assms(2) show ?thesis by cases (use w in \<open>auto simp: row_free_def\<close>)
qed

definition in_order :: "(uuid \<Rightarrow> nat) \<Rightarrow> ReserveStockItem list \<Rightarrow> bool" where
  "in_order rank = sorted_wrt (\<lambda>x y. rank (rs_product_id x) < rank (rs_product_id y))"

definition awaited :: "(uuid \<Rightarrow> nat) \<Rightarrow> 's reserving \<Rightarrow> nat \<Rightarrow> nat" where
  "awaited rank M t =
     (case cm_phase M t of Locking (item # items) inventories \<Rightarrow> rank (rs_product_id item) | _ \<Rightarrow> 0)"

lemma waits_for_rank:
  assumes laws: "inventory_db_laws D" and ok: "reserving_ok D J M" and order: "\<And>t. in_order rank (jb_items (J t))"
    and tu: "waits_for D M t u" and uv: "waits_for D M u v"
  shows "awaited rank M t < awaited rank M u"
proof -
  from tu obtain item items inv k where t: "cm_phase M t = Locking (item # items) inv"
    "locked_row D (cm_db M) item = Some k" "cm_locks M k = Some u" by (rule waits_forE)
  from uv obtain item' items' inv' where u: "cm_phase M u = Locking (item' # items') inv'" by (rule waits_forE)
  have "phase_ok D M u (J u) (cm_phase M u)" using ok by (simp add: reserving_ok_def)
  with u obtain seen where h: "held D M u inv'" and rec: "recorded M u inv'"
    and seen: "jb_items (J u) = seen @ item' # items'" "reads_of inv' seen" by auto
  from rec t(3) obtain p r where r: "inv' p = Some r" "iv_id r = k" unfolding recorded_def by blast
  with h have row: "g_rows (nv_inventory D) (cm_db M) k = Some r" "iv_product_id r = p" unfolding held_def by auto
  from t(2) obtain q where q: "g_first (nv_inventory D) (cm_db M) (\<lambda>r. iv_product_id r = rs_product_id item) = Inr q"
    "iv_id q = k" by (auto simp: locked_row_def split: sum.splits)
  from check_first [OF laws q(1)] q(2) row have p: "p = rs_product_id item" by simp
  from seen(2) r(1) p have "rs_product_id item \<in> rs_product_id ` set seen" by (auto simp: reads_of_def)
  moreover have "in_order rank (seen @ item' # items')" using order [of u] seen(1) by simp
  ultimately have "rank (rs_product_id item) < rank (rs_product_id item')"
    by (auto simp: in_order_def sorted_wrt_append)
  then show ?thesis using t u by (simp add: awaited_def)
qed

lemma waits_for_acyclic:
  assumes laws: "inventory_db_laws D" and ok: "reserving_ok D J M" and order: "\<And>t. in_order rank (jb_items (J t))"
  shows "\<not> (waits_for D M)\<^sup>+\<^sup>+ t t"
proof
  assume cyc: "(waits_for D M)\<^sup>+\<^sup>+ t t"
  then obtain v where tv: "waits_for D M t v" by (meson tranclpD)
  have "waits_for D M u w \<Longrightarrow> awaited rank M t < awaited rank M u" if "(waits_for D M)\<^sup>+\<^sup>+ t u" for u w
    using that
  proof (induction arbitrary: w rule: tranclp_induct)
    case (base y)
    then show ?case using waits_for_rank [OF laws ok order] by blast
  next
    case (step y z)
    have "awaited rank M t < awaited rank M y" by (rule step.IH [OF step.hyps(2)])
    moreover have "awaited rank M y < awaited rank M z"
      by (rule waits_for_rank [OF laws ok order step.hyps(2) step.prems])
    ultimately show ?case by simp
  qed
  from this [OF cyc tv] show False by simp
qed

section \<open>Running a schedule\<close>

text \<open>The step a transaction takes when it is its turn; one that waits or has ended takes none.\<close>

definition turn ::
  "'s inventory_db \<Rightarrow> (uuid \<Rightarrow> string) \<Rightarrow> (nat \<Rightarrow> reserve_job) \<Rightarrow> nat \<Rightarrow> 's reserving \<Rightarrow> 's reserving" where
  "turn D ustr J t M =
     (case cm_phase M t of
        Waiting \<Rightarrow> M\<lparr>cm_phase := (cm_phase M)(t := begin_phase D (cm_db M) (J t))\<rparr>
      | Locking [] inventories \<Rightarrow> M\<lparr>cm_phase := (cm_phase M)(t := Decided (Answer True '''' inventories))\<rparr>
      | Locking (item # items) inventories \<Rightarrow>
          (let k = locked_row D (cm_db M) item
           in if row_free (cm_locks M) t k
              then M\<lparr>cm_locks := take_row (cm_locks M) t k,
                     cm_phase := (cm_phase M)(t := check_phase D ustr (cm_db M) item items inventories)\<rparr>
              else M)
      | Decided d \<Rightarrow>
          (let (e, s') = nv_tx D (cm_db M) (finish_reservation D ustr (J t) d)
           in M\<lparr>cm_db := s', cm_locks := release (cm_locks M) t, cm_phase := (cm_phase M)(t := Ended e)\<rparr>)
      | Ended e \<Rightarrow> M)"

lemma turn_step: "turn D ustr J t M = M \<or> reserve_step D ustr J M (turn D ustr J t M)"
proof (cases "cm_phase M t")
  case (Locking items inventories)
  then show ?thesis
    by (cases items) (auto simp: turn_def Let_def intro: reserve_step.intros)
next
  case (Decided d)
  obtain e s' where "nv_tx D (cm_db M) (finish_reservation D ustr (J t) d) = (e, s')" by fastforce
  then show ?thesis using reserve_step.ends [OF Decided] by (simp add: turn_def Decided)
qed (auto simp: turn_def intro: reserve_step.begins)

definition play ::
  "'s inventory_db \<Rightarrow> (uuid \<Rightarrow> string) \<Rightarrow> (nat \<Rightarrow> reserve_job) \<Rightarrow> nat list \<Rightarrow> 's reserving \<Rightarrow> 's reserving" where
  "play D ustr J = fold (turn D ustr J)"

lemma play_steps: "(reserve_step D ustr J)\<^sup>*\<^sup>* M (play D ustr J ts M)"
proof (induction ts arbitrary: M)
  case Nil
  then show ?case by (simp add: play_def)
next
  case (Cons t ts)
  from turn_step [of D ustr J t M] Cons.IH [of "turn D ustr J t M"] show ?case
    by (auto simp: play_def intro: converse_rtranclp_into_rtranclp)
qed

text \<open>What a transaction has returned, if it has.\<close>

definition returned :: "'s reserving \<Rightarrow> nat \<Rightarrow> err option option" where
  "returned M t = (case cm_phase M t of Ended e \<Rightarrow> Some e | _ \<Rightarrow> None)"

lemma returned_iff: "returned M t = Some e \<longleftrightarrow> cm_phase M t = Ended e"
  by (simp add: returned_def split: phase.splits)

end
