(* ===== verification/Inventory_Concurrency_Properties.thy ===== *)
theory Inventory_Concurrency_Properties
  imports Inventory_Concurrency Inventory_Properties
begin

text \<open>
  The properties of overlapping reservations, with witnesses that run two transactions in turns
  on the reference database: whether the transactions are atomic, what becomes of the stock, and
  when they can block each other.
\<close>

section \<open>Two transactions to run\<close>

definition two_products :: inventory_store where
  "two_products =
     \<lparr>is_inventory =
        [\<lparr>iv_id = 1, iv_product_id = 7, iv_available = 5, iv_reserved = 0, iv_created_at = 0, iv_updated_at = 0\<rparr>,
         \<lparr>iv_id = 2, iv_product_id = 8, iv_available = 5, iv_reserved = 0, iv_created_at = 0, iv_updated_at = 0\<rparr>],
      is_reservations = [], is_outbox = [], is_inbox = []\<rparr>"

definition job_of :: "uuid \<Rightarrow> (nat \<Rightarrow> uuid) \<Rightarrow> ReserveStockItem list \<Rightarrow> reserve_job" where
  "job_of m new items =
     \<lparr>jb_message = m, jb_order = m, jb_items = items, jb_payload = Doc JNull, jb_new = new,
      jb_clock = (\<lambda>i. 0)\<rparr>"

definition want :: "uuid \<Rightarrow> goint \<Rightarrow> ReserveStockItem" where
  "want p q = \<lparr>rs_product_id = p, rs_quantity = q\<rparr>"

definition counting_from :: "nat \<Rightarrow> nat \<Rightarrow> uuid" where
  "counting_from b i = counting (b + i)"

text \<open>Both want three of product 7; both list 7 before 8; they list them in opposite orders.\<close>

definition rivals :: "nat \<Rightarrow> reserve_job" where
  "rivals t = job_of (if t = 0 then 100 else 101) (counting_from (if t = 0 then 0 else 100)) [want 7 3]"

definition alike :: "nat \<Rightarrow> reserve_job" where
  "alike t = job_of (if t = 0 then 100 else 101) (counting_from (if t = 0 then 0 else 100)) [want 7 1, want 8 1]"

definition crossed :: "nat \<Rightarrow> reserve_job" where
  "crossed t = job_of (if t = 0 then 100 else 101) (counting_from (if t = 0 then 0 else 100))
     (if t = 0 then [want 7 1, want 8 1] else [want 8 1, want 7 1])"

lemma two_products_wf: "inventory_wf ref_inventory_db two_products"
  by (simp add: inventory_wf_def ref_inventory_db_def ref_gorm_def two_products_def inventory_schema_def
      int4_def)

lemma two_products_ledger: "ledger ref_inventory_db two_products"
  by (simp add: ledger_def ref_inventory_db_def ref_gorm_def two_products_def inventory_schema_def row_sum_def)

lemma jobs_nonzero: "jb_new (rivals t) i \<noteq> 0" "jb_new (alike t) i \<noteq> 0"
  by (simp_all add: rivals_def alike_def job_of_def counting_from_def counting_nonzero)

abbreviation after :: "(nat \<Rightarrow> reserve_job) \<Rightarrow> nat list \<Rightarrow> inventory_store reserving" where
  "after J ts \<equiv> play ref_inventory_db ref_ustr J ts (reserving_start two_products)"

lemma after_steps: "(reserve_step ref_inventory_db ref_ustr J)\<^sup>*\<^sup>* (reserving_start two_products) (after J ts)"
  by (rule play_steps)

section \<open>The properties\<close>

text \<open>
  C4: Overlapping reservations are atomic. In every interleaving of any number of transactions,
  statement by statement, with failures, broken-off waits and repeated deliveries, the database
  has gone through the states of a sequence of whole transactions, each of which changed nothing,
  reserved all its items from the stock there was, or found one of them short; a transaction that
  returned nil is recorded as handled.
\<close>

theorem concurrent_reservations_atomic:
  assumes "inventory_db_laws D" and "\<forall>t i. jb_new (J t) i \<noteq> 0" and "inventory_wf D s"
    and "(reserve_step D ustr J)\<^sup>*\<^sup>* (reserving_start s) M"
  shows "(atomic_step D ustr J)\<^sup>*\<^sup>* s (cm_db M)
    \<and> (\<forall>t. cm_phase M t = Ended None \<longrightarrow> jb_message (J t) \<in> inbox_ids (nv_inbox D) (cm_db M))"
proof -
  have new: "\<And>t i. jb_new (J t) i \<noteq> 0" using assms(2) by blast
  note run = reserve_steps_ok [OF assms(1) new assms(3,4)]
  have "jb_message (J t) \<in> inbox_ids (nv_inbox D) (cm_db M)" if "cm_phase M t = Ended None" for t
    using run [THEN conjunct1, unfolded reserving_ok_def, THEN conjunct2, THEN spec [of _ t]] that by simp
  then show ?thesis using run by blast
qed

theorem concurrent_reservations_atomic_witness:
  "map (returned (after rivals [0, 1, 0, 1, 0, 0, 1, 1])) [0, 1] = [Some None, Some None]
   \<and> (atomic_step ref_inventory_db ref_ustr rivals)\<^sup>*\<^sup>* two_products (cm_db (after rivals [0, 1, 0, 1, 0, 0, 1, 1]))
   \<and> (101::uuid) \<in> inbox_ids (nv_inbox ref_inventory_db) (cm_db (after rivals [0, 1, 0, 1, 0, 0, 1, 1]))"
proof -
  have ret: "map (returned (after rivals [0, 1, 0, 1, 0, 0, 1, 1])) [0, 1] = [Some None, Some None]" by code_simp
  then have "cm_phase (after rivals [0, 1, 0, 1, 0, 0, 1, 1]) 1 = Ended None" by (simp add: returned_iff)
  moreover have "jb_message (rivals 1) = 101" by (simp add: rivals_def job_of_def)
  ultimately show ?thesis
    using concurrent_reservations_atomic [OF ref_inventory_db_laws _ two_products_wf after_steps, of rivals]
      jobs_nonzero(1) ret by metis
qed

text \<open>
  C9: The stock under overlapping reservations. In every interleaving the rows satisfy their
  constraints, so no product is oversold, each reserved quantity is the sum of the reservations,
  and what is available plus what is reserved of a product is what it was at the start.
\<close>

theorem concurrent_stock_safe:
  assumes "inventory_db_laws D" and "\<forall>t i. jb_new (J t) i \<noteq> 0" and "inventory_wf D s" and "ledger D s"
    and "(reserve_step D ustr J)\<^sup>*\<^sup>* (reserving_start s) M"
  shows "inventory_wf D (cm_db M) \<and> ledger D (cm_db M) \<and>
    (\<forall>k r. g_rows (nv_inventory D) s k = Some r \<longrightarrow>
      (\<exists>r'. g_rows (nv_inventory D) (cm_db M) k = Some r' \<and> iv_product_id r' = iv_product_id r
        \<and> 0 \<le> sint (iv_available r')
        \<and> sint (iv_available r') + sint (iv_reserved r') = sint (iv_available r) + sint (iv_reserved r)))"
proof -
  have new: "\<And>t i. jb_new (J t) i \<noteq> 0" using assms(2) by blast
  have "(atomic_step D ustr J)\<^sup>*\<^sup>* s (cm_db M)"
    using reserve_steps_ok [OF assms(1) new assms(3,5)] by blast
  from atomic_steps_keep [OF assms(1,3,4) this] inventory_check_bounds(1) [of D "cm_db M"] show ?thesis
    by metis
qed

theorem concurrent_stock_safe_witness:
  "map iv_available (is_inventory (cm_db (after rivals [0, 1, 0, 1, 0, 0, 1, 1]))) = [2, 5]
   \<and> ledger ref_inventory_db (cm_db (after rivals [0, 1, 0, 1, 0, 0, 1, 1]))"
proof -
  have "map iv_available (is_inventory (cm_db (after rivals [0, 1, 0, 1, 0, 0, 1, 1]))) = [2, 5]" by code_simp
  then show ?thesis
    using concurrent_stock_safe [OF ref_inventory_db_laws _ two_products_wf two_products_ledger after_steps, of rivals]
      jobs_nonzero(1) by metis
qed

text \<open>
  C22: Rows are locked in the order in which a request names them, so two requests can block each
  other. Two orders that name the same two products in opposite orders reach a state in which each
  waits for a row of the other, and neither can go on before its own statement is broken off, by
  PostgreSQL's deadlock detection or by the deadline of the handler.
\<close>

theorem opposite_orders_deadlock:
  "\<exists>M. (reserve_step ref_inventory_db ref_ustr crossed)\<^sup>*\<^sup>* (reserving_start two_products) M
     \<and> waits_for ref_inventory_db M 0 1 \<and> waits_for ref_inventory_db M 1 0
     \<and> (\<forall>M' t. reserve_step ref_inventory_db ref_ustr crossed M M' \<and> t \<in> {0, 1} \<longrightarrow>
          cm_phase M' t = cm_phase M t \<or> (\<exists>e. cm_phase M' t = Decided (Abort e)))"
proof -
  let ?M = "after crossed [0, 1, 0, 1]"
  have w: "waits_for ref_inventory_db ?M 0 1" "waits_for ref_inventory_db ?M 1 0" by code_simp+
  have "cm_phase M' t = cm_phase ?M t \<or> (\<exists>e. cm_phase M' t = Decided (Abort e))"
    if "reserve_step ref_inventory_db ref_ustr crossed ?M M'" "t \<in> {0, 1}" for M' t
    using waiting_stuck [OF w(1) that(1)] waiting_stuck [OF w(2) that(1)] that(2) by blast
  then show ?thesis using after_steps [of crossed "[0, 1, 0, 1]"] w by blast
qed

text \<open>The cycle that a common order of locking excludes.\<close>

theorem opposite_orders_deadlock_witness:
  "waits_for ref_inventory_db (after crossed [0, 1, 0, 1]) 0 1
   \<and> (\<exists>M. (reserve_step ref_inventory_db ref_ustr crossed)\<^sup>*\<^sup>* (reserving_start two_products) M
        \<and> (waits_for ref_inventory_db M)\<^sup>+\<^sup>+ 0 0)"
proof -
  obtain M where M: "(reserve_step ref_inventory_db ref_ustr crossed)\<^sup>*\<^sup>* (reserving_start two_products) M"
    "waits_for ref_inventory_db M 0 1" "waits_for ref_inventory_db M 1 0"
    using opposite_orders_deadlock by blast
  have "(waits_for ref_inventory_db M)\<^sup>+\<^sup>+ 0 0" using M(2,3) by (meson tranclp.r_into_trancl tranclp.trancl_into_trancl)
  moreover have "waits_for ref_inventory_db (after crossed [0, 1, 0, 1]) 0 1" by code_simp
  ultimately show ?thesis using M(1) by blast
qed

text \<open>
  C23: Requests that name their products in one common order never block each other: in no
  reachable state does a transaction wait for itself through any chain of others, so one that
  waits waits for a transaction that can go on.
\<close>

theorem ordered_requests_no_deadlock:
  assumes "inventory_db_laws D" and "\<forall>t i. jb_new (J t) i \<noteq> 0" and "inventory_wf D s"
    and "\<forall>t. in_order rank (jb_items (J t))"
    and "(reserve_step D ustr J)\<^sup>*\<^sup>* (reserving_start s) M"
  shows "\<not> (waits_for D M)\<^sup>+\<^sup>+ t t"
proof -
  have new: "\<And>t i. jb_new (J t) i \<noteq> 0" using assms(2) by blast
  have ok: "reserving_ok D J M" using reserve_steps_ok [OF assms(1) new assms(3,5)] by blast
  have "\<And>t. in_order rank (jb_items (J t))" using assms(4) by blast
  from waits_for_acyclic [OF assms(1) ok this] show ?thesis .
qed

theorem ordered_requests_no_deadlock_witness:
  "waits_for ref_inventory_db (after alike [0, 1, 0, 1]) 1 0
   \<and> \<not> (waits_for ref_inventory_db (after alike [0, 1, 0, 1]))\<^sup>+\<^sup>+ 1 1"
proof -
  have "waits_for ref_inventory_db (after alike [0, 1, 0, 1]) 1 0" by code_simp
  moreover have "\<forall>t. in_order unat (jb_items (alike t))"
    by (simp add: alike_def job_of_def in_order_def want_def)
  ultimately show ?thesis
    using ordered_requests_no_deadlock [OF ref_inventory_db_laws _ two_products_wf _ after_steps, of alike unat]
      jobs_nonzero(2) by blast
qed

end
