(* ===== verification/Order_Concurrency.thy ===== *)
theory Order_Concurrency
  imports Order_System
begin

text \<open>
  Settlements that overlap. \<open>HandleConfirmOrder\<close> and \<open>HandleRejectOrder\<close> are not transactions: they
  ask whether the message was handled, change the order's status and record the message in three
  statements. The two consumers run beside each other, the service may run in several processes,
  and the broker may deliver a message again while its first delivery is still being handled, so
  the statements of any number of these calls may alternate, with requests and the outbox worker
  in between. Here each statement is a step of its own; the theorems show that the orders still
  move along their life cycle, and that a call which returns nil leaves its order settled.
\<close>

section \<open>One call in steps\<close>

record settle_job =
  sj_confirm :: bool
  sj_order :: uuid
  sj_message :: uuid
  sj_payload :: body
  sj_new :: uuid
  sj_now :: time

definition settle_target :: "settle_job \<Rightarrow> string" where
  "settle_target j = (if sj_confirm j then OrderStatusConfirmed else OrderStatusFailed)"

definition settle_event :: "settle_job \<Rightarrow> string" where
  "settle_event j = (if sj_confirm j then ''StockReserved'' else ''StockReservationFailed'')"

definition settle_statement :: "'s order_db \<Rightarrow> settle_job \<Rightarrow> 's act" where
  "settle_statement D j s =
     (if sj_confirm j then ConfirmOrder D (sj_now j) s (sj_order j)
      else RejectOrder D (sj_now j) s (sj_order j))"

definition save_statement :: "'s order_db \<Rightarrow> settle_job \<Rightarrow> 's act" where
  "save_statement D j s =
     SaveProcessed D (sj_new j) (sj_now j) s (sj_message j) (settle_event j) (sj_payload j)"

text \<open>Without interruption the three statements are the handler.\<close>

definition settle_call :: "'s order_db \<Rightarrow> settle_job \<Rightarrow> 's act" where
  "settle_call D j s =
     (case IsProcessed D s (sj_message j) of
        Inl e \<Rightarrow> (Some e, s)
      | Inr True \<Rightarrow> (None, s)
      | Inr False \<Rightarrow> seq (settle_statement D j) (save_statement D j) s)"

lemma settle_call_handler:
  "settle_call D j s =
     (if sj_confirm j
      then HandleConfirmOrder D (sj_new j) (sj_now j) (sj_order j) (sj_message j) (sj_payload j) s
      else HandleRejectOrder D (sj_new j) (sj_now j) (sj_order j) (sj_message j) (sj_payload j) s)"
  by (auto simp: settle_call_def HandleConfirmOrder_def HandleRejectOrder_def handle_settlement_def
      settle_statement_def [abs_def] save_statement_def [abs_def] settle_event_def split: sum.splits bool.splits)

section \<open>The machine\<close>

datatype settle_phase = Called | Unhandled | Changed | Finished "err option"

record 's settling =
  st_db :: 's
  st_phase :: "nat \<Rightarrow> settle_phase"

definition settling_start :: "'s \<Rightarrow> 's settling" where
  "settling_start s = \<lparr>st_db = s, st_phase = \<lambda>t. Called\<rparr>"

definition asked_phase :: "'s order_db \<Rightarrow> 's \<Rightarrow> settle_job \<Rightarrow> settle_phase" where
  "asked_phase D s j =
     (case IsProcessed D s (sj_message j) of
        Inl e \<Rightarrow> Finished (Some e)
      | Inr True \<Rightarrow> Finished None
      | Inr False \<Rightarrow> Unhandled)"

definition changed_phase :: "err option \<Rightarrow> settle_phase" where
  "changed_phase e = (case e of Some x \<Rightarrow> Finished (Some x) | None \<Rightarrow> Changed)"

inductive settling_step ::
  "'s order_db \<Rightarrow> ozzo \<Rightarrow> (string \<Rightarrow> uuid option) \<Rightarrow> (uuid \<Rightarrow> string) \<Rightarrow> amqp \<Rightarrow> (nat \<Rightarrow> settle_job)
   \<Rightarrow> 's settling \<Rightarrow> 's settling \<Rightarrow> bool" for D V parse ustr B J where
  asks: "st_phase M t = Called
    \<Longrightarrow> settling_step D V parse ustr B J M
          (M\<lparr>st_phase := (st_phase M)(t := asked_phase D (st_db M) (J t))\<rparr>)"
| changes: "st_phase M t = Unhandled \<Longrightarrow> settle_statement D (J t) (st_db M) = (e, s')
    \<Longrightarrow> settling_step D V parse ustr B J M
          (M\<lparr>st_db := s', st_phase := (st_phase M)(t := changed_phase e)\<rparr>)"
| saves: "st_phase M t = Changed \<Longrightarrow> save_statement D (J t) (st_db M) = (e, s')
    \<Longrightarrow> settling_step D V parse ustr B J M
          (M\<lparr>st_db := s', st_phase := (st_phase M)(t := Finished e)\<rparr>)"
| stops: "\<forall>x. st_phase M t \<noteq> Finished x
    \<Longrightarrow> settling_step D V parse ustr B J M (M\<lparr>st_phase := (st_phase M)(t := Finished (Some e))\<rparr>)"
| creates: "\<forall>i. new i \<noteq> 0 \<Longrightarrow> order_CreateOrder D V parse ustr new now1 now2 (st_db M) req = (res, s')
    \<Longrightarrow> settling_step D V parse ustr B J M (M\<lparr>st_db := s'\<rparr>)"
| publishes: "order_outbox_process (db_outbox D) clock B exchange n (st_db M, h) = (s', h')
    \<Longrightarrow> settling_step D V parse ustr B J M (M\<lparr>st_db := s'\<rparr>)"

section \<open>What the statements do\<close>

lemma settle_statement_effect:
  assumes "order_db_laws D" and "settle_statement D j s = (e, s')"
  shows "order_inbox D s' = order_inbox D s"
    and "order_status D s' = settle_status (settle_target j) (order_status D s) (sj_order j)
      \<or> e \<noteq> None \<and> order_status D s' = order_status D s"
  using assms ConfirmOrder_effect [OF assms(1)] RejectOrder_effect [OF assms(1)]
  by (auto simp: settle_statement_def settle_target_def split: if_splits)

lemma save_statement_effect:
  assumes "order_db_laws D" and "sj_new j \<noteq> 0" and "save_statement D j s = (e, s')"
  shows "order_status D s' = order_status D s"
    and "order_inbox D s' = insert (sj_message j) (order_inbox D s)
      \<or> e \<noteq> None \<and> order_inbox D s' = order_inbox D s"
  using SaveProcessed_cases [OF assms(1,2) assms(3) [unfolded save_statement_def]] by auto

lemma create_step_others:
  assumes laws: "order_db_laws D" and new: "\<forall>i. new i \<noteq> 0"
    and run: "order_CreateOrder D V parse ustr new now1 now2 s req = (res, s')"
  shows "order_inbox D s' = order_inbox D s
    \<and> (order_status D s i \<noteq> None \<longrightarrow> order_status D s' i = order_status D s i)"
proof -
  have "s' = s \<or> (\<exists>input r. CreateOrder D V ustr new now1 now2 s input = (r, s'))"
    using run
    by (auto simp: order_CreateOrder_def server_CreateOrder_def Let_def
        split: option.splits sum.splits prod.splits)
  then show ?thesis
  proof (elim disjE exE)
    fix input r
    assume c: "CreateOrder D V ustr new now1 now2 s input = (r, s')"
    from laws new c show ?thesis
    proof (cases rule: CreateOrder_cases)
      case (created ord)
      note st = status_created [OF laws created(3) NewOrder_fields(3) [OF created(1)]]
      have "order_inbox D s' = order_inbox D s"
        using created(3) by (simp add: order_created_def Let_def order_inbox_def inbox_ids_def)
      then show ?thesis using st by auto
    next
      case (unchanged e)
      then show ?thesis by (simp add: same_order_rows_def order_inbox_def inbox_ids_def order_status_def)
    qed simp
  qed simp
qed

lemma publish_step_keeps:
  assumes "order_db_laws D" and "order_outbox_process (db_outbox D) clock B exchange n (s, h) = (s', h')"
  shows "order_status D s' = order_status D s" and "order_inbox D s' = order_inbox D s"
  using outbox_process_keeps [OF order_frames(7) [OF assms(1)] assms(2) [unfolded order_outbox_process_def]]
    outbox_process_keeps [OF order_frames(9) [OF assms(1)] assms(2) [unfolded order_outbox_process_def]]
  by (simp_all add: order_status_def [abs_def] order_inbox_def inbox_ids_def)

section \<open>The life of the orders\<close>

lemma settling_step_life:
  assumes laws: "order_db_laws D" and new: "\<And>t. sj_new (J t) \<noteq> 0"
    and step: "settling_step D V parse ustr B J M M'"
  shows "order_life\<^sup>=\<^sup>= (order_status D (st_db M) i) (order_status D (st_db M') i)"
  using step
proof cases
  case (changes t e s')
  have "settle_target (J t) = OrderStatusConfirmed \<or> settle_target (J t) = OrderStatusFailed"
    by (simp add: settle_target_def)
  from settle_status_life [OF this, of "order_status D (st_db M)" i "sj_order (J t)"]
    settle_statement_effect(2) [OF laws changes(3)]
  show ?thesis using changes(1) by auto
next
  case (saves t e s')
  then show ?thesis using save_statement_effect(1) [OF laws new saves(3)] by simp
next
  case (creates new now1 now2 req res s')
  then show ?thesis using create_step_status [OF laws creates(2,3), of i] by simp
next
  case (publishes clock exchange n h s' h')
  then show ?thesis using publish_step_keeps(1) [OF laws publishes(2)] by simp
qed simp_all

lemma settling_steps_life:
  assumes laws: "order_db_laws D" and new: "\<And>t. sj_new (J t) \<noteq> 0"
    and "(settling_step D V parse ustr B J)\<^sup>*\<^sup>* (settling_start s) M"
  shows "order_life\<^sup>*\<^sup>* (order_status D s i) (order_status D (st_db M) i)"
  using assms(3)
proof (induction rule: rtranclp_induct)
  case base
  show ?case by (simp add: settling_start_def)
next
  case (step M M')
  from settling_step_life [OF laws new step.hyps(2), of i] step.IH show ?case
    by (auto intro: rtranclp.rtrancl_into_rtrancl)
qed

section \<open>A call that returns nil has settled its order\<close>

definition settled_by :: "'s order_db \<Rightarrow> (nat \<Rightarrow> settle_job) \<Rightarrow> 's \<Rightarrow> uuid \<Rightarrow> bool" where
  "settled_by D J s i \<longleftrightarrow> (\<exists>u. sj_order (J u) = i \<and> order_status D s i = Some (settle_target (J u)))"

definition settling_ok :: "'s order_db \<Rightarrow> (nat \<Rightarrow> settle_job) \<Rightarrow> 's settling \<Rightarrow> bool" where
  "settling_ok D J M \<longleftrightarrow>
     (\<forall>t. order_status D (st_db M) (sj_order (J t)) = Some OrderStatusPending
        \<or> settled_by D J (st_db M) (sj_order (J t)))
     \<and> (\<forall>t. st_phase M t \<in> {Changed, Finished None} \<or> sj_message (J t) \<in> order_inbox D (st_db M)
        \<longrightarrow> settled_by D J (st_db M) (sj_order (J t)))"

lemma settle_target_final: "settle_target j \<noteq> OrderStatusPending"
  by (simp add: settle_target_def OrderStatusConfirmed_def OrderStatusFailed_def OrderStatusPending_def)

text \<open>What the statuses may do to keep an order settled.\<close>

lemma settled_by_life:
  assumes "settled_by D J s i" and "order_life\<^sup>=\<^sup>= (order_status D s i) (order_status D s' i)"
  shows "settled_by D J s' i"
proof -
  from assms(1) obtain u where u: "sj_order (J u) = i" "order_status D s i = Some (settle_target (J u))"
    unfolding settled_by_def by blast
  with assms(2) have "order_status D s' i = order_status D s i"
    by (auto simp: settle_target_def order_life_confirmed order_life_failed split: if_splits)
  with u show ?thesis unfolding settled_by_def by metis
qed

lemma settle_statement_settles:
  assumes "order_status D s' = settle_status (settle_target (J t)) (order_status D s) (sj_order (J t))"
    and "order_status D s (sj_order (J t)) = Some OrderStatusPending \<or> settled_by D J s (sj_order (J t))"
  shows "settled_by D J s' (sj_order (J t))"
proof (cases "order_status D s (sj_order (J t)) = Some OrderStatusPending")
  case True
  with assms(1) have "order_status D s' (sj_order (J t)) = Some (settle_target (J t))"
    by (simp add: settle_status_def)
  then show ?thesis unfolding settled_by_def by blast
next
  case False
  with assms show ?thesis by (auto simp: settled_by_def settle_status_def)
qed

lemma settling_ok_keeps:
  assumes ok: "settling_ok D J M"
    and life: "\<And>i. order_life\<^sup>=\<^sup>= (order_status D (st_db M) i) (order_status D (st_db M') i)"
    and own: "\<And>t. order_status D (st_db M) (sj_order (J t)) = Some OrderStatusPending \<Longrightarrow>
      order_status D (st_db M') (sj_order (J t)) = Some OrderStatusPending
      \<or> settled_by D J (st_db M') (sj_order (J t))"
    and newly: "\<And>t. st_phase M' t \<in> {Changed, Finished None} \<Longrightarrow> st_phase M t \<notin> {Changed, Finished None} \<Longrightarrow>
      settled_by D J (st_db M') (sj_order (J t))"
    and inbox: "\<And>t. sj_message (J t) \<in> order_inbox D (st_db M') \<Longrightarrow>
      sj_message (J t) \<in> order_inbox D (st_db M) \<or> settled_by D J (st_db M') (sj_order (J t))"
  shows "settling_ok D J M'"
  using assms settled_by_life [OF _ life] unfolding settling_ok_def by metis

lemma settling_step_ok:
  assumes laws: "order_db_laws D" and new: "\<And>t. sj_new (J t) \<noteq> 0"
    and same: "\<And>t u. sj_message (J t) = sj_message (J u) \<Longrightarrow> sj_order (J t) = sj_order (J u)"
    and ok: "settling_ok D J M" and step: "settling_step D V parse ustr B J M M'"
  shows "settling_ok D J M'"
proof -
  let ?pending = "\<lambda>t. order_status D (st_db M) (sj_order (J t)) = Some OrderStatusPending"
  have pend: "?pending t \<or> settled_by D J (st_db M) (sj_order (J t))" for t
    using ok unfolding settling_ok_def by blast
  have seen: "st_phase M t \<in> {Changed, Finished None} \<or> sj_message (J t) \<in> order_inbox D (st_db M)
    \<Longrightarrow> settled_by D J (st_db M) (sj_order (J t))" for t
    using ok unfolding settling_ok_def by blast
  note keeps = settling_ok_keeps [OF ok settling_step_life [OF laws new step]]
  from step show ?thesis
  proof cases
    case (asks t)
    have "asked_phase D (st_db M) (J t) = Finished None \<Longrightarrow> sj_message (J t) \<in> order_inbox D (st_db M)"
      using IsProcessed_inbox [OF laws, of "st_db M" "sj_message (J t)"]
      by (auto simp: asked_phase_def split: sum.splits bool.splits)
    moreover have "asked_phase D (st_db M) (J t) \<noteq> Changed"
      by (simp add: asked_phase_def split: sum.splits bool.splits)
    ultimately show ?thesis
      using seen by (intro keeps) (auto simp: asks(1) split: if_splits)
  next
    case (changes t e s')
    note eff = settle_statement_effect [OF laws changes(3)]
    have db: "st_db M' = s'" by (simp add: changes(1))
    have now: "settled_by D J s' (sj_order (J t))"
      if "order_status D s' = settle_status (settle_target (J t)) (order_status D (st_db M)) (sj_order (J t))"
      by (rule settle_statement_settles [OF that pend])
    show ?thesis
    proof (rule keeps)
      fix u assume p: "?pending u"
      show "order_status D (st_db M') (sj_order (J u)) = Some OrderStatusPending
        \<or> settled_by D J (st_db M') (sj_order (J u))"
      proof (cases "sj_order (J u) = sj_order (J t)")
        case True
        then show ?thesis using eff(2) now p unfolding db by auto
      next
        case False
        then show ?thesis using eff(2) p unfolding db by (auto simp: settle_status_def)
      qed
    next
      fix u assume u: "st_phase M' u \<in> {Changed, Finished None}" "st_phase M u \<notin> {Changed, Finished None}"
      then have "u = t" and "e = None"
        by (auto simp: changes(1) changed_phase_def split: if_splits option.splits)
      then show "settled_by D J (st_db M') (sj_order (J u))" using eff(2) now unfolding db by blast
    qed (simp add: db eff(1))
  next
    case (saves t e s')
    note eff = save_statement_effect [OF laws new saves(3)]
    have set: "settled_by D J s' (sj_order (J t))"
      using seen [of t] saves(2) eff(1) by (simp add: settled_by_def)
    show ?thesis
    proof (rule keeps)
      fix u assume "st_phase M' u \<in> {Changed, Finished None}" "st_phase M u \<notin> {Changed, Finished None}"
      then have "u = t" by (auto simp: saves(1) split: if_splits)
      then show "settled_by D J (st_db M') (sj_order (J u))" using set saves(1) by simp
    next
      fix u assume "sj_message (J u) \<in> order_inbox D (st_db M')"
      then have "sj_message (J u) \<in> order_inbox D (st_db M) \<or> sj_message (J u) = sj_message (J t)"
        using eff(2) saves(1) by auto
      then show "sj_message (J u) \<in> order_inbox D (st_db M) \<or> settled_by D J (st_db M') (sj_order (J u))"
        using set same [of u t] saves(1) by auto
    qed (simp add: saves(1) eff(1))
  next
    case (stops t e)
    then show ?thesis by (intro keeps) (auto split: if_splits)
  next
    case (creates new' now1 now2 req res s')
    note eff = create_step_others [OF laws creates(2,3)]
    show ?thesis
      by (rule keeps) (use eff in \<open>auto simp: creates(1)\<close>)
  next
    case (publishes clock exchange n h s' h')
    note eff = publish_step_keeps [OF laws publishes(2)]
    show ?thesis by (rule keeps) (use eff in \<open>auto simp: publishes(1)\<close>)
  qed
qed

lemma settling_steps_ok:
  assumes laws: "order_db_laws D" and new: "\<And>t. sj_new (J t) \<noteq> 0"
    and same: "\<And>t u. sj_message (J t) = sj_message (J u) \<Longrightarrow> sj_order (J t) = sj_order (J u)"
    and start: "\<And>t. order_status D s (sj_order (J t)) = Some OrderStatusPending"
      "\<And>t. sj_message (J t) \<notin> order_inbox D s"
    and "(settling_step D V parse ustr B J)\<^sup>*\<^sup>* (settling_start s) M"
  shows "settling_ok D J M"
  using assms(6)
proof (induction rule: rtranclp_induct)
  case base
  show ?case using start by (simp add: settling_ok_def settling_start_def)
next
  case (step M M')
  show ?case by (rule settling_step_ok [OF laws new same step.IH step.hyps(2)])
qed

section \<open>Running a schedule\<close>

text \<open>The next statement of a call; a call that has returned has none.\<close>

definition settle_turn :: "'s order_db \<Rightarrow> (nat \<Rightarrow> settle_job) \<Rightarrow> nat \<Rightarrow> 's settling \<Rightarrow> 's settling" where
  "settle_turn D J t M =
     (case st_phase M t of
        Called \<Rightarrow> M\<lparr>st_phase := (st_phase M)(t := asked_phase D (st_db M) (J t))\<rparr>
      | Unhandled \<Rightarrow>
          (let (e, s') = settle_statement D (J t) (st_db M)
           in M\<lparr>st_db := s', st_phase := (st_phase M)(t := changed_phase e)\<rparr>)
      | Changed \<Rightarrow>
          (let (e, s') = save_statement D (J t) (st_db M)
           in M\<lparr>st_db := s', st_phase := (st_phase M)(t := Finished e)\<rparr>)
      | Finished e \<Rightarrow> M)"

lemma settle_turn_step:
  "settle_turn D J t M = M \<or> settling_step D V parse ustr B J M (settle_turn D J t M)"
proof (cases "st_phase M t")
  case Unhandled
  obtain e s' where "settle_statement D (J t) (st_db M) = (e, s')" by fastforce
  then show ?thesis using settling_step.changes [OF Unhandled] by (simp add: settle_turn_def Unhandled)
next
  case Changed
  obtain e s' where "save_statement D (J t) (st_db M) = (e, s')" by fastforce
  then show ?thesis using settling_step.saves [OF Changed] by (simp add: settle_turn_def Changed)
qed (auto simp: settle_turn_def intro: settling_step.asks)

definition settle_play :: "'s order_db \<Rightarrow> (nat \<Rightarrow> settle_job) \<Rightarrow> nat list \<Rightarrow> 's settling \<Rightarrow> 's settling" where
  "settle_play D J = fold (settle_turn D J)"

lemma settle_play_steps: "(settling_step D V parse ustr B J)\<^sup>*\<^sup>* M (settle_play D J ts M)"
proof (induction ts arbitrary: M)
  case Nil
  then show ?case by (simp add: settle_play_def)
next
  case (Cons t ts)
  from settle_turn_step [of D J t M V parse ustr B] Cons.IH [of "settle_turn D J t M"] show ?case
    by (auto simp: settle_play_def intro: converse_rtranclp_into_rtranclp)
qed

end
