(* ===== verification/Order_Types.thy ===== *)
theory Order_Types
  imports Order_System
begin

text \<open>
  The types of the order service's tables: the constraints of its migration on every row, the
  foreign key of the items, and what the service puts into the columns that the migration leaves
  open (the outbox's types and payloads). Every step of the service keeps the tables typed.
\<close>

section \<open>Typed tables\<close>

definition outbox_row_typed :: "'s order_db \<Rightarrow> (uuid \<Rightarrow> string) \<Rightarrow> 's \<Rightarrow> outbox_row \<Rightarrow> bool" where
  "outbox_row_typed D ustr s r \<longleftrightarrow>
     sc_check outbox_schema r \<and> ob_event_type r = ''ReserveStockRequested''
     \<and> g_rows (db_orders D) s (ob_aggregate_id r) \<noteq> None
     \<and> (\<exists>m ord. od_id ord = ob_aggregate_id r \<and> same_body (ob_payload r) (reservation_payload ustr m ord))"

definition order_store_typed :: "'s order_db \<Rightarrow> (uuid \<Rightarrow> string) \<Rightarrow> 's \<Rightarrow> bool" where
  "order_store_typed D ustr s \<longleftrightarrow>
     (\<forall>r\<in>ran (g_rows (db_orders D) s). sc_check order_schema r)
     \<and> (\<forall>r\<in>ran (g_rows (db_items D) s). sc_check order_item_schema r)
     \<and> order_fk D s
     \<and> (\<forall>r\<in>ran (g_rows (db_outbox D) s). outbox_row_typed D ustr s r)"

lemma order_store_typedI:
  assumes "\<And>r. r \<in> ran (g_rows (db_orders D) s') \<Longrightarrow> sc_check order_schema r"
    and "\<And>r. r \<in> ran (g_rows (db_items D) s') \<Longrightarrow> sc_check order_item_schema r
      \<and> g_rows (db_orders D) s' (ir_order_id r) \<noteq> None"
    and "\<And>r. r \<in> ran (g_rows (db_outbox D) s') \<Longrightarrow> outbox_row_typed D ustr s' r"
  shows "order_store_typed D ustr s'"
  using assms by (simp add: order_store_typed_def order_fk_def)

lemma order_store_typedD:
  assumes "order_store_typed D ustr s"
  shows "r \<in> ran (g_rows (db_orders D) s) \<Longrightarrow> sc_check order_schema r"
    and "q \<in> ran (g_rows (db_items D) s) \<Longrightarrow> sc_check order_item_schema q"
    and "q \<in> ran (g_rows (db_items D) s) \<Longrightarrow> g_rows (db_orders D) s (ir_order_id q) \<noteq> None"
    and "x \<in> ran (g_rows (db_outbox D) s) \<Longrightarrow> outbox_row_typed D ustr s x"
  using assms by (simp_all add: order_store_typed_def order_fk_def)

lemma outbox_row_typed_mono:
  assumes "outbox_row_typed D ustr s r"
    and "\<And>k. g_rows (db_orders D) s k \<noteq> None \<Longrightarrow> g_rows (db_orders D) s' k \<noteq> None"
  shows "outbox_row_typed D ustr s' r"
  using assms unfolding outbox_row_typed_def by blast

text \<open>Same rows in three of the tables (the inbox has no part in it).\<close>

lemma order_store_typed_rows:
  assumes "order_store_typed D ustr s" and "g_rows (db_orders D) s' = g_rows (db_orders D) s"
    and "g_rows (db_items D) s' = g_rows (db_items D) s" and "g_rows (db_outbox D) s' = g_rows (db_outbox D) s"
  shows "order_store_typed D ustr s'"
  using assms by (simp add: order_store_typed_def order_fk_def outbox_row_typed_def)

section \<open>The operations\<close>

lemma typed_order_created:
  assumes laws: "order_db_laws D" and typed: "order_store_typed D ustr s"
    and cr: "order_created D s ord (reservation_message ustr new now ord) s'"
    and ids: "\<forall>it\<in>set (od_items ord). oi_order_id it = od_id ord"
  shows "order_store_typed D ustr s'"
proof (rule order_store_typedI)
  let ?r = "g_stored (db_orders D) (toOrderDataModel ord)"
  let ?its = "map (g_stored (db_items D)) (toOrderItemDataModels (od_items ord))"
  let ?msg = "reservation_message ustr new now ord"
  let ?m = "g_stored (db_outbox D) (toOutboxDataModel ?msg)"
  from cr have o: "insertable order_schema (g_rows (db_orders D) s) ?r"
    "g_rows (db_orders D) s' = (g_rows (db_orders D) s)(od_id ord \<mapsto> ?r)"
    and its: "insert_rows order_item_schema (g_rows (db_items D) s) ?its = Some (g_rows (db_items D) s')"
    and x: "insertable outbox_schema (g_rows (db_outbox D) s) ?m"
    "g_rows (db_outbox D) s' = (g_rows (db_outbox D) s)(om_id ?msg \<mapsto> ?m)"
    by (simp_all add: order_created_def Let_def)
  have grow: "g_rows (db_orders D) s k \<noteq> None \<Longrightarrow> g_rows (db_orders D) s' k \<noteq> None" for k
    by (simp add: o(2))
  note old = order_store_typedD [OF typed]
  show "sc_check order_schema r" if "r \<in> ran (g_rows (db_orders D) s')" for r
    using that old(1) o by (auto simp: ran_def insertable_def split: if_splits)
  show "sc_check order_item_schema r \<and> g_rows (db_orders D) s' (ir_order_id r) \<noteq> None"
    if "r \<in> ran (g_rows (db_items D) s')" for r
  proof -
    from that obtain k where "g_rows (db_items D) s' k = Some r" by (auto simp: ran_def)
    from insert_rows_dom [OF its this] show ?thesis
    proof
      assume "g_rows (db_items D) s k = Some r"
      then have "r \<in> ran (g_rows (db_items D) s)" by (auto simp: ran_def)
      then show ?thesis using old(2,3) grow by blast
    next
      assume r: "r \<in> set ?its"
      have "ir_order_id r = od_id ord"
        using r ids by (auto simp: toOrderItemDataModels_def stored_item_order [OF laws])
      then show ?thesis using insert_rows_added [OF its r] o(2) by simp
    qed
  qed
  have cols: "outbox_columns (db_outbox D)" using laws by (simp add: order_db_laws_def outbox_laws_def)
  have stored: "ob_event_type (g_stored (db_outbox D) q) = ob_event_type q"
    "ob_aggregate_id (g_stored (db_outbox D) q) = ob_aggregate_id q"
    "same_body (ob_payload (g_stored (db_outbox D) q)) (ob_payload q)" for q
    using cols by (simp_all add: outbox_columns_def)
  have m: "ob_event_type ?m = ''ReserveStockRequested''" "ob_aggregate_id ?m = od_id ord"
    "same_body (ob_payload ?m) (reservation_payload ustr (new (length (od_items ord) + 1)) ord)"
    using stored [of "toOutboxDataModel ?msg"]
    by (simp_all add: toOutboxDataModel_def reservation_message_def Let_def)
  have new_row: "outbox_row_typed D ustr s' ?m"
    using x(1) o(2) m unfolding outbox_row_typed_def insertable_def by fastforce
  show "outbox_row_typed D ustr s' r" if "r \<in> ran (g_rows (db_outbox D) s')" for r
  proof (cases "r = ?m")
    case True
    then show ?thesis using new_row by simp
  next
    case False
    with that have "r \<in> ran (g_rows (db_outbox D) s)" by (auto simp: x(2) ran_def split: if_splits)
    then show ?thesis using outbox_row_typed_mono [OF old(4) grow] by blast
  qed
qed

text \<open>An UPDATE of the orders: the rows it changes pass the table's check.\<close>

lemma typed_order_updates:
  assumes laws: "order_db_laws D" and typed: "order_store_typed D ustr s"
    and run: "g_updates (db_orders D) s p f = (e, s')" and key: "\<And>r. or_id (f r) = or_id r"
  shows "order_store_typed D ustr s'"
proof -
  have gl: "gorm_laws order_schema (db_orders D)" using laws by (simp add: order_db_laws_def)
  note fr = order_frames [OF laws]
  have rest: "g_rows (db_items D) s' = g_rows (db_items D) s" "g_rows (db_outbox D) s' = g_rows (db_outbox D) s"
    using gorm_frameD(4) [OF fr(1) run] gorm_frameD(4) [OF fr(2) run] by simp_all
  have k: "sc_key order_schema (f r) = sc_key order_schema r" for r by (simp add: order_schema_def key)
  note old = order_store_typedD [OF typed]
  from gl run k show ?thesis
  proof (cases rule: gorm_updates_cases)
    case applied
    have dom: "g_rows (db_orders D) s k \<noteq> None \<Longrightarrow> g_rows (db_orders D) s' k \<noteq> None" for k
      by (simp add: applied(2) update_rows_None)
    show ?thesis
    proof (rule order_store_typedI)
      fix r assume "r \<in> ran (g_rows (db_orders D) s')"
      then obtain k r0 where r0: "g_rows (db_orders D) s k = Some r0"
        "r = (if p r0 then assign_row (db_orders D) f r0 else r0)"
        by (auto simp: applied(2) ran_def update_rows_Some)
      then have "r0 \<in> ran (g_rows (db_orders D) s)" by (auto simp: ran_def)
      then show "sc_check order_schema r" using r0(2) old(1) applied(1) by (auto simp: updatable_def)
    next
      fix r assume "r \<in> ran (g_rows (db_items D) s')"
      then show "sc_check order_item_schema r \<and> g_rows (db_orders D) s' (ir_order_id r) \<noteq> None"
        using old(2,3) dom unfolding rest by blast
    next
      fix r assume "r \<in> ran (g_rows (db_outbox D) s')"
      then show "outbox_row_typed D ustr s' r" using outbox_row_typed_mono [OF old(4) dom] unfolding rest by blast
    qed
  next
    case failed
    then show ?thesis using order_store_typed_rows [OF typed] rest by simp
  qed
qed

text \<open>The worker's two UPDATEs of the outbox.\<close>

lemma typed_outbox_updates:
  assumes laws: "order_db_laws D" and typed: "order_store_typed D ustr s"
    and run: "g_updates (db_outbox D) s p f = (e, s')"
    and f: "\<And>r. ob_id (f r) = ob_id r \<and> ob_event_type (f r) = ob_event_type r
      \<and> ob_aggregate_id (f r) = ob_aggregate_id r \<and> ob_payload (f r) = ob_payload r"
  shows "order_store_typed D ustr s'"
proof -
  have gl: "gorm_laws outbox_schema (db_outbox D)" and cols: "outbox_columns (db_outbox D)"
    using laws by (simp_all add: order_db_laws_def outbox_laws_def)
  note fr = order_frames [OF laws]
  have rest: "g_rows (db_orders D) s' = g_rows (db_orders D) s" "g_rows (db_items D) s' = g_rows (db_items D) s"
    using gorm_frameD(4) [OF fr(7) run] gorm_frameD(4) [OF fr(8) run] by simp_all
  have k: "sc_key outbox_schema (f r) = sc_key outbox_schema r" for r by (simp add: outbox_schema_def f)
  note old = order_store_typedD [OF typed]
  from gl run k show ?thesis
  proof (cases rule: gorm_updates_cases)
    case applied
    show ?thesis
    proof (rule order_store_typedI)
      fix r assume "r \<in> ran (g_rows (db_outbox D) s')"
      then obtain j r0 where r0: "g_rows (db_outbox D) s j = Some r0"
        "r = (if p r0 then assign_row (db_outbox D) f r0 else r0)"
        by (auto simp: applied(2) ran_def update_rows_Some)
      then have in0: "r0 \<in> ran (g_rows (db_outbox D) s)" by (auto simp: ran_def)
      have "outbox_row_typed D ustr s r"
      proof (cases "p r0")
        case True
        then show ?thesis
          using r0(2) old(4) [OF in0] applied(1) in0 cols f [of r0]
          by (auto simp: outbox_row_typed_def updatable_def assign_row_def outbox_columns_def)
      next
        case False
        then show ?thesis using r0(2) old(4) [OF in0] by simp
      qed
      then show "outbox_row_typed D ustr s' r" by (rule outbox_row_typed_mono) (simp add: rest)
    qed (use old(1,2,3) in \<open>simp_all add: rest\<close>)
  next
    case failed
    then show ?thesis using order_store_typed_rows [OF typed] rest by simp
  qed
qed

lemma typed_published:
  assumes laws: "order_db_laws D" and typed: "order_store_typed D ustr s"
    and run: "order_outbox_process (db_outbox D) clock B exchange n (s, h) = (s', h')"
  shows "order_store_typed D ustr s'"
proof -
  have upd: "order_store_typed D ustr (snd (g_updates (db_outbox D) t p f))"
    if "order_store_typed D ustr t" and "\<And>r. ob_id (f r) = ob_id r \<and> ob_event_type (f r) = ob_event_type r
      \<and> ob_aggregate_id (f r) = ob_aggregate_id r \<and> ob_payload (f r) = ob_payload r" for t p f
    by (rule typed_outbox_updates [OF laws that(1) prod.collapse [symmetric] that(2)])
  have "order_store_typed D ustr (fst (process_each (MarkAsProcessed (db_outbox D) clock)
      (IncrementRetry (db_outbox D)) pub ms (s, h)))"
    for pub :: "chan \<Rightarrow> string \<Rightarrow> body \<Rightarrow> err option \<times> chan" and ms
    by (rule process_each_keeps) (simp_all add: MarkAsProcessed_def IncrementRetry_def upd typed)
  then show ?thesis
    using run typed
    by (auto simp: order_outbox_process_def outbox_process_def process_def split: sum.splits) (metis fst_conv)
qed

lemma typed_settlement:
  assumes laws: "order_db_laws D" and typed: "order_store_typed D ustr s"
    and settle: "\<And>s e s'. order_store_typed D ustr s \<Longrightarrow> settle s i = (e, s') \<Longrightarrow> order_store_typed D ustr s'"
    and run: "handle_settlement (IsProcessed D) settle (SaveProcessed D new now) t i m b s = (e, s')"
  shows "order_store_typed D ustr s'"
proof -
  have save: "order_store_typed D ustr s2"
    if "order_store_typed D ustr s1" and c: "SaveProcessed D new now s1 m t b = (e, s2)" for s1 s2 e
  proof -
    note c = c [unfolded SaveProcessed_def inbox_insert_def] and fr = order_frames [OF laws]
    show ?thesis
      by (rule order_store_typed_rows [OF that(1)])
        (use gorm_frameD(3) [OF fr(10) c] gorm_frameD(3) [OF fr(11) c] gorm_frameD(3) [OF fr(12) c] in simp_all)
  qed
  show ?thesis
  proof (cases "IsProcessed D s m")
    case (Inl x)
    then show ?thesis using run typed by (simp add: handle_settlement_def)
  next
    case (Inr seen)
    obtain e1 s1 where s1: "settle s i = (e1, s1)" by fastforce
    note t1 = settle [OF typed s1]
    show ?thesis
    proof (cases "seen \<or> e1 \<noteq> None")
      case True
      then show ?thesis using run Inr s1 typed t1 by (cases seen) (auto simp: handle_settlement_def seq_def)
    next
      case False
      then have "SaveProcessed D new now s1 m t b = (e, s')"
        using run Inr s1 by (simp add: handle_settlement_def seq_def)
      then show ?thesis by (rule save [OF t1])
    qed
  qed
qed

text \<open>Every step of the service keeps the tables typed.\<close>

lemma order_step_typed:
  assumes laws: "order_db_laws D" and typed: "order_store_typed D ustr s"
    and step: "order_step D V parse ustr B p s s'"
  shows "order_store_typed D ustr s'"
  using step
proof cases
  case (create new now1 now2 req res)
  have "s' = s \<or> (\<exists>input r. CreateOrder D V ustr new now1 now2 s input = (r, s'))"
    using create(2)
    by (auto simp: order_CreateOrder_def server_CreateOrder_def Let_def
        split: option.splits sum.splits prod.splits)
  then show ?thesis
  proof (elim disjE exE)
    fix input r
    assume c: "CreateOrder D V ustr new now1 now2 s input = (r, s')"
    from laws create(1) c show ?thesis
    proof (cases rule: CreateOrder_cases)
      case (created ord)
      note f = NewOrder_fields [OF created(1)]
      have "oi_order_id it = od_id ord" if "it \<in> set (od_items ord)" for it
      proof -
        have "oi_order_id it \<in> set (map oi_order_id (od_items ord))" using that by simp
        then show ?thesis unfolding f(12) f(1) by simp
      qed
      then show ?thesis using typed_order_created [OF laws typed created(3)] by blast
    next
      case (unchanged e)
      then show ?thesis using order_store_typed_rows [OF typed] by (simp add: same_order_rows_def)
    qed (use typed in simp)
  qed (use typed in simp)
next
  case (reserved new now d h h')
  from reserved(2) show ?thesis
  proof (rule stockReserved_handler)
    fix m i e
    assume "HandleConfirmOrder D new now i m (p_body d) s = (e, s')"
    then show ?thesis unfolding HandleConfirmOrder_def
      by (rule typed_settlement [OF laws typed, rotated])
        (auto simp: ConfirmOrder_def intro: typed_order_updates [OF laws])
  qed (use typed in simp)
next
  case (not_reserved new now d h h')
  from not_reserved(2) show ?thesis
  proof (rule stockNotReserved_handler)
    fix m i e
    assume "HandleRejectOrder D new now i m (p_body d) s = (e, s')"
    then show ?thesis unfolding HandleRejectOrder_def
      by (rule typed_settlement [OF laws typed, rotated])
        (auto simp: RejectOrder_def intro: typed_order_updates [OF laws])
  qed (use typed in simp)
next
  case (publish clock exchange n h h')
  show ?thesis by (rule typed_published [OF laws typed publish])
qed

lemma order_steps_typed:
  assumes "order_db_laws D" and "order_store_typed D ustr s"
    and "(order_step D V parse ustr B p)\<^sup>*\<^sup>* s s'"
  shows "order_store_typed D ustr s'"
  using assms(3)
  by (induction rule: rtranclp_induct) (auto intro: assms(2) order_step_typed [OF assms(1)])

end
