(* ===== verification/Order_Concurrency_Properties.thy ===== *)
theory Order_Concurrency_Properties
  imports Order_Concurrency Order_Types Order_Properties
begin

text \<open>
  The properties of overlapping settlements and the types of the order service's tables, with
  witnesses on the reference database.
\<close>

section \<open>Calls to run\<close>

text \<open>Two consumers handle the same message, a third call contradicts them.\<close>

definition three_calls :: "nat \<Rightarrow> settle_job" where
  "three_calls t =
     \<lparr>sj_confirm = (t < 2), sj_order = 200, sj_message = (if t < 2 then 55 else 56), sj_payload = Doc JNull,
      sj_new = (if t = 0 then 300 else if t = 1 then 301 else 302), sj_now = 7\<rparr>"

definition pending_order :: order_store where
  "pending_order =
     \<lparr>os_orders = [\<lparr>or_id = 200, or_customer_id = 42, or_status = ''PENDING'', or_total_amount = Zero False,
        or_created_at = 0, or_updated_at = 0\<rparr>],
      os_items = [], os_outbox = [], os_inbox = []\<rparr>"

definition all_ask_first :: "order_store settling" where
  "all_ask_first = settle_play ref_order_db three_calls [0, 1, 2, 0, 1, 2, 0, 1, 2] (settling_start pending_order)"

definition settle_reply :: "'s settling \<Rightarrow> nat \<Rightarrow> err option option" where
  "settle_reply M t = (case st_phase M t of Finished e \<Rightarrow> Some e | _ \<Rightarrow> None)"

lemma settle_reply_iff: "settle_reply M t = Some e \<longleftrightarrow> st_phase M t = Finished e"
  by (simp add: settle_reply_def split: settle_phase.splits)

section \<open>The properties\<close>

text \<open>
  C10: Settlements overlap safely although they are not transactions. Whatever the order in which
  the statements of any number of confirming and rejecting calls alternate, with each other, with
  new orders and with the outbox worker, and wherever each of them fails or stops, every order
  moves along its life cycle only; and if messages name one order each and the orders were
  PENDING, then a call that has returned nil has left its order with the status that a call for
  this order asked for.
\<close>

theorem overlapping_settlements:
  assumes "order_db_laws D" and "\<forall>t. sj_new (J t) \<noteq> 0"
    and "\<forall>t u. sj_message (J t) = sj_message (J u) \<longrightarrow> sj_order (J t) = sj_order (J u)"
    and "\<forall>t. order_status D s (sj_order (J t)) = Some OrderStatusPending \<and> sj_message (J t) \<notin> order_inbox D s"
    and "(settling_step D V parse ustr B J)\<^sup>*\<^sup>* (settling_start s) M"
  shows "(\<forall>i. order_life\<^sup>*\<^sup>* (order_status D s i) (order_status D (st_db M) i))
    \<and> (\<forall>t. st_phase M t = Finished None \<longrightarrow>
        (\<exists>u. sj_order (J u) = sj_order (J t)
          \<and> order_status D (st_db M) (sj_order (J t)) = Some (settle_target (J u))))"
proof -
  have new: "\<And>t. sj_new (J t) \<noteq> 0" using assms(2) by blast
  have "settling_ok D J M"
    by (rule settling_steps_ok [OF assms(1) new _ _ _ assms(5)]) (use assms(3,4) in blast)+
  then have "\<And>t. st_phase M t = Finished None \<Longrightarrow> settled_by D J (st_db M) (sj_order (J t))"
    unfolding settling_ok_def by blast
  then show ?thesis
    using settling_steps_life [OF assms(1) new assms(5)] unfolding settled_by_def by blast
qed

theorem overlapping_settlements_witness:
  "map (settle_reply all_ask_first) [0, 2] = [Some None, Some None]
   \<and> (\<exists>u. order_status ref_order_db (st_db all_ask_first) 200 = Some (settle_target (three_calls u)))
   \<and> order_status ref_order_db (st_db all_ask_first) 200 = Some OrderStatusConfirmed"
proof -
  have reply: "map (settle_reply all_ask_first) [0, 2] = [Some None, Some None]" by code_simp
  have run: "(settling_step ref_order_db ref_ozzo ref_parse ref_ustr ok_broker three_calls)\<^sup>*\<^sup>*
      (settling_start pending_order) all_ask_first"
    unfolding all_ask_first_def by (rule settle_play_steps)
  have start: "order_status ref_order_db pending_order 200 = Some OrderStatusPending"
    "order_inbox ref_order_db pending_order = {}"
    by (simp_all add: order_status_def order_inbox_def inbox_ids_def ref_order_db_def ref_gorm_def
        pending_order_def order_schema_def OrderStatusPending_def)
  have jobs: "\<forall>t. sj_new (three_calls t) \<noteq> 0 \<and> sj_order (three_calls t) = 200"
    by (simp add: three_calls_def)
  have "map or_status (os_orders (st_db all_ask_first)) = [''CONFIRMED'']"
    "map or_id (os_orders (st_db all_ask_first)) = [200]" by code_simp+
  then have "order_status ref_order_db (st_db all_ask_first) 200 = Some OrderStatusConfirmed"
    by (auto simp: order_status_def ref_order_db_def ref_gorm_def order_schema_def OrderStatusConfirmed_def
        map_eq_Cons_conv)
  moreover have "st_phase all_ask_first 0 = Finished None" using reply by (simp add: settle_reply_iff)
  ultimately show ?thesis
    using overlapping_settlements [OF ref_order_db_laws _ _ _ run] jobs start reply by auto
qed

text \<open>
  C11: The tables of the order service stay typed. Through every run of the service, whatever is
  requested, delivered or fails: each order has one of the three statuses and a total that is not
  negative, each item has a positive 32-bit quantity and belongs to an order that is there, and
  each row of the outbox is a reservation request whose payload names the order it is about.
\<close>

theorem order_tables_typed:
  assumes "order_db_laws D" and "order_store_typed D ustr s"
    and "(order_step D V parse ustr B p)\<^sup>*\<^sup>* s s'"
  shows "order_store_typed D ustr s'"
  by (rule order_steps_typed [OF assms])

theorem order_tables_typed_witness:
  "order_store_typed ref_order_db ref_ustr (snd create_run)
   \<and> length (os_items (snd create_run)) = 1 \<and> length (os_outbox (snd create_run)) = 1"
proof -
  have start: "order_store_typed ref_order_db ref_ustr empty_orders"
    by (simp add: order_store_typed_def order_fk_def ref_order_db_def ref_gorm_def empty_orders_def)
  have step: "order_step ref_order_db ref_ozzo ref_parse ref_ustr ok_broker a_policy empty_orders (snd create_run)"
    by (rule order_step.create [OF ids_nonzero create_run_eq])
  have "length (os_items (snd create_run)) = 1 \<and> length (os_outbox (snd create_run)) = 1" by code_simp
  then show ?thesis
    using order_tables_typed [OF ref_order_db_laws start r_into_rtranclp, OF step] by simp
qed

end
