(* ===== verification/Catalog_Stores.thy ===== *)
theory Catalog_Stores
  imports Gorm Json_Same
begin

text \<open>
  The stores of the catalog's read side (\<open>services/catalog-read-service\<close>): the MongoDB
  collections of products and of inbox messages, and the Redis cache of the product list. The
  drivers are not part of the repository; each store is a record of the calls the code makes,
  and its laws state their documented behaviour: a call that returns no error has taken place,
  and one that returns an error has taken place as a whole or not at all.
\<close>

section \<open>The product\<close>

record catalog_product =
  cp_id :: string
  cp_name :: string
  cp_description :: string
  cp_price :: float64
  cp_status :: string

record product_model =
  pm_id :: string
  pm_name :: string
  pm_description :: string
  pm_price :: float64
  pm_status :: string

section \<open>The collection of products\<close>

record 's product_collection =
  pc_docs :: "'s \<Rightarrow> string \<rightharpoonup> product_model"
  pc_replace_one :: "'s \<Rightarrow> string \<Rightarrow> product_model \<Rightarrow> err option \<times> 's"
  pc_find :: "'s \<Rightarrow> err + product_model list"

text \<open>\<open>ReplaceOne\<close> with the filter \<open>_id\<close> and \<open>SetUpsert(true)\<close>; \<open>Find\<close> with an empty filter.\<close>

definition product_collection_laws :: "'s product_collection \<Rightarrow> bool" where
  "product_collection_laws C \<longleftrightarrow>
     (\<forall>s i m e s'. pc_replace_one C s i m = (e, s') \<longrightarrow> pm_id m = i \<longrightarrow>
        pc_docs C s' = (pc_docs C s)(i \<mapsto> m) \<or> e \<noteq> None \<and> pc_docs C s' = pc_docs C s) \<and>
     (\<forall>s ms. pc_find C s = Inr ms \<longrightarrow> lists_rows (pc_docs C s) (\<lambda>_. True) ms) \<and>
     (\<forall>s i m. pc_docs C s i = Some m \<longrightarrow> pm_id m = i)"

definition to_product_model :: "catalog_product \<Rightarrow> product_model" where
  "to_product_model p =
     \<lparr>pm_id = cp_id p, pm_name = cp_name p, pm_description = cp_description p,
      pm_price = cp_price p, pm_status = cp_status p\<rparr>"

definition from_product_model :: "product_model \<Rightarrow> catalog_product" where
  "from_product_model m =
     \<lparr>cp_id = pm_id m, cp_name = pm_name m, cp_description = pm_description m,
      cp_price = pm_price m, cp_status = pm_status m\<rparr>"

lemma product_model_inverse [simp]:
  "from_product_model (to_product_model p) = p" "to_product_model (from_product_model m) = m"
  "pm_id (to_product_model p) = cp_id p"
  by (simp_all add: from_product_model_def to_product_model_def)

definition Upsert :: "'s product_collection \<Rightarrow> 's \<Rightarrow> catalog_product \<Rightarrow> err option \<times> 's" where
  "Upsert C s p = pc_replace_one C s (cp_id p) (to_product_model p)"

definition FindAll :: "'s product_collection \<Rightarrow> 's \<Rightarrow> err + catalog_product list" where
  "FindAll C s = (case pc_find C s of Inl e \<Rightarrow> Inl e | Inr models \<Rightarrow> Inr (map from_product_model models))"

definition catalog_products :: "'s product_collection \<Rightarrow> 's \<Rightarrow> string \<rightharpoonup> catalog_product" where
  "catalog_products C s = map_option from_product_model \<circ> pc_docs C s"

lemma catalog_products_id:
  assumes "product_collection_laws C" and "catalog_products C s i = Some p"
  shows "cp_id p = i"
proof -
  from assms(2) obtain m where m: "pc_docs C s i = Some m" and p: "p = from_product_model m"
    by (auto simp: catalog_products_def)
  from m assms(1) have "pm_id m = i" unfolding product_collection_laws_def by blast
  then show ?thesis by (simp add: p from_product_model_def)
qed

lemma Upsert_cases:
  assumes "product_collection_laws C" and "Upsert C s p = (e, s')"
  shows "catalog_products C s' = (catalog_products C s)(cp_id p \<mapsto> p)
    \<or> e \<noteq> None \<and> catalog_products C s' = catalog_products C s"
proof -
  have "pc_docs C s' = (pc_docs C s)(cp_id p \<mapsto> to_product_model p) \<or> e \<noteq> None \<and> pc_docs C s' = pc_docs C s"
    using assms unfolding product_collection_laws_def Upsert_def by (metis product_model_inverse(3))
  then show ?thesis by (auto simp: catalog_products_def fun_eq_iff)
qed

lemma lists_rows_map:
  assumes "lists_rows m (\<lambda>_. True) xs"
  shows "lists_rows (map_option f \<circ> m) (\<lambda>_. True) (map f xs)"
proof -
  from assms obtain ks where ks: "distinct ks" "set ks = {k. \<exists>r. m k = Some r}" "xs = map (the \<circ> m) ks"
    by (auto simp: lists_rows_def)
  then have "map f xs = map (the \<circ> (map_option f \<circ> m)) ks" by auto
  with ks show ?thesis unfolding lists_rows_def by (intro exI [of _ ks]) auto
qed

lemma FindAll_lists:
  assumes "product_collection_laws C" and "FindAll C s = Inr ps"
  shows "lists_rows (catalog_products C s) (\<lambda>_. True) ps"
proof -
  from assms(2) obtain ms where "pc_find C s = Inr ms" and ps: "ps = map from_product_model ms"
    by (auto simp: FindAll_def split: sum.splits)
  then have "lists_rows (pc_docs C s) (\<lambda>_. True) ms"
    using assms(1) unfolding product_collection_laws_def by blast
  then show ?thesis unfolding ps catalog_products_def by (rule lists_rows_map)
qed

section \<open>The collection of inbox messages\<close>

record mongo_inbox =
  mi_message_id :: string
  mi_event_type :: string
  mi_payload :: body
  mi_processed_at :: time

record 's inbox_collection =
  ic_docs :: "'s \<Rightarrow> mongo_inbox list"
  ic_unique :: "'s \<Rightarrow> bool"
  ic_create_index :: "'s \<Rightarrow> err option \<times> 's"
  ic_count :: "'s \<Rightarrow> string \<Rightarrow> err + int"
  ic_insert_one :: "'s \<Rightarrow> mongo_inbox \<Rightarrow> err option \<times> 's"

definition inbox_handled :: "'s inbox_collection \<Rightarrow> 's \<Rightarrow> string set" where
  "inbox_handled I s = mi_message_id ` set (ic_docs I s)"

text \<open>\<open>ic_unique\<close> says that the unique index on \<open>message_id\<close> exists.\<close>

definition inbox_collection_laws :: "'s inbox_collection \<Rightarrow> bool" where
  "inbox_collection_laws I \<longleftrightarrow>
     (\<forall>s n m. ic_count I s m = Inr n \<longrightarrow> n = int (length (filter (\<lambda>d. mi_message_id d = m) (ic_docs I s)))) \<and>
     (\<forall>s d e s'. ic_insert_one I s d = (e, s') \<longrightarrow>
        ic_unique I s' = ic_unique I s \<and>
        (ic_docs I s' = d # ic_docs I s \<and> (ic_unique I s \<longrightarrow> mi_message_id d \<notin> inbox_handled I s)
         \<or> e \<noteq> None \<and> ic_docs I s' = ic_docs I s)) \<and>
     (\<forall>s e s'. ic_create_index I s = (e, s') \<longrightarrow> ic_docs I s' = ic_docs I s \<and>
        (ic_unique I s' \<and> distinct (map mi_message_id (ic_docs I s)) \<or> e \<noteq> None \<and> ic_unique I s' = ic_unique I s))"

definition NewInboxMessageMongoRepository :: "'s inbox_collection \<Rightarrow> 's act" where
  "NewInboxMessageMongoRepository I = ic_create_index I"

definition mongo_IsProcessed :: "'s inbox_collection \<Rightarrow> 's \<Rightarrow> string \<Rightarrow> err + bool" where
  "mongo_IsProcessed I s messageID =
     (case ic_count I s messageID of Inl e \<Rightarrow> Inl e | Inr n \<Rightarrow> Inr (0 < n))"

definition mongo_SaveProcessed ::
  "'s inbox_collection \<Rightarrow> time \<Rightarrow> 's \<Rightarrow> string \<Rightarrow> string \<Rightarrow> body \<Rightarrow> err option \<times> 's" where
  "mongo_SaveProcessed I now s messageID eventType payload =
     ic_insert_one I s \<lparr>mi_message_id = messageID, mi_event_type = eventType, mi_payload = payload,
       mi_processed_at = now\<rparr>"

lemma mongo_IsProcessed_iff:
  assumes "inbox_collection_laws I" and "mongo_IsProcessed I s m = Inr b"
  shows "b \<longleftrightarrow> m \<in> inbox_handled I s"
proof -
  from assms(2) obtain n where n: "ic_count I s m = Inr n" and b: "b = (0 < n)"
    by (auto simp: mongo_IsProcessed_def split: sum.splits)
  then have "n = int (length (filter (\<lambda>d. mi_message_id d = m) (ic_docs I s)))"
    using assms(1) unfolding inbox_collection_laws_def by blast
  then show ?thesis by (auto simp: b inbox_handled_def filter_empty_conv)
qed

lemma mongo_SaveProcessed_cases:
  assumes "inbox_collection_laws I" and "mongo_SaveProcessed I now s m t b = (e, s')"
  shows "inbox_handled I s' = insert m (inbox_handled I s) \<or> e \<noteq> None \<and> inbox_handled I s' = inbox_handled I s"
proof -
  let ?d = "\<lparr>mi_message_id = m, mi_event_type = t, mi_payload = b, mi_processed_at = now\<rparr>"
  have "ic_docs I s' = ?d # ic_docs I s \<or> e \<noteq> None \<and> ic_docs I s' = ic_docs I s"
    using assms unfolding inbox_collection_laws_def mongo_SaveProcessed_def by blast
  then show ?thesis by (auto simp: inbox_handled_def)
qed

section \<open>The cache\<close>

text \<open>\<open>redis.Nil\<close> is the reply for a key that is not there.\<close>

definition redis_Nil :: err where "redis_Nil = Ext ''redis: nil''"

record 's redis =
  rd_values :: "'s \<Rightarrow> string \<rightharpoonup> body"
  rd_get :: "'s \<Rightarrow> string \<Rightarrow> err + body"
  rd_set :: "'s \<Rightarrow> string \<Rightarrow> body \<Rightarrow> duration \<Rightarrow> err option \<times> 's"
  rd_del :: "'s \<Rightarrow> string \<Rightarrow> err option \<times> 's"

definition redis_laws :: "'s redis \<Rightarrow> bool" where
  "redis_laws R \<longleftrightarrow>
     (\<forall>s k v. rd_get R s k = Inr v \<longrightarrow> rd_values R s k = Some v) \<and>
     (\<forall>s k e. rd_get R s k = Inl e \<longrightarrow> errors_Is e redis_Nil \<longrightarrow> rd_values R s k = None) \<and>
     (\<forall>s k v ttl e s'. rd_set R s k v ttl = (e, s') \<longrightarrow>
        rd_values R s' = (rd_values R s)(k \<mapsto> v) \<or> e \<noteq> None \<and> rd_values R s' = rd_values R s) \<and>
     (\<forall>s k e s'. rd_del R s k = (e, s') \<longrightarrow>
        rd_values R s' = (rd_values R s)(k := None) \<or> e \<noteq> None \<and> rd_values R s' = rd_values R s)"

definition productsCacheKey :: string where "productsCacheKey = ''catalog-read:products:all''"
definition cache_ttl :: duration where "cache_ttl = 5 * 60 * 1000000000"

text \<open>
  \<open>json.Marshal\<close> and \<open>json.Unmarshal\<close> of \<open>[]domain.Product\<close>, a struct without tags. A nil slice
  is None: \<open>Unmarshal\<close> leaves the slice nil for the document \<open>null\<close> only.
\<close>

definition product_json :: "catalog_product \<Rightarrow> err + json" where
  "product_json p =
     (case j_float (cp_price p) of
        Inl e \<Rightarrow> Inl e
      | Inr price \<Rightarrow> Inr (JObj [(''ID'', JStr (cp_id p)), (''Name'', JStr (cp_name p)),
          (''Description'', JStr (cp_description p)), (''Price'', price), (''Status'', JStr (cp_status p))]))"

fun products_json :: "catalog_product list \<Rightarrow> err + json list" where
  "products_json [] = Inr []"
| "products_json (p # ps) =
     (case product_json p of
        Inl e \<Rightarrow> Inl e
      | Inr j \<Rightarrow> (case products_json ps of Inl e \<Rightarrow> Inl e | Inr js \<Rightarrow> Inr (j # js)))"

definition product_fields :: "string \<Rightarrow> catalog_product dec option" where
  "product_fields k =
     (if k = ''id'' then Some (\<lambda>j p. map_option (\<lambda>x. p\<lparr>cp_id := x\<rparr>) (dec_string j (cp_id p)))
      else if k = ''name'' then Some (\<lambda>j p. map_option (\<lambda>x. p\<lparr>cp_name := x\<rparr>) (dec_string j (cp_name p)))
      else if k = ''description''
        then Some (\<lambda>j p. map_option (\<lambda>x. p\<lparr>cp_description := x\<rparr>) (dec_string j (cp_description p)))
      else if k = ''price'' then Some (\<lambda>j p. map_option (\<lambda>x. p\<lparr>cp_price := x\<rparr>) (dec_float j (cp_price p)))
      else if k = ''status'' then Some (\<lambda>j p. map_option (\<lambda>x. p\<lparr>cp_status := x\<rparr>) (dec_string j (cp_status p)))
      else None)"

definition zero_product :: catalog_product where
  "zero_product = \<lparr>cp_id = [], cp_name = [], cp_description = [], cp_price = Zero False, cp_status = []\<rparr>"

fun unmarshal_products :: "body \<Rightarrow> catalog_product list option option" where
  "unmarshal_products (Doc (JArr js)) =
     map_option Some (dec_elems zero_product (dec_struct product_fields) js [])"
| "unmarshal_products (Doc JNull) = Some None"
| "unmarshal_products _ = None"

text \<open>A decoding error has the text the JSON package gives it.\<close>

definition json_error :: err where "json_error = Ext ''json: cannot unmarshal''"

definition GetCachedProducts :: "'s redis \<Rightarrow> 's \<Rightarrow> err + catalog_product list option" where
  "GetCachedProducts R s =
     (case rd_get R s productsCacheKey of
        Inl e \<Rightarrow> if errors_Is e redis_Nil then Inr None else Inl e
      | Inr value \<Rightarrow> (case unmarshal_products value of None \<Rightarrow> Inl json_error | Some ps \<Rightarrow> Inr ps))"

definition SetProducts :: "'s redis \<Rightarrow> 's \<Rightarrow> catalog_product list \<Rightarrow> err option \<times> 's" where
  "SetProducts R s products =
     (case products_json products of
        Inl e \<Rightarrow> (Some e, s)
      | Inr js \<Rightarrow> rd_set R s productsCacheKey (Doc (JArr js)) cache_ttl)"

definition DeleteProducts :: "'s redis \<Rightarrow> 's act" where
  "DeleteProducts R s = rd_del R s productsCacheKey"

lemma fold_struct_names:
  "fold_name ''ID'' = ''id''" "fold_name ''Name'' = ''name''" "fold_name ''Description'' = ''description''"
  "fold_name ''Price'' = ''price''" "fold_name ''Status'' = ''status''"
  by code_simp+

declare fold_name.simps [simp del]

lemma dec_product_json:
  assumes "product_json p = Inr j"
  shows "dec_struct product_fields j zero_product = Some p"
proof -
  from assms obtain price where price: "j_float (cp_price p) = Inr price"
    and j: "j = JObj [(''ID'', JStr (cp_id p)), (''Name'', JStr (cp_name p)),
          (''Description'', JStr (cp_description p)), (''Price'', price), (''Status'', JStr (cp_status p))]"
    by (auto simp: product_json_def split: sum.splits)
  from dec_float_j_float [OF price] show ?thesis
    by (simp add: j fold_struct_names product_fields_def)
qed

text \<open>What \<open>SetProducts\<close> writes is what \<open>GetProducts\<close> reads.\<close>

lemma cached_products_round_trip:
  "products_json ps = Inr js \<Longrightarrow> unmarshal_products (Doc (JArr js)) = Some (Some ps)"
proof -
  have "products_json ps = Inr js \<Longrightarrow> dec_elems zero_product (dec_struct product_fields) js [] = Some ps"
    by (induction ps arbitrary: js) (auto simp: dec_product_json split: sum.splits)
  then show "products_json ps = Inr js \<Longrightarrow> ?thesis" by simp
qed

definition cached_body :: "'s redis \<Rightarrow> 's \<Rightarrow> body option" where
  "cached_body R s = rd_values R s productsCacheKey"

lemma GetCachedProducts_Some:
  assumes "redis_laws R" and "GetCachedProducts R s = Inr (Some ps)"
  obtains b where "cached_body R s = Some b" and "unmarshal_products b = Some (Some ps)"
  using assms unfolding redis_laws_def GetCachedProducts_def cached_body_def
  by (auto split: sum.splits if_splits option.splits)

lemma SetProducts_cases:
  assumes "redis_laws R" and "SetProducts R s ps = (e, s')"
  obtains js where "products_json ps = Inr js" and "cached_body R s' = Some (Doc (JArr js))"
  | "e \<noteq> None" and "cached_body R s' = cached_body R s"
proof (cases "products_json ps")
  case (Inl x)
  with assms(2) that(2) show thesis by (auto simp: SetProducts_def)
next
  case (Inr js)
  with assms(2) have "rd_set R s productsCacheKey (Doc (JArr js)) cache_ttl = (e, s')" by (simp add: SetProducts_def)
  then have "rd_values R s' = (rd_values R s)(productsCacheKey \<mapsto> Doc (JArr js))
      \<or> e \<noteq> None \<and> rd_values R s' = rd_values R s"
    using assms(1) unfolding redis_laws_def by blast
  then show thesis using that Inr by (auto simp: cached_body_def)
qed

lemma DeleteProducts_cases:
  assumes "redis_laws R" and "DeleteProducts R s = (e, s')"
  shows "cached_body R s' = None \<or> e \<noteq> None \<and> cached_body R s' = cached_body R s"
proof -
  have "rd_values R s' = (rd_values R s)(productsCacheKey := None) \<or> e \<noteq> None \<and> rd_values R s' = rd_values R s"
    using assms unfolding redis_laws_def DeleteProducts_def by blast
  then show ?thesis by (auto simp: cached_body_def)
qed

end
