(* ===== verification/Catalog_Read.thy ===== *)
theory Catalog_Read
  imports Catalog_Stores
begin

text \<open>
  The handlers of the catalog's read side (\<open>internal/features/products\<close>): the projection of
  product events into the read model, and the query that reads the product list through the
  cache. The ports they hold are \<open>port.ProductRepository\<close>, \<open>port.ProductCacheRepository\<close> and
  \<open>port.InboxRepository\<close>; the lemmas are proved for every provider of the interface.
\<close>

section \<open>The handlers\<close>

record created_command =
  cc_message_id :: string
  cc_product :: catalog_product
  cc_payload :: body

definition product_created_Handle ::
  "('s \<Rightarrow> string \<Rightarrow> err + bool) \<Rightarrow> ('s \<Rightarrow> catalog_product \<Rightarrow> err option \<times> 's) \<Rightarrow> ('s \<Rightarrow> err option \<times> 's)
   \<Rightarrow> ('s \<Rightarrow> string \<Rightarrow> string \<Rightarrow> body \<Rightarrow> err option \<times> 's) \<Rightarrow> created_command \<Rightarrow> 's act" where
  "product_created_Handle isProcessed upsert deleteProducts saveProcessed command s =
     (case isProcessed s (cc_message_id command) of
        Inl e \<Rightarrow> (Some e, s)
      | Inr b \<Rightarrow>
          if b then (None, s)
          else seq (\<lambda>s. upsert s (cc_product command))
            (seq deleteProducts
              (\<lambda>s. saveProcessed s (cc_message_id command) ''ProductCreated'' (cc_payload command))) s)"

definition getting_products_Handle ::
  "('s \<Rightarrow> err + catalog_product list option) \<Rightarrow> ('s \<Rightarrow> err + catalog_product list)
   \<Rightarrow> ('s \<Rightarrow> catalog_product list \<Rightarrow> err option \<times> 's) \<Rightarrow> 's \<Rightarrow> (err + catalog_product list) \<times> 's" where
  "getting_products_Handle getProducts findAll setProducts s =
     (case getProducts s of
        Inl e \<Rightarrow> (Inl e, s)
      | Inr (Some cachedProducts) \<Rightarrow> (Inr cachedProducts, s)
      | Inr None \<Rightarrow>
          (case findAll s of
             Inl e \<Rightarrow> (Inl e, s)
           | Inr products \<Rightarrow>
               (case setProducts s products of
                  (Some e, s') \<Rightarrow> (Inl e, s')
                | (None, s') \<Rightarrow> (Inr products, s'))))"

section \<open>The interface of the stores\<close>

text \<open>
  \<open>products\<close>, \<open>cache\<close> and \<open>handled\<close> are what the three stores hold: the documents, the cached
  document, and the identifiers of the recorded messages. \<open>answers b ps\<close> says that the cached
  document \<open>b\<close> is read as the list \<open>ps\<close>.
\<close>

locale read_stores =
  fixes invar :: "'s \<Rightarrow> bool"
    and products :: "'s \<Rightarrow> string \<rightharpoonup> catalog_product"
    and cache :: "'s \<Rightarrow> 'b option"
    and answers :: "'b \<Rightarrow> catalog_product list \<Rightarrow> bool"
    and handled :: "'s \<Rightarrow> string set"
    and isProcessed :: "'s \<Rightarrow> string \<Rightarrow> err + bool"
    and upsert :: "'s \<Rightarrow> catalog_product \<Rightarrow> err option \<times> 's"
    and findAll :: "'s \<Rightarrow> err + catalog_product list"
    and getProducts :: "'s \<Rightarrow> err + catalog_product list option"
    and setProducts :: "'s \<Rightarrow> catalog_product list \<Rightarrow> err option \<times> 's"
    and deleteProducts :: "'s \<Rightarrow> err option \<times> 's"
    and saveProcessed :: "'e \<Rightarrow> 's \<Rightarrow> string \<Rightarrow> string \<Rightarrow> body \<Rightarrow> err option \<times> 's"
  assumes processed_sound: "invar s \<Longrightarrow> isProcessed s m = Inr seen \<Longrightarrow> seen \<longleftrightarrow> m \<in> handled s"
    and upsert_effect: "invar s \<Longrightarrow> upsert s p = (e, s') \<Longrightarrow>
      invar s' \<and> cache s' = cache s \<and> handled s' = handled s \<and>
      (products s' = (products s)(cp_id p \<mapsto> p) \<or> e \<noteq> None \<and> products s' = products s)"
    and delete_effect: "invar s \<Longrightarrow> deleteProducts s = (e, s') \<Longrightarrow>
      invar s' \<and> products s' = products s \<and> handled s' = handled s \<and>
      (cache s' = None \<or> e \<noteq> None \<and> cache s' = cache s)"
    and save_effect: "invar s \<Longrightarrow> saveProcessed env s m t payload = (e, s') \<Longrightarrow>
      invar s' \<and> products s' = products s \<and> cache s' = cache s \<and>
      (handled s' = insert m (handled s) \<or> e \<noteq> None \<and> handled s' = handled s)"
    and find_lists: "invar s \<Longrightarrow> findAll s = Inr ps \<Longrightarrow> lists_rows (products s) (\<lambda>_. True) ps"
    and get_cached: "invar s \<Longrightarrow> getProducts s = Inr (Some ps) \<Longrightarrow> \<exists>b. cache s = Some b \<and> answers b ps"
    and set_effect: "invar s \<Longrightarrow> setProducts s ps = (e, s') \<Longrightarrow>
      invar s' \<and> products s' = products s \<and> handled s' = handled s \<and>
      ((\<exists>b. cache s' = Some b \<and> answers b ps) \<or> e \<noteq> None \<and> cache s' = cache s)"
    and answers_once: "answers b ps \<Longrightarrow> answers b qs \<Longrightarrow> qs = ps"
begin

text \<open>The cached list, when there is one, lists the products of the read model.\<close>

definition coherent :: "'s \<Rightarrow> bool" where
  "coherent s \<longleftrightarrow> (\<forall>b. cache s = Some b \<longrightarrow> (\<exists>ps. answers b ps \<and> lists_rows (products s) (\<lambda>_. True) ps))"

lemma coherent_empty: "cache s = None \<Longrightarrow> coherent s"
  by (simp add: coherent_def)

lemma created_cases [consumes 2, case_names failed duplicate interrupted applied]:
  assumes inv: "invar s"
    and run: "product_created_Handle isProcessed upsert deleteProducts (saveProcessed env) c s = (e, s')"
  obtains "e \<noteq> None" "s' = s"
  | "e = None" "s' = s" "cc_message_id c \<in> handled s"
  | "e \<noteq> None" "invar s'" "cc_message_id c \<notin> handled s" "handled s' = handled s"
      "products s' = (products s)(cp_id (cc_product c) \<mapsto> cc_product c) \<or> products s' = products s"
      "cache s' = cache s \<or> cache s' = None"
  | "invar s'" "cc_message_id c \<notin> handled s" "cache s' = None"
      "products s' = (products s)(cp_id (cc_product c) \<mapsto> cc_product c)"
      "handled s' = insert (cc_message_id c) (handled s) \<or> e \<noteq> None \<and> handled s' = handled s"
proof (cases "isProcessed s (cc_message_id c)")
  case (Inl x)
  with run that(1) show thesis by (auto simp: product_created_Handle_def)
next
  case (Inr b)
  have b: "b \<longleftrightarrow> cc_message_id c \<in> handled s" by (rule processed_sound [OF inv Inr])
  show thesis
  proof (cases b)
    case True
    with run Inr b that(2) show thesis by (simp add: product_created_Handle_def)
  next
    case False
    obtain e1 s1 where s1: "upsert s (cc_product c) = (e1, s1)" by fastforce
    obtain e2 s2 where s2: "deleteProducts s1 = (e2, s2)" by fastforce
    obtain e3 s3 where s3: "saveProcessed env s2 (cc_message_id c) ''ProductCreated'' (cc_payload c) = (e3, s3)"
      by fastforce
    have run': "(e, s') = (case e1 of Some x \<Rightarrow> (Some x, s1) | None \<Rightarrow> (case e2 of Some x \<Rightarrow> (Some x, s2) | None \<Rightarrow> (e3, s3)))"
      unfolding run [symmetric] using Inr False s1 s2 s3
      by (cases e1; cases e2) (simp_all add: product_created_Handle_def seq_def)
    note e1 = upsert_effect [OF inv s1]
    then have "invar s1" by blast
    note e2 = delete_effect [OF this s2]
    then have "invar s2" by blast
    note e3 = save_effect [OF this s3]
    show thesis
    proof (cases "e1 = None \<and> e2 = None")
      case True
      with run' have "e = e3" "s' = s3" by simp_all
      with True e1 e2 e3 b False show thesis by (intro that(4)) auto
    next
      case interrupted: False
      with run' have "e \<noteq> None" "s' = s1 \<or> e1 = None \<and> s' = s2" by (auto split: option.splits)
      with e1 e2 b False show thesis by (intro that(3)) auto
    qed
  qed
qed

lemma get_cases [consumes 2, case_names failed cached loaded not_stored]:
  assumes inv: "invar s"
    and run: "getting_products_Handle getProducts findAll setProducts s = (r, s')"
  obtains e where "r = Inl e" "s' = s"
  | ps b where "r = Inr ps" "s' = s" "cache s = Some b" "answers b ps"
  | ps b where "lists_rows (products s) (\<lambda>_. True) ps" "invar s'" "products s' = products s" "handled s' = handled s"
      "cache s' = Some b" "answers b ps" "r = Inr ps \<or> (\<exists>e. r = Inl e)"
  | e where "r = Inl e" "invar s'" "products s' = products s" "handled s' = handled s" "cache s' = cache s"
proof (cases "getProducts s")
  case (Inl x)
  with run that(1) show thesis by (auto simp: getting_products_Handle_def)
next
  case (Inr c)
  show thesis
  proof (cases c)
    case (Some ps)
    from get_cached [OF inv Inr [unfolded Some]] obtain b where "cache s = Some b" "answers b ps" by blast
    with run Inr Some that(2) show thesis by (auto simp: getting_products_Handle_def)
  next
    case None
    show thesis
    proof (cases "findAll s")
      case (Inl x)
      have "r = Inl x" "s' = s" using run Inr None Inl by (simp_all add: getting_products_Handle_def)
      then show thesis by (rule that(1))
    next
      case found: (Inr ps)
      obtain e t where t: "setProducts s ps = (e, t)" by fastforce
      have r: "r = (case e of Some x \<Rightarrow> Inl x | None \<Rightarrow> Inr ps)" and s': "s' = t"
        using run Inr None found t by (auto simp: getting_products_Handle_def split: option.splits)
      from set_effect [OF inv t] find_lists [OF inv found] r s' show thesis
        by (cases e) (auto intro: that(3,4))
    qed
  qed
qed

text \<open>
  A handled event empties the cache after it has changed the read model, so once an attempt has
  got that far the cache is coherent, whatever it held before.
\<close>

lemma created_coherent:
  assumes "invar s" and "product_created_Handle isProcessed upsert deleteProducts (saveProcessed env) c s = (e, s')"
  shows "invar s' \<and> handled s \<subseteq> handled s' \<and> handled s' \<subseteq> insert (cc_message_id c) (handled s)
    \<and> (coherent s' \<or> s' = s \<or> cc_message_id c \<notin> handled s')"
  using assms
proof (cases rule: created_cases)
  case applied
  then show ?thesis using coherent_empty by auto
qed (use assms(1) in auto)

lemma get_coherent:
  assumes "invar s" and "getting_products_Handle getProducts findAll setProducts s = (r, s')"
  shows "invar s' \<and> products s' = products s \<and> handled s' = handled s \<and> (coherent s \<longrightarrow> coherent s')"
  using assms
proof (cases rule: get_cases)
  case (loaded ps b)
  then show ?thesis by (auto simp: coherent_def)
next
  case (not_stored e)
  then show ?thesis by (simp add: coherent_def)
qed (use assms(1) in auto)

lemma coherent_answer:
  assumes "invar s" and "coherent s" and "getting_products_Handle getProducts findAll setProducts s = (Inr ps, s')"
  shows "lists_rows (products s) (\<lambda>_. True) ps"
  using assms(1,3)
proof (cases rule: get_cases)
  case (cached qs b)
  then show ?thesis using assms(2) answers_once by (auto simp: coherent_def)
qed auto

text \<open>
  The read side as a system: events are handled and queries answered, one at a time, in any
  order, repeated and failing anywhere, and the cached list expires at any time. \<open>ms\<close> collects
  the identifiers of the messages delivered so far.
\<close>

inductive read_step :: "'s \<times> string set \<Rightarrow> 's \<times> string set \<Rightarrow> bool" where
  handle: "product_created_Handle isProcessed upsert deleteProducts (saveProcessed env) c s = (e, s')
    \<Longrightarrow> read_step (s, ms) (s', insert (cc_message_id c) ms)"
| query: "getting_products_Handle getProducts findAll setProducts s = (r, s') \<Longrightarrow> read_step (s, ms) (s', ms)"
| expire: "invar s' \<Longrightarrow> products s' = products s \<Longrightarrow> handled s' = handled s \<Longrightarrow> cache s' = None
    \<Longrightarrow> read_step (s, ms) (s', ms)"

definition settled_coherent :: "'s \<times> string set \<Rightarrow> bool" where
  "settled_coherent x \<longleftrightarrow> invar (fst x) \<and> (snd x \<subseteq> handled (fst x) \<longrightarrow> coherent (fst x))"

lemma read_step_coherent:
  assumes "read_step x y" and "settled_coherent x"
  shows "settled_coherent y"
  using assms(1)
proof cases
  case (handle env c s e s' ms)
  have inv: "invar s" and old: "ms \<subseteq> handled s \<Longrightarrow> coherent s"
    using assms(2) by (simp_all add: settled_coherent_def handle(1))
  from created_coherent [OF inv handle(3)] have f: "invar s'" "handled s \<subseteq> handled s'"
    "handled s' \<subseteq> insert (cc_message_id c) (handled s)"
    "coherent s' \<or> s' = s \<or> cc_message_id c \<notin> handled s'" by blast+
  then show ?thesis using old by (auto simp: settled_coherent_def handle(2))
next
  case (query s r s' ms)
  have inv: "invar s" using assms(2) by (simp add: settled_coherent_def query(1))
  from get_coherent [OF inv query(3)] show ?thesis
    using assms(2) by (simp add: settled_coherent_def query)
next
  case (expire s' s ms)
  then show ?thesis by (simp add: settled_coherent_def coherent_empty)
qed

lemma read_steps_coherent:
  "read_step\<^sup>*\<^sup>* x y \<Longrightarrow> settled_coherent x \<Longrightarrow> settled_coherent y"
  by (induction rule: rtranclp_induct) (auto intro: read_step_coherent)

text \<open>
  Attempts to handle one event converge: they leave the read model as one undisturbed attempt
  would have, and the cache empty.
\<close>

definition created_result :: "'s \<Rightarrow> created_command \<Rightarrow> 's \<Rightarrow> bool" where
  "created_result s c s' \<longleftrightarrow> products s' = (products s)(cp_id (cc_product c) \<mapsto> cc_product c)
     \<and> cache s' = None \<and> handled s' = insert (cc_message_id c) (handled s)"

lemma created_converges:
  assumes "invar s" and "cc_message_id c \<notin> handled s"
    and "(\<lambda>u v. \<exists>env e. product_created_Handle isProcessed upsert deleteProducts (saveProcessed env) c u = (e, v))\<^sup>*\<^sup>* s s1"
    and "product_created_Handle isProcessed upsert deleteProducts (saveProcessed env) c s1 = (None, s')"
  shows "created_result s c s'"
proof -
  let ?upd = "(products s)(cp_id (cc_product c) \<mapsto> cc_product c)"
  have inv: "invar s1 \<and> (if cc_message_id c \<in> handled s1 then created_result s c s1
      else handled s1 = handled s \<and> (products s1 = products s \<or> products s1 = ?upd))"
    using assms(3)
  proof (induction rule: rtranclp_induct)
    case base
    show ?case using assms(1,2) by simp
  next
    case (step u v)
    then obtain env e where
      run: "product_created_Handle isProcessed upsert deleteProducts (saveProcessed env) c u = (e, v)" by blast
    have u: "invar u" using step.IH by blast
    from u run show ?case
      by (cases rule: created_cases) (use step.IH in \<open>auto simp: created_result_def split: if_splits\<close>)
  qed
  then have "invar s1" by blast
  from this assms(4) show ?thesis
    by (cases rule: created_cases) (use inv in \<open>auto simp: created_result_def split: if_splits\<close>)
qed

end

end
