(* ===== verification/Go_Strings.thy ===== *)
theory Go_Strings
  imports Go_Prelude
begin

text \<open>
  \<open>strings.TrimSpace\<close> on UTF-8 text: the runes of \<open>unicode.IsSpace\<close>, by their bytes, are taken
  off both ends.
\<close>

definition space_runes :: "string list" where
  "space_runes =
     [[CHR 0x20], [CHR 0x09], [CHR 0x0A], [CHR 0x0B], [CHR 0x0C], [CHR 0x0D],
      [CHR 0xC2, CHR 0x85], [CHR 0xC2, CHR 0xA0], [CHR 0xE1, CHR 0x9A, CHR 0x80],
      [CHR 0xE2, CHR 0x80, CHR 0x80], [CHR 0xE2, CHR 0x80, CHR 0x81], [CHR 0xE2, CHR 0x80, CHR 0x82],
      [CHR 0xE2, CHR 0x80, CHR 0x83], [CHR 0xE2, CHR 0x80, CHR 0x84], [CHR 0xE2, CHR 0x80, CHR 0x85],
      [CHR 0xE2, CHR 0x80, CHR 0x86], [CHR 0xE2, CHR 0x80, CHR 0x87], [CHR 0xE2, CHR 0x80, CHR 0x88],
      [CHR 0xE2, CHR 0x80, CHR 0x89], [CHR 0xE2, CHR 0x80, CHR 0x8A], [CHR 0xE2, CHR 0x80, CHR 0xA8],
      [CHR 0xE2, CHR 0x80, CHR 0xA9], [CHR 0xE2, CHR 0x80, CHR 0xAF], [CHR 0xE2, CHR 0x81, CHR 0x9F],
      [CHR 0xE3, CHR 0x80, CHR 0x80]]"

text \<open>The length of the rune of \<open>rs\<close> at the front of a text, or 0.\<close>

definition rune_at :: "string list \<Rightarrow> string \<Rightarrow> nat" where
  "rune_at rs s = (case List.find (\<lambda>r. take (length r) s = r) rs of None \<Rightarrow> 0 | Some r \<Rightarrow> length r)"

lemma rune_at_le: "rune_at rs s \<le> length s"
proof (cases "List.find (\<lambda>r. take (length r) s = r) rs")
  case (Some r)
  then have "take (length r) s = r" by (auto simp: find_Some_iff)
  then have "length r \<le> length s" by (metis length_take min.cobounded1)
  then show ?thesis by (simp add: rune_at_def Some)
qed (simp add: rune_at_def)

function trim_front :: "string list \<Rightarrow> string \<Rightarrow> string" where
  "trim_front rs s = (if rune_at rs s = 0 then s else trim_front rs (drop (rune_at rs s) s))"
  by auto
termination
proof (relation "measure (\<lambda>(rs, s). length s)")
  fix rs s
  assume "rune_at rs s \<noteq> 0"
  then show "((rs, drop (rune_at rs s) s), rs, s) \<in> measure (\<lambda>(rs, s). length s)"
    using rune_at_le [of rs s] by simp
qed simp

declare trim_front.simps [simp del]

definition TrimSpace :: "string \<Rightarrow> string" where
  "TrimSpace s = rev (trim_front (map rev space_runes) (rev (trim_front space_runes s)))"

section \<open>What is left is trimmed\<close>

lemma trim_front_done: "rune_at rs (trim_front rs s) = 0"
  by (induction rs s rule: trim_front.induct) (subst trim_front.simps, simp)

lemma trim_front_stop: "rune_at rs s = 0 \<Longrightarrow> trim_front rs s = s"
  by (simp add: trim_front.simps)

lemma trim_front_suffix: "\<exists>u. s = u @ trim_front rs s"
proof (induction rs s rule: trim_front.induct)
  case (1 rs s)
  show ?case
  proof (cases "rune_at rs s = 0")
    case True
    then show ?thesis by (simp add: trim_front_stop)
  next
    case False
    then obtain u where "drop (rune_at rs s) s = u @ trim_front rs (drop (rune_at rs s) s)" using 1 by blast
    then have "s = (take (rune_at rs s) s @ u) @ trim_front rs (drop (rune_at rs s) s)"
      by (metis append_assoc append_take_drop_id)
    moreover have "trim_front rs s = trim_front rs (drop (rune_at rs s) s)"
      by (subst trim_front.simps) (simp add: False)
    ultimately show ?thesis by metis
  qed
qed

text \<open>A prefix of a text with no rune at its front has none either.\<close>

lemma rune_at_prefix:
  assumes "rune_at rs (u @ v) = 0" and "[] \<notin> set rs"
  shows "rune_at rs u = 0"
proof (rule ccontr)
  assume "rune_at rs u \<noteq> 0"
  then obtain r where "List.find (\<lambda>r. take (length r) u = r) rs = Some r" and r: "length r \<noteq> 0"
    by (auto simp: rune_at_def split: option.splits)
  then have mem: "r \<in> set rs" and pre: "take (length r) u = r" by (auto simp: find_Some_iff)
  have "length r \<le> length u" using arg_cong [OF pre, of length] by simp
  with pre have "take (length r) (u @ v) = r" by simp
  with mem obtain q where "List.find (\<lambda>r. take (length r) (u @ v) = r) rs = Some q"
    by (cases "List.find (\<lambda>r. take (length r) (u @ v) = r) rs") (auto simp: find_None_iff)
  moreover from this have "q \<in> set rs" by (auto simp: find_Some_iff)
  ultimately show False using assms by (auto simp: rune_at_def)
qed

lemma TrimSpace_idem [simp]: "TrimSpace (TrimSpace s) = TrimSpace s"
proof -
  let ?l = "trim_front space_runes s" and ?rs = "map rev space_runes"
  obtain u where "rev ?l = u @ trim_front ?rs (rev ?l)" using trim_front_suffix by blast
  then have l: "?l = TrimSpace s @ rev u" unfolding TrimSpace_def by (metis rev_append rev_rev_ident)
  have ne: "[] \<notin> set space_runes" by (simp add: space_runes_def)
  have "rune_at space_runes (TrimSpace s @ rev u) = 0"
    using trim_front_done [of space_runes s] by (simp flip: l)
  from rune_at_prefix [OF this ne] have f: "trim_front space_runes (TrimSpace s) = TrimSpace s"
    by (rule trim_front_stop)
  have "rev (TrimSpace s) = trim_front ?rs (rev ?l)" by (simp add: TrimSpace_def)
  then have "rune_at ?rs (rev (TrimSpace s)) = 0" using trim_front_done by simp
  then have "trim_front ?rs (rev (TrimSpace s)) = rev (TrimSpace s)" by (rule trim_front_stop)
  then show ?thesis using f unfolding TrimSpace_def [of "TrimSpace s"] by simp
qed

end
