(* ===== verification/Catalog_Write.thy ===== *)
theory Catalog_Write
  imports Outbox Ozzo Go_Strings
begin

text \<open>
  The catalog's write side (\<open>services/catalog-write-service\<close>): the product, the service that
  creates one together with the event that announces it, the PostgreSQL repository and the gRPC
  server. Its outbox worker and publisher are those of \<open>Outbox\<close> and \<open>Publisher\<close>.
\<close>

section \<open>The product\<close>

record product =
  pd_id :: uuid
  pd_name :: string
  pd_description :: string
  pd_price :: float64
  pd_status :: string
  pd_created_at :: time
  pd_updated_at :: time

definition PRODUCT_ACTIVE_STATUS :: string where "PRODUCT_ACTIVE_STATUS = ''ACTIVE''"

definition errProductNameRequired :: err where "errProductNameRequired = Msg ''Product name is required''"
definition errProductPriceRequired :: err where "errProductPriceRequired = Msg ''Product price is required''"

definition NewProduct :: "uuid \<Rightarrow> time \<Rightarrow> string \<Rightarrow> string \<Rightarrow> float64 \<Rightarrow> err + product" where
  "NewProduct new now name description price =
     (let name = TrimSpace name
      in if name = '''' then Inl errProductNameRequired
         else if f_less price (Zero False) then Inl errProductPriceRequired
         else Inr \<lparr>pd_id = new, pd_name = name, pd_description = description, pd_price = price,
           pd_status = PRODUCT_ACTIVE_STATUS, pd_created_at = now, pd_updated_at = now\<rparr>)"

section \<open>The tables\<close>

record product_row =
  pr_id :: uuid
  pr_name :: string
  pr_description :: string
  pr_price :: float64
  pr_status :: string
  pr_created_at :: time
  pr_updated_at :: time

definition product_schema :: "product_row schema" where
  "product_schema =
     \<lparr>sc_key = pr_id,
      sc_check = (\<lambda>r. utf8_length (pr_name r) \<le> 255 \<and> \<not> f_less (pr_price r) (Zero False)
        \<and> pr_status r \<in> {''ACTIVE'', ''INACTIVE''}),
      sc_conflict = (\<lambda>r r'. False)\<rparr>"

record 's catalog_db =
  ct_products :: "('s, product_row) gorm"
  ct_outbox :: "('s, outbox_row) gorm"
  ct_tx :: "'s \<Rightarrow> 's act \<Rightarrow> err option \<times> 's"

definition same_catalog_rows :: "'s catalog_db \<Rightarrow> 's \<Rightarrow> 's \<Rightarrow> bool" where
  "same_catalog_rows D s s' \<longleftrightarrow>
     g_rows (ct_products D) s' = g_rows (ct_products D) s \<and> g_rows (ct_outbox D) s' = g_rows (ct_outbox D) s"

text \<open>The columns keep the identifier, the name, the description and the status.\<close>

definition product_columns :: "('s, product_row) gorm \<Rightarrow> bool" where
  "product_columns T \<longleftrightarrow>
     (\<forall>r. pr_name (g_stored T r) = pr_name r \<and> pr_description (g_stored T r) = pr_description r
        \<and> pr_status (g_stored T r) = pr_status r)"

definition catalog_db_laws :: "'s catalog_db \<Rightarrow> bool" where
  "catalog_db_laws D \<longleftrightarrow>
     gorm_laws product_schema (ct_products D) \<and> product_columns (ct_products D) \<and>
     outbox_laws (ct_outbox D) \<and>
     gorm_frame (ct_products D) (ct_outbox D) \<and> gorm_frame (ct_outbox D) (ct_products D) \<and>
     tx_laws (same_catalog_rows D) (ct_tx D)"

section \<open>The repository\<close>

definition toProductDataModel :: "product \<Rightarrow> product_row" where
  "toProductDataModel p =
     \<lparr>pr_id = pd_id p, pr_name = pd_name p, pr_description = pd_description p, pr_price = pd_price p,
      pr_status = pd_status p, pr_created_at = pd_created_at p, pr_updated_at = pd_updated_at p\<rparr>"

definition product_CreateWithOutbox ::
  "'s catalog_db \<Rightarrow> 's \<Rightarrow> product \<Rightarrow> outbox_message \<Rightarrow> err option \<times> 's" where
  "product_CreateWithOutbox D s p message =
     ct_tx D s
       (seq (\<lambda>s. g_create (ct_products D) s [toProductDataModel p])
            (\<lambda>s. g_create (ct_outbox D) s [toOutboxDataModel message]))"

section \<open>The service\<close>

definition product_payload :: "(uuid \<Rightarrow> string) \<Rightarrow> uuid \<Rightarrow> product \<Rightarrow> err + body" where
  "product_payload ustr messageID p =
     (case j_float (pd_price p) of
        Inl e \<Rightarrow> Inl e
      | Inr price \<Rightarrow>
          Inr (Doc (j_map
            [(''message_id'', JStr (ustr messageID)),
             (''product_id'', JStr (ustr (pd_id p))),
             (''name'', JStr (pd_name p)),
             (''description'', JStr (pd_description p)),
             (''price'', price),
             (''status'', JStr (pd_status p))])))"

definition product_message :: "uuid \<Rightarrow> time \<Rightarrow> product \<Rightarrow> body \<Rightarrow> outbox_message" where
  "product_message new now p payload =
     \<lparr>om_id = new, om_aggregate_id = pd_id p, om_aggregate_type = ''Product'',
      om_event_type = ''ProductCreated'', om_payload = payload,
      om_retry_count = 0, om_created_at = now, om_processed_at = None\<rparr>"

definition service_CreateProduct ::
  "(uuid \<Rightarrow> string) \<Rightarrow> ('s \<Rightarrow> product \<Rightarrow> outbox_message \<Rightarrow> err option \<times> 's)
   \<Rightarrow> (nat \<Rightarrow> uuid) \<Rightarrow> time \<Rightarrow> time \<Rightarrow> 's \<Rightarrow> string \<Rightarrow> string \<Rightarrow> float64 \<Rightarrow> (err + product) \<times> 's" where
  "service_CreateProduct ustr createWithOutbox new now1 now2 s name description price =
     (case NewProduct (new 0) now1 name description price of
        Inl e \<Rightarrow> (Inl e, s)
      | Inr p \<Rightarrow>
          (case product_payload ustr (new 1) p of
             Inl e \<Rightarrow> (Inl e, s)
           | Inr payload \<Rightarrow>
               (case createWithOutbox s p (product_message (new 2) now2 p payload) of
                  (Some e, s') \<Rightarrow> (Inl e, s')
                | (None, s') \<Rightarrow> (Inr p, s'))))"

section \<open>The gRPC server\<close>

record proto_product =
  pp_id :: string
  pp_name :: string
  pp_description :: string
  pp_price :: float64

definition server_CreateProduct ::
  "('s \<Rightarrow> string \<Rightarrow> string \<Rightarrow> float64 \<Rightarrow> (err + product) \<times> 's) \<Rightarrow> (uuid \<Rightarrow> string)
   \<Rightarrow> 's \<Rightarrow> string \<Rightarrow> string \<Rightarrow> float64 \<Rightarrow> (err + proto_product) \<times> 's" where
  "server_CreateProduct svc ustr s name description price =
     (case svc s name description price of
        (Inl err, s') \<Rightarrow> (Inl (Status InvalidArgument (err_text err)), s')
      | (Inr p, s') \<Rightarrow>
          (Inr \<lparr>pp_id = ustr (pd_id p), pp_name = pd_name p, pp_description = pd_description p,
             pp_price = pd_price p\<rparr>, s'))"

text \<open>The server over the service over the database, as \<open>app/module.go\<close> puts them together.\<close>

definition catalog_CreateProduct ::
  "'s catalog_db \<Rightarrow> (uuid \<Rightarrow> string) \<Rightarrow> (nat \<Rightarrow> uuid) \<Rightarrow> time \<Rightarrow> time
   \<Rightarrow> 's \<Rightarrow> string \<Rightarrow> string \<Rightarrow> float64 \<Rightarrow> (err + proto_product) \<times> 's" where
  "catalog_CreateProduct D ustr new now1 now2 =
     server_CreateProduct (service_CreateProduct ustr (product_CreateWithOutbox D) new now1 now2) ustr"

section \<open>Creating a product is atomic\<close>

definition product_created :: "'s catalog_db \<Rightarrow> 's \<Rightarrow> product \<Rightarrow> outbox_message \<Rightarrow> 's \<Rightarrow> bool" where
  "product_created D s p message s' \<longleftrightarrow>
     (let r = g_stored (ct_products D) (toProductDataModel p);
          m = g_stored (ct_outbox D) (toOutboxDataModel message)
      in insertable product_schema (g_rows (ct_products D) s) r
       \<and> g_rows (ct_products D) s' = (g_rows (ct_products D) s)(pd_id p \<mapsto> r)
       \<and> insertable outbox_schema (g_rows (ct_outbox D) s) m
       \<and> g_rows (ct_outbox D) s' = (g_rows (ct_outbox D) s)(om_id message \<mapsto> m))"

lemma product_created_same:
  "product_created D s p m s1 \<Longrightarrow> same_catalog_rows D s1 s' \<Longrightarrow> product_created D s p m s'"
  by (simp add: product_created_def same_catalog_rows_def Let_def)

lemma product_CreateWithOutbox_body:
  assumes laws: "catalog_db_laws D" and keys: "pd_id p \<noteq> 0" "om_id message \<noteq> 0"
    and run: "seq (\<lambda>s. g_create (ct_products D) s [toProductDataModel p])
       (\<lambda>s. g_create (ct_outbox D) s [toOutboxDataModel message]) s = (None, s')"
  shows "product_created D s p message s'"
proof -
  from run obtain s1 where c1: "g_create (ct_products D) s [toProductDataModel p] = (None, s1)"
    and c2: "g_create (ct_outbox D) s1 [toOutboxDataModel message] = (None, s')"
    by (auto simp: seq_None_iff)
  have gl: "gorm_laws product_schema (ct_products D)" "gorm_laws outbox_schema (ct_outbox D)"
    and fr: "gorm_frame (ct_products D) (ct_outbox D)" "gorm_frame (ct_outbox D) (ct_products D)"
    using laws by (simp_all add: catalog_db_laws_def outbox_laws_def)
  have k: "sc_key product_schema (toProductDataModel p) = pd_id p"
    "sc_key outbox_schema (toOutboxDataModel message) = om_id message"
    by (simp_all add: product_schema_def outbox_schema_def toProductDataModel_def toOutboxDataModel_def)
  show ?thesis
    using gorm_create_one_None [OF gl(1) c1] gorm_create_one_None [OF gl(2) c2]
      gorm_frameD(3) [OF fr(1) c1] gorm_frameD(3) [OF fr(2) c2] keys
    by (simp add: product_created_def Let_def gorm_stored_key [OF gl(1)] gorm_stored_key [OF gl(2)] k)
qed

lemma product_CreateWithOutbox_cases [consumes 4, case_names created unchanged]:
  assumes "catalog_db_laws D" and "pd_id p \<noteq> 0" and "om_id message \<noteq> 0"
    and "product_CreateWithOutbox D s p message = (e, s')"
  obtains "product_created D s p message s'" | "e \<noteq> None" "same_catalog_rows D s s'"
proof -
  have "tx_laws (same_catalog_rows D) (ct_tx D)" using assms(1) by (simp add: catalog_db_laws_def)
  then show thesis
    using assms(4) [unfolded product_CreateWithOutbox_def]
  proof (cases rule: tx_cases)
    case (committed s1)
    from product_created_same [OF product_CreateWithOutbox_body [OF assms(1-3) committed(1)] committed(2)]
    show thesis by (rule that(1))
  next
    case rolled_back
    then show thesis by (rule that(2))
  qed
qed

text \<open>A product the service accepts: its trimmed name is not empty and its price is a number, at least 0.\<close>

definition product_ok :: "string \<Rightarrow> float64 \<Rightarrow> bool" where
  "product_ok name price \<longleftrightarrow> TrimSpace name \<noteq> '''' \<and> f_nonneg price \<and> f_finite price"

lemma f_less_zero: "f_finite x \<Longrightarrow> f_less x (Zero False) \<longleftrightarrow> \<not> f_nonneg x"
  by (cases x) auto

lemma NewProduct_payload_iff:
  "(\<exists>p b. NewProduct new now name description price = Inr p \<and> product_payload ustr m p = Inr b)
     \<longleftrightarrow> product_ok name price"
  using j_float_Inr_iff [of price] f_less_zero [of price]
  by (cases "j_float price")
    (auto simp: NewProduct_def product_payload_def product_ok_def Let_def)

lemma CreateProduct_cases [consumes 3, case_names refused created unchanged]:
  assumes laws: "catalog_db_laws D" and new: "\<forall>i. new i \<noteq> (0::uuid)"
    and run: "service_CreateProduct ustr (product_CreateWithOutbox D) new now1 now2 s name description price = (r, s')"
  obtains e where "\<not> product_ok name price" "r = Inl e" "s' = s"
  | p b where "product_ok name price" "NewProduct (new 0) now1 name description price = Inr p"
      "product_payload ustr (new 1) p = Inr b"
      "product_created D s p (product_message (new 2) now2 p b) s'" "r = Inr p \<or> (\<exists>e. r = Inl e)"
  | e where "product_ok name price" "r = Inl e" "same_catalog_rows D s s'"
proof (cases "product_ok name price")
  case False
  then have "\<And>p b. NewProduct (new 0) now1 name description price = Inr p \<Longrightarrow> product_payload ustr (new 1) p \<noteq> Inr b"
    using NewProduct_payload_iff by blast
  with run have "(\<exists>e. r = Inl e) \<and> s' = s"
    by (auto simp: service_CreateProduct_def split: sum.splits dest: sym)
  with that(1) False show thesis by blast
next
  case True
  then obtain p b where p: "NewProduct (new 0) now1 name description price = Inr p"
    and b: "product_payload ustr (new 1) p = Inr b" using NewProduct_payload_iff by blast
  let ?m = "product_message (new 2) now2 p b"
  obtain e t where c: "product_CreateWithOutbox D s p ?m = (e, t)" by fastforce
  have r: "r = (case e of Some e \<Rightarrow> Inl e | None \<Rightarrow> Inr p)" and t: "s' = t"
    using run p b c by (auto simp: service_CreateProduct_def split: option.splits)
  have k: "pd_id p \<noteq> 0" using p new by (auto simp: NewProduct_def Let_def split: if_splits)
  have k2: "om_id ?m \<noteq> 0" using new by (simp add: product_message_def)
  from laws k k2 c show thesis
  proof (cases rule: product_CreateWithOutbox_cases)
    case created
    then show thesis using that(2) [OF True p b] r t by (cases e) auto
  next
    case unchanged
    then show thesis using that(3) [OF True] r t by auto
  qed
qed

text \<open>The outcomes of a request to the server.\<close>

lemma catalog_CreateProduct_outcome:
  assumes "catalog_db_laws D" and "\<forall>i. new i \<noteq> 0"
    and "catalog_CreateProduct D ustr new now1 now2 s name description price = (r, s')"
  shows "(same_catalog_rows D s s' \<or> (\<exists>p message. product_created D s p message s'))
    \<and> ((\<exists>m. r = Inl (Status InvalidArgument m))
      \<or> (\<exists>p message. product_created D s p message s' \<and> pd_name p = TrimSpace name \<and> pd_price p = price
          \<and> r = Inr \<lparr>pp_id = ustr (pd_id p), pp_name = TrimSpace name, pp_description = description, pp_price = price\<rparr>))"
proof -
  obtain r0 where run: "service_CreateProduct ustr (product_CreateWithOutbox D) new now1 now2 s name description price = (r0, s')"
    and r: "r = (case r0 of Inl err \<Rightarrow> Inl (Status InvalidArgument (err_text err))
      | Inr p \<Rightarrow> Inr \<lparr>pp_id = ustr (pd_id p), pp_name = pd_name p, pp_description = pd_description p, pp_price = pd_price p\<rparr>)"
    using assms(3) by (auto simp: catalog_CreateProduct_def server_CreateProduct_def split: prod.splits sum.splits)
  from assms(1,2) run show ?thesis
  proof (cases rule: CreateProduct_cases)
    case (refused e)
    then show ?thesis using r by (simp add: same_catalog_rows_def)
  next
    case (created p b)
    have "pd_name p = TrimSpace name" "pd_description p = description" "pd_price p = price"
      using created(2) by (auto simp: NewProduct_def Let_def split: if_splits)
    then show ?thesis using created(4,5) r by (auto split: sum.splits)
  next
    case (unchanged e)
    then show ?thesis using r by simp
  qed
qed

end
