(* ===== verification/Catalog_Read_Service.thy ===== *)
theory Catalog_Read_Service
  imports Catalog_Read Catalog_Write Consumers
begin

text \<open>
  The catalog's read side over its stores: the handlers with the MongoDB and Redis repositories,
  as \<open>app/module.go\<close> registers them with the mediator, and the consumer of product events
  (\<open>product_created_consumer.go\<close>).
\<close>

section \<open>The stores together\<close>

record 's read_db =
  rb_products :: "'s product_collection"
  rb_inbox :: "'s inbox_collection"
  rb_redis :: "'s redis"

text \<open>A call on one store leaves the others as they are.\<close>

definition read_db_laws :: "'s read_db \<Rightarrow> bool" where
  "read_db_laws D \<longleftrightarrow>
     product_collection_laws (rb_products D) \<and> inbox_collection_laws (rb_inbox D) \<and> redis_laws (rb_redis D) \<and>
     (\<forall>s i m. ic_docs (rb_inbox D) (snd (pc_replace_one (rb_products D) s i m)) = ic_docs (rb_inbox D) s) \<and>
     (\<forall>s i m. rd_values (rb_redis D) (snd (pc_replace_one (rb_products D) s i m)) = rd_values (rb_redis D) s) \<and>
     (\<forall>s d. pc_docs (rb_products D) (snd (ic_insert_one (rb_inbox D) s d)) = pc_docs (rb_products D) s) \<and>
     (\<forall>s d. rd_values (rb_redis D) (snd (ic_insert_one (rb_inbox D) s d)) = rd_values (rb_redis D) s) \<and>
     (\<forall>s k v ttl. pc_docs (rb_products D) (snd (rd_set (rb_redis D) s k v ttl)) = pc_docs (rb_products D) s) \<and>
     (\<forall>s k v ttl. ic_docs (rb_inbox D) (snd (rd_set (rb_redis D) s k v ttl)) = ic_docs (rb_inbox D) s) \<and>
     (\<forall>s k. pc_docs (rb_products D) (snd (rd_del (rb_redis D) s k)) = pc_docs (rb_products D) s) \<and>
     (\<forall>s k. ic_docs (rb_inbox D) (snd (rd_del (rb_redis D) s k)) = ic_docs (rb_inbox D) s)"

definition catalog_HandleProductCreated :: "'s read_db \<Rightarrow> time \<Rightarrow> created_command \<Rightarrow> 's act" where
  "catalog_HandleProductCreated D now =
     product_created_Handle (mongo_IsProcessed (rb_inbox D)) (Upsert (rb_products D))
       (DeleteProducts (rb_redis D)) (mongo_SaveProcessed (rb_inbox D) now)"

definition catalog_GetProducts :: "'s read_db \<Rightarrow> 's \<Rightarrow> (err + catalog_product list) \<times> 's" where
  "catalog_GetProducts D =
     getting_products_Handle (GetCachedProducts (rb_redis D)) (FindAll (rb_products D)) (SetProducts (rb_redis D))"

definition read_model :: "'s read_db \<Rightarrow> 's \<Rightarrow> string \<rightharpoonup> catalog_product" where
  "read_model D = catalog_products (rb_products D)"

interpretation catalog: read_stores "\<lambda>s. read_db_laws D" "read_model D" "cached_body (rb_redis D)"
    "\<lambda>b ps. unmarshal_products b = Some (Some ps)" "inbox_handled (rb_inbox D)"
    "mongo_IsProcessed (rb_inbox D)" "Upsert (rb_products D)" "FindAll (rb_products D)"
    "GetCachedProducts (rb_redis D)" "SetProducts (rb_redis D)" "DeleteProducts (rb_redis D)"
    "mongo_SaveProcessed (rb_inbox D)"
  for D :: "'s read_db"
proof (unfold_locales, goal_cases)
  case (1 s m seen)
  then show ?case using mongo_IsProcessed_iff [of "rb_inbox D" s m seen] by (simp add: read_db_laws_def)
next
  case (2 s p e s')
  then have "s' = snd (pc_replace_one (rb_products D) s (cp_id p) (to_product_model p))" by (simp add: Upsert_def)
  then show ?case using 2 Upsert_cases [of "rb_products D" s p e s']
    by (simp add: read_db_laws_def read_model_def cached_body_def inbox_handled_def)
next
  case (3 s e s')
  then have "s' = snd (rd_del (rb_redis D) s productsCacheKey)" by (simp add: DeleteProducts_def)
  then show ?case using 3 DeleteProducts_cases [of "rb_redis D" s e s']
    by (simp add: read_db_laws_def read_model_def catalog_products_def inbox_handled_def)
next
  case (4 s env m t payload e s')
  then have "s' = snd (ic_insert_one (rb_inbox D) s \<lparr>mi_message_id = m, mi_event_type = t, mi_payload = payload,
      mi_processed_at = env\<rparr>)" by (simp add: mongo_SaveProcessed_def)
  then show ?case using 4 mongo_SaveProcessed_cases [of "rb_inbox D" env s m t payload e s']
    by (simp add: read_db_laws_def read_model_def catalog_products_def cached_body_def)
next
  case (5 s ps)
  then show ?case using FindAll_lists [of "rb_products D" s ps] by (simp add: read_db_laws_def read_model_def)
next
  case (6 s ps)
  then have "redis_laws (rb_redis D)" by (simp add: read_db_laws_def)
  from this 6(2) show ?case by (rule GetCachedProducts_Some) blast
next
  case (7 s ps e s')
  then have redis: "redis_laws (rb_redis D)" by (simp add: read_db_laws_def)
  have frame: "read_model D s' = read_model D s \<and> inbox_handled (rb_inbox D) s' = inbox_handled (rb_inbox D) s"
  proof (cases "products_json ps")
    case (Inl x)
    then show ?thesis using 7(2) by (simp add: SetProducts_def)
  next
    case (Inr js)
    then have "s' = snd (rd_set (rb_redis D) s productsCacheKey (Doc (JArr js)) cache_ttl)"
      using 7(2) by (simp add: SetProducts_def)
    then show ?thesis using 7(1) by (simp add: read_db_laws_def read_model_def catalog_products_def inbox_handled_def)
  qed
  from redis 7(2) show ?case
    by (rule SetProducts_cases) (use frame 7(1) cached_products_round_trip in auto)
next
  case (8 b ps qs)
  then show ?case by simp
qed

section \<open>The consumer\<close>

record ProductCreatedEvent =
  pe_message_id :: string
  pe_product_id :: string
  pe_name :: string
  pe_description :: string
  pe_price :: float64
  pe_status :: string

definition ProductCreatedEvent_fields :: "string \<Rightarrow> ProductCreatedEvent dec option" where
  "ProductCreatedEvent_fields k =
     (if k = ''message_id'' then Some (dec_field pe_message_id (\<lambda>x. pe_message_id_update (\<lambda>_. x)) dec_string)
      else if k = ''product_id'' then Some (dec_field pe_product_id (\<lambda>x. pe_product_id_update (\<lambda>_. x)) dec_string)
      else if k = ''name'' then Some (dec_field pe_name (\<lambda>x. pe_name_update (\<lambda>_. x)) dec_string)
      else if k = ''description'' then Some (dec_field pe_description (\<lambda>x. pe_description_update (\<lambda>_. x)) dec_string)
      else if k = ''price'' then Some (dec_field pe_price (\<lambda>x. pe_price_update (\<lambda>_. x)) dec_float)
      else if k = ''status'' then Some (dec_field pe_status (\<lambda>x. pe_status_update (\<lambda>_. x)) dec_string)
      else None)"

definition decode_ProductCreated :: "body \<Rightarrow> ProductCreatedEvent option" where
  "decode_ProductCreated =
     unmarshal ProductCreatedEvent_fields
       \<lparr>pe_message_id = [], pe_product_id = [], pe_name = [], pe_description = [], pe_price = Zero False,
        pe_status = []\<rparr>"

definition event_product :: "ProductCreatedEvent \<Rightarrow> catalog_product" where
  "event_product event =
     \<lparr>cp_id = pe_product_id event, cp_name = pe_name event, cp_description = pe_description event,
      cp_price = pe_price event, cp_status = pe_status event\<rparr>"

definition event_command :: "body \<Rightarrow> ProductCreatedEvent \<Rightarrow> created_command" where
  "event_command b event =
     \<lparr>cc_message_id = pe_message_id event, cc_product = event_product event, cc_payload = b\<rparr>"

text \<open>
  The two consumers of product events differ in the request they send: the decoded event goes
  to \<open>send\<close>.
\<close>

definition product_event_handleMessage ::
  "amqp \<Rightarrow> ('e \<Rightarrow> body \<Rightarrow> ProductCreatedEvent \<Rightarrow> 's act) \<Rightarrow> 'e \<Rightarrow> delivery \<Rightarrow> 's \<times> chan \<Rightarrow> 's \<times> chan" where
  "product_event_handleMessage B send env d sh =
     (case sh of (s, h) \<Rightarrow>
        case decode_ProductCreated (p_body d) of
          None \<Rightarrow> (s, snd (call B (NackCall (d_tag d) False False) h))
        | Some event \<Rightarrow>
            (case send env (p_body d) event s of
               (Some e, s') \<Rightarrow> (s', snd (call B (NackCall (d_tag d) False True) h))
             | (None, s') \<Rightarrow> (s', snd (call B (AckCall (d_tag d) False) h))))"

definition productCreated_handleMessage ::
  "'s read_db \<Rightarrow> amqp \<Rightarrow> time \<Rightarrow> delivery \<Rightarrow> 's \<times> chan \<Rightarrow> 's \<times> chan" where
  "productCreated_handleMessage D B =
     product_event_handleMessage B (\<lambda>now b event. catalog_HandleProductCreated D now (event_command b event))"

definition productCreated_Start ::
  "'s read_db \<Rightarrow> amqp \<Rightarrow> string \<Rightarrow> string \<Rightarrow> time consumer_event list \<Rightarrow> 's \<times> chan
   \<Rightarrow> err option option \<times> 's \<times> chan" where
  "productCreated_Start D B exchange queueName =
     consumer_Start deliveries_closed (plain_consumer_setup B exchange queueName ''product.created'')
       (productCreated_handleMessage D B)"

lemma product_event_cases [consumes 1, case_names malformed failed handled]:
  assumes "product_event_handleMessage B send env d (s, h) = (s', h')"
  obtains "decode_ProductCreated (p_body d) = None" "s' = s" "h' = h @ [NackCall (d_tag d) False False]"
  | event e where "decode_ProductCreated (p_body d) = Some event"
      "send env (p_body d) event s = (Some e, s')" "h' = h @ [NackCall (d_tag d) False True]"
  | event where "decode_ProductCreated (p_body d) = Some event"
      "send env (p_body d) event s = (None, s')" "h' = h @ [AckCall (d_tag d) False]"
  using assms by (auto simp: product_event_handleMessage_def split: option.splits prod.splits)

section \<open>The gRPC server\<close>

definition to_proto_products :: "catalog_product list \<Rightarrow> proto_product list" where
  "to_proto_products products =
     map (\<lambda>p. \<lparr>pp_id = cp_id p, pp_name = cp_name p, pp_description = cp_description p, pp_price = cp_price p\<rparr>) products"

definition server_GetProducts :: "('s \<Rightarrow> (err + catalog_product list) \<times> 's) \<Rightarrow> 's \<Rightarrow> (err + proto_product list) \<times> 's" where
  "server_GetProducts send s =
     (case send s of
        (Inl err, s') \<Rightarrow> (Inl err, s')
      | (Inr products, s') \<Rightarrow> (Inr (to_proto_products products), s'))"

definition server_SearchProducts :: "('s \<Rightarrow> string \<Rightarrow> err + catalog_product list) \<Rightarrow> 's \<Rightarrow> string \<Rightarrow> err + proto_product list" where
  "server_SearchProducts send s query =
     (case send s query of Inl err \<Rightarrow> Inl err | Inr products \<Rightarrow> Inr (to_proto_products products))"

section \<open>From the write side to the read side\<close>

declare fold_name.simps [simp del]

lemma bind_map_option: "Option.bind (map_option f x) g = Option.bind x (\<lambda>y. g (f y))"
  by (cases x) simp_all

lemma dec_field_commute:
  assumes "\<And>r x y. put (x :: 'a) (put' (y :: 'b) r) = put' y (put x r)"
    and "\<And>r y. get (put' y r) = get r" and "\<And>r x. get' (put x r) = get' r"
  shows "dec_commute (dec_field get put d) (dec_field get' put' d')"
proof -
  have "Option.bind (dec_field get put d j r) (dec_field get' put' d' j')
    = Option.bind (dec_field get' put' d' j' r) (dec_field get put d j)" for j j' r
    unfolding dec_field_def bind_map_option using assms
    by (cases "d j (get r)"; cases "d' j' (get' r)") auto
  then show ?thesis by (simp add: dec_commute_def)
qed

lemma ProductCreatedEvent_commute: "fields_commute ProductCreatedEvent_fields"
proof (rule fields_commuteI)
  fix k k' d d'
  assume ne: "k \<noteq> k'" and k: "ProductCreatedEvent_fields k = Some d" and k': "ProductCreatedEvent_fields k' = Some d'"
  show "dec_commute d d'"
    using ne k k' unfolding ProductCreatedEvent_fields_def
    by (auto split: if_splits) (rule dec_field_commute; simp)+
qed

text \<open>
  The read side decodes, from every document with the value of the event's payload, the event
  that the write side wrote. A negative zero has lost its sign in the JSONB column.
\<close>

lemma product_event_read:
  assumes "product_payload ustr m p = Inr w" and "same_body b w"
  obtains price where "decode_ProductCreated b = Some
      \<lparr>pe_message_id = ustr m, pe_product_id = ustr (pd_id p), pe_name = pd_name p,
       pe_description = pd_description p, pe_price = price, pe_status = pd_status p\<rparr>"
    and "pos_zero price = pos_zero (pd_price p)"
proof -
  let ?kvs = "\<lambda>price. [(''message_id'', JStr (ustr m)), (''product_id'', JStr (ustr (pd_id p))), (''name'', JStr (pd_name p)),
      (''description'', JStr (pd_description p)), (''price'', price), (''status'', JStr (pd_status p))]"
  from assms(1) obtain price where price: "j_float (pd_price p) = Inr price" and w: "w = Doc (j_map (?kvs price))"
    by (auto simp: product_payload_def split: sum.splits)
  from price have lit: "price = JNum None (pd_price p)" and fin: "f_finite (pd_price p)"
    by (cases "pd_price p"; auto)+
  from assms(2) obtain j where b: "b = Doc j" and j: "jnorm j = jnorm (j_map (?kvs price))"
    by (auto simp: w same_body_Doc)
  obtain kvs where kvs: "j = JObj kvs" and mem: "members kvs (?kvs price)" by (rule same_j_map [OF j])
  have dist: "distinct (map (fold_name \<circ> fst) (?kvs price))" by (simp add: decode_simps)
  obtain kvs' where norm: "map (\<lambda>(k, v). (k, jnorm v)) kvs' = map (\<lambda>(k, v). (k, jnorm v)) (?kvs price)"
    and dec: "\<And>a. dec_members ProductCreatedEvent_fields kvs a = dec_members ProductCreatedEvent_fields kvs' a"
    by (rule dec_same_members [OF ProductCreatedEvent_commute dist mem]) blast
  from norm lit obtain x where x: "kvs' = ?kvs (JNum None x)" and z: "pos_zero x = pos_zero (pd_price p)"
    by (auto simp: map_eq_Cons_conv)
  have "f_finite x" using fin z by (metis pos_zero_finite)
  then show thesis
    by (intro that [OF _ z])
      (simp add: decode_ProductCreated_def b kvs dec x ProductCreatedEvent_fields_def dec_field_def decode_simps)
qed

section \<open>Runs of the read side\<close>

text \<open>
  Events are delivered and queries answered, one at a time and in any order, and the cached
  list expires at any time. The set collects the identifiers of the events delivered.
\<close>

definition event_id :: "delivery \<Rightarrow> string set" where
  "event_id d = (case decode_ProductCreated (p_body d) of None \<Rightarrow> {} | Some event \<Rightarrow> {pe_message_id event})"

inductive catalog_step :: "'s read_db \<Rightarrow> amqp \<Rightarrow> 's \<times> string set \<Rightarrow> 's \<times> string set \<Rightarrow> bool" for D B where
  deliver: "productCreated_handleMessage D B now d (s, h) = (s', h') \<Longrightarrow> catalog_step D B (s, ms) (s', event_id d \<union> ms)"
| query: "catalog_GetProducts D s = (r, s') \<Longrightarrow> catalog_step D B (s, ms) (s', ms)"
| expire: "read_model D s' = read_model D s \<Longrightarrow> inbox_handled (rb_inbox D) s' = inbox_handled (rb_inbox D) s
    \<Longrightarrow> cached_body (rb_redis D) s' = None \<Longrightarrow> catalog_step D B (s, ms) (s', ms)"

lemma catalog_step_read_step:
  assumes "read_db_laws D" and "catalog_step D B x y"
  shows "(catalog.read_step D)\<^sup>=\<^sup>= x y"
  using assms(2)
proof cases
  case (deliver now d s h s' h' ms)
  from deliver(3) [unfolded productCreated_handleMessage_def] show ?thesis
  proof (cases rule: product_event_cases)
    case malformed
    then show ?thesis by (simp add: deliver(1,2) event_id_def)
  next
    case (failed event e)
    from catalog.read_step.handle [OF failed(2) [unfolded catalog_HandleProductCreated_def], of ms]
    show ?thesis by (simp add: deliver(1,2) event_id_def failed(1) event_command_def)
  next
    case (handled event)
    from catalog.read_step.handle [OF handled(2) [unfolded catalog_HandleProductCreated_def], of ms]
    show ?thesis by (simp add: deliver(1,2) event_id_def handled(1) event_command_def)
  qed
next
  case (query s r s' ms)
  from catalog.read_step.query [OF query(3) [unfolded catalog_GetProducts_def], of ms]
  show ?thesis by (simp add: query(1,2))
next
  case (expire s' s ms)
  from catalog.read_step.expire [OF assms(1) expire(3-5), of ms] show ?thesis by (simp add: expire(1,2))
qed

lemma catalog_steps_coherent:
  assumes "read_db_laws D" and "cached_body (rb_redis D) s0 = None" and "(catalog_step D B)\<^sup>*\<^sup>* (s0, {}) (s, ms)"
    and "ms \<subseteq> inbox_handled (rb_inbox D) s"
  shows "catalog.coherent D s"
proof -
  have "(catalog.read_step D)\<^sup>*\<^sup>* (s0, {}) (s, ms)"
    using assms(3)
  proof (induction rule: rtranclp_induct)
    case base
    show ?case by simp
  next
    case (step y z)
    from catalog_step_read_step [OF assms(1) step.hyps(2)] step.IH show ?case
      by (auto intro: rtranclp.rtrancl_into_rtrancl)
  qed
  moreover have "catalog.settled_coherent D (s0, {})"
    unfolding catalog.settled_coherent_def using catalog.coherent_empty [OF assms(2)] assms(1) by simp
  ultimately have "catalog.settled_coherent D (s, ms)" by (rule catalog.read_steps_coherent)
  with assms(4) show ?thesis by (simp add: catalog.settled_coherent_def)
qed

end
