(* ===== verification/Catalog_Search.thy ===== *)
theory Catalog_Search
  imports Catalog_Read_Service
begin

text \<open>
  The search side of the catalog: the Elasticsearch repository, the handlers that index and
  search products, and the consumer that feeds the index.

  The Elasticsearch client is a parameter (record \<open>es\<close>). A call returns an error or a response,
  of which the code uses the status code, the status text, whether the client calls it an
  error, the result of closing the body, the first 8 KiB of the body's text and the document in
  the body. \<open>es_laws\<close> states the documented behaviour of the index and search requests.
\<close>

section \<open>Elasticsearch\<close>

record es_response =
  er_code :: int
  er_status :: string
  er_is_error :: bool
  er_close :: "err option"
  er_text :: "err + string"
  er_body :: body

record 's es =
  es_docs :: "'s \<Rightarrow> string \<Rightarrow> string \<rightharpoonup> json"
  es_exists :: "'s \<Rightarrow> string \<Rightarrow> err + es_response"
  es_create :: "'s \<Rightarrow> string \<Rightarrow> json \<Rightarrow> (err + es_response) \<times> 's"
  es_index :: "'s \<Rightarrow> string \<Rightarrow> string \<Rightarrow> json \<Rightarrow> string \<Rightarrow> (err + es_response) \<times> 's"
  es_search :: "'s \<Rightarrow> string \<Rightarrow> json \<Rightarrow> int \<Rightarrow> err + es_response"

fun accepted :: "err + es_response \<Rightarrow> bool" where
  "accepted (Inl e) = False"
| "accepted (Inr r) = (\<not> er_is_error r)"

text \<open>
  The response of a search holds, under \<open>hits.hits\<close>, at most as many hits as asked for, of
  different documents, each with the indexed document as its \<open>_source\<close>; no other key of these
  objects reads as the key the decoder looks for.
\<close>

definition only_member :: "(string \<times> json) list \<Rightarrow> string \<Rightarrow> json \<Rightarrow> bool" where
  "only_member kvs k v \<longleftrightarrow> filter (\<lambda>(k', _). fold_name k' = k) kvs = [(k, v)]"

fun is_hit :: "(string \<rightharpoonup> json) \<Rightarrow> string \<Rightarrow> json \<Rightarrow> bool" where
  "is_hit docs i (JObj kvs) = (\<exists>src. only_member kvs ''_source'' src \<and> docs i = Some src)"
| "is_hit docs i _ = False"

definition lists_hits :: "(string \<rightharpoonup> json) \<Rightarrow> int \<Rightarrow> body \<Rightarrow> bool" where
  "lists_hits docs n b \<longleftrightarrow>
     (\<exists>kvs hkvs hs ids. b = Doc (JObj kvs) \<and> only_member kvs ''hits'' (JObj hkvs)
        \<and> only_member hkvs ''hits'' (JArr hs) \<and> distinct ids \<and> list_all2 (is_hit docs) ids hs
        \<and> int (length hs) \<le> n)"

definition es_laws :: "'s es \<Rightarrow> bool" where
  "es_laws E \<longleftrightarrow>
     (\<forall>s index i doc refresh r s'. es_index E s index i doc refresh = (r, s') \<longrightarrow>
        es_docs E s' = (es_docs E s)(index := (es_docs E s index)(i \<mapsto> doc))
        \<or> \<not> accepted r \<and> es_docs E s' = es_docs E s) \<and>
     (\<forall>s index query n r. es_search E s index query n = Inr r \<longrightarrow> \<not> er_is_error r \<longrightarrow>
        lists_hits (es_docs E s index) n (er_body r))"

section \<open>The repository\<close>

record search_document =
  sd_id :: string
  sd_name :: string
  sd_description :: string
  sd_price :: float64
  sd_status :: string

definition search_document_of :: "catalog_product \<Rightarrow> search_document" where
  "search_document_of p =
     \<lparr>sd_id = cp_id p, sd_name = cp_name p, sd_description = cp_description p,
      sd_price = cp_price p, sd_status = cp_status p\<rparr>"

definition product_of_document :: "search_document \<Rightarrow> catalog_product" where
  "product_of_document d =
     \<lparr>cp_id = sd_id d, cp_name = sd_name d, cp_description = sd_description d,
      cp_price = sd_price d, cp_status = sd_status d\<rparr>"

definition document_json :: "search_document \<Rightarrow> err + json" where
  "document_json d =
     (case j_float (sd_price d) of
        Inl e \<Rightarrow> Inl e
      | Inr price \<Rightarrow> Inr (JObj [(''id'', JStr (sd_id d)), (''name'', JStr (sd_name d)),
          (''description'', JStr (sd_description d)), (''price'', price), (''status'', JStr (sd_status d))]))"

definition document_fields :: "string \<Rightarrow> search_document dec option" where
  "document_fields k =
     (if k = ''id'' then Some (dec_field sd_id (\<lambda>x d. d\<lparr>sd_id := x\<rparr>) dec_string)
      else if k = ''name'' then Some (dec_field sd_name (\<lambda>x d. d\<lparr>sd_name := x\<rparr>) dec_string)
      else if k = ''description'' then Some (dec_field sd_description (\<lambda>x d. d\<lparr>sd_description := x\<rparr>) dec_string)
      else if k = ''price'' then Some (dec_field sd_price (\<lambda>x d. d\<lparr>sd_price := x\<rparr>) dec_float)
      else if k = ''status'' then Some (dec_field sd_status (\<lambda>x d. d\<lparr>sd_status := x\<rparr>) dec_string)
      else None)"

definition zero_document :: search_document where
  "zero_document = \<lparr>sd_id = [], sd_name = [], sd_description = [], sd_price = Zero False, sd_status = []\<rparr>"

definition elasticsearchResponseError :: "string \<Rightarrow> es_response \<Rightarrow> err" where
  "elasticsearchResponseError operation response =
     (case er_text response of
        Inl _ \<Rightarrow> Msg (operation @ '': '' @ er_status response)
      | Inr payload \<Rightarrow> Msg (operation @ '': '' @ er_status response @ '': '' @ payload))"

definition index_mapping :: json where
  "index_mapping =
     JObj [(''mappings'', JObj [(''properties'', JObj [
       (''id'', JObj [(''type'', JStr ''keyword'')]),
       (''name'', JObj [(''type'', JStr ''text'')]),
       (''description'', JObj [(''type'', JStr ''text'')]),
       (''price'', JObj [(''type'', JStr ''double'')]),
       (''status'', JObj [(''type'', JStr ''keyword'')])])])]"

definition ensureIndex :: "'s es \<Rightarrow> string \<Rightarrow> 's act" where
  "ensureIndex E index s =
     (case es_exists E s index of
        Inl err \<Rightarrow> (Some (Wrap ''check product search index: '' err), s)
      | Inr response \<Rightarrow>
          (case er_close response of
             Some err \<Rightarrow> (Some (Wrap ''close product search index response: '' err), s)
           | None \<Rightarrow>
               if er_code response = 200 then (None, s)
               else if er_code response \<noteq> 404
                 then (Some (Msg (''check product search index: '' @ er_status response)), s)
               else (case es_create E s index index_mapping of
                 (Inl err, s') \<Rightarrow> (Some (Wrap ''create product search index: '' err), s')
               | (Inr created, s') \<Rightarrow>
                   if er_is_error created
                   then (Some (elasticsearchResponseError ''create product search index'' created), s')
                   else (None, s'))))"

text \<open>The constructor returns the repository over the configured index, or the error.\<close>

definition NewProductSearchRepositoryElasticsearch :: "'s es \<Rightarrow> string \<Rightarrow> 's \<Rightarrow> (err + string) \<times> 's" where
  "NewProductSearchRepositoryElasticsearch E productsIndex s =
     (case ensureIndex E productsIndex s of
        (Some err, s') \<Rightarrow> (Inl err, s')
      | (None, s') \<Rightarrow> (Inr productsIndex, s'))"

definition search_Index :: "'s es \<Rightarrow> string \<Rightarrow> catalog_product \<Rightarrow> 's act" where
  "search_Index E index p s =
     (case document_json (search_document_of p) of
        Inl err \<Rightarrow> (Some (Wrap ''marshal product search document: '' err), s)
      | Inr payload \<Rightarrow>
          (case es_index E s index (cp_id p) payload ''wait_for'' of
             (Inl err, s') \<Rightarrow> (Some (Wrap ''index product search document: '' err), s')
           | (Inr response, s') \<Rightarrow>
               if er_is_error response
               then (Some (elasticsearchResponseError ''index product search document'' response), s')
               else (None, s')))"

definition search_query :: "string \<Rightarrow> json" where
  "search_query t =
     j_map [(''query'', j_map [(''multi_match'', j_map [(''query'', JStr t),
       (''fields'', JArr [JStr ''name^2'', JStr ''description''])])])]"

definition hit_fields :: "string \<Rightarrow> search_document dec option" where
  "hit_fields k = (if k = ''_source'' then Some (dec_struct document_fields) else None)"

definition hits_fields :: "string \<Rightarrow> (search_document list \<times> search_document list) dec option" where
  "hits_fields k = (if k = ''hits'' then Some (dec_slice zero_document (dec_struct hit_fields)) else None)"

definition response_fields :: "string \<Rightarrow> (search_document list \<times> search_document list) dec option" where
  "response_fields k = (if k = ''hits'' then Some (dec_struct hits_fields) else None)"

definition decode_hits :: "body \<Rightarrow> search_document list option" where
  "decode_hits b = map_option snd (unmarshal response_fields ([], []) b)"

definition search_Search :: "'s es \<Rightarrow> string \<Rightarrow> 's \<Rightarrow> string \<Rightarrow> err + catalog_product list" where
  "search_Search E index s t =
     (case es_search E s index (search_query t) 50 of
        Inl err \<Rightarrow> Inl (Wrap ''search product documents: '' err)
      | Inr response \<Rightarrow>
          if er_is_error response then Inl (elasticsearchResponseError ''search product documents'' response)
          else (case decode_hits (er_body response) of
            None \<Rightarrow> Inl (Wrap ''decode product search response: '' json_error)
          | Some hits \<Rightarrow> Inr (map product_of_document hits)))"

section \<open>The handlers and the consumer\<close>

definition indexing_product_Handle :: "(catalog_product \<Rightarrow> 's act) \<Rightarrow> catalog_product \<Rightarrow> 's act" where
  "indexing_product_Handle index p s = index p s"

definition errSearchTextRequired :: err where "errSearchTextRequired = Msg ''search text is required''"

definition searching_products_Handle ::
  "('s \<Rightarrow> string \<Rightarrow> err + catalog_product list) \<Rightarrow> 's \<Rightarrow> string \<Rightarrow> err + catalog_product list" where
  "searching_products_Handle search s query =
     (let t = TrimSpace query in if t = [] then Inl errSearchTextRequired else search s t)"

definition productSearchIndex_handleMessage :: "'s es \<Rightarrow> string \<Rightarrow> amqp \<Rightarrow> delivery \<Rightarrow> 's \<times> chan \<Rightarrow> 's \<times> chan" where
  "productSearchIndex_handleMessage E index B =
     product_event_handleMessage B
       (\<lambda>_ _ event. indexing_product_Handle (search_Index E index) (event_product event)) ()"

definition productSearchIndex_Start ::
  "'s es \<Rightarrow> string \<Rightarrow> amqp \<Rightarrow> string \<Rightarrow> string \<Rightarrow> unit consumer_event list \<Rightarrow> 's \<times> chan
   \<Rightarrow> err option option \<times> 's \<times> chan" where
  "productSearchIndex_Start E index B exchange queueName =
     consumer_Start ''RabbitMQ search-index deliveries channel closed''
       (plain_consumer_setup B exchange queueName ''product.created'')
       (\<lambda>_. productSearchIndex_handleMessage E index B)"

definition catalog_SearchProducts :: "'s es \<Rightarrow> string \<Rightarrow> 's \<Rightarrow> string \<Rightarrow> err + proto_product list" where
  "catalog_SearchProducts E index =
     server_SearchProducts (searching_products_Handle (search_Search E index))"

section \<open>Decoding a search response\<close>

lemma fold_document_names [decode_simps]:
  "fold_name ''id'' = ''id''" "fold_name ''_source'' = ''_source''" "fold_name ''hits'' = ''hits''"
  by code_simp+

lemma dec_document_json:
  assumes "document_json d = Inr j"
  shows "dec_struct document_fields j zero_document = Some d"
proof -
  from assms obtain price where price: "j_float (sd_price d) = Inr price"
    and j: "j = JObj [(''id'', JStr (sd_id d)), (''name'', JStr (sd_name d)),
          (''description'', JStr (sd_description d)), (''price'', price), (''status'', JStr (sd_status d))]"
    by (auto simp: document_json_def split: sum.splits)
  from dec_float_j_float [OF price] show ?thesis
    by (simp add: j document_fields_def dec_field_def decode_simps)
qed

lemma search_document_inverse [simp]:
  "product_of_document (search_document_of p) = p" "search_document_of (product_of_document d) = d"
  by (simp_all add: product_of_document_def search_document_of_def)

text \<open>A struct with one field reads the one member that matches it.\<close>

lemma dec_members_only:
  assumes "only_member kvs k v" and "fld k = Some d" and "\<And>k'. k' \<noteq> k \<Longrightarrow> fld k' = None"
  shows "dec_members fld kvs a = d v a"
proof -
  have none: "filter (\<lambda>(k', _). fold_name k' = k) kvs = [] \<Longrightarrow> dec_members fld kvs a = Some a" for kvs a
    by (induction kvs) (auto simp: assms(3) split: if_splits)
  show ?thesis
    using assms(1) unfolding only_member_def
    by (induction kvs) (auto simp: assms(2,3) none split: if_splits option.splits)
qed

lemma dec_source:
  assumes "is_hit docs i h"
  obtains src where "docs i = Some src" and "dec_struct hit_fields h a = dec_struct document_fields src a"
proof (cases h)
  case (JObj kvs)
  with assms obtain src where only: "only_member kvs ''_source'' src" and src: "docs i = Some src" by auto
  have "dec_struct hit_fields h a = dec_struct document_fields src a"
    unfolding JObj dec_struct.simps by (rule dec_members_only [OF only]) (simp_all add: hit_fields_def)
  with src show thesis by (rule that)
qed (use assms in auto)

text \<open>
  \<open>docs_show docs view\<close>: every document is a product's, stored under the product's identifier;
  \<open>view\<close> maps the identifiers to these products.
\<close>

definition docs_show :: "(string \<rightharpoonup> json) \<Rightarrow> (string \<rightharpoonup> catalog_product) \<Rightarrow> bool" where
  "docs_show docs view \<longleftrightarrow> (\<forall>i. case docs i of
       None \<Rightarrow> view i = None
     | Some src \<Rightarrow> \<exists>p. view i = Some p \<and> cp_id p = i \<and> document_json (search_document_of p) = Inr src)"

lemma docs_show_empty [simp]: "docs_show Map.empty Map.empty"
  by (simp add: docs_show_def)

lemma docs_show_insert:
  assumes "docs_show docs view" and "document_json (search_document_of p) = Inr src"
  shows "docs_show (docs(cp_id p \<mapsto> src)) (view(cp_id p \<mapsto> p))"
  unfolding docs_show_def
proof
  fix i
  show "case (docs(cp_id p \<mapsto> src)) i of None \<Rightarrow> (view(cp_id p \<mapsto> p)) i = None
    | Some src' \<Rightarrow> \<exists>q. (view(cp_id p \<mapsto> p)) i = Some q \<and> cp_id q = i \<and> document_json (search_document_of q) = Inr src'"
    using assms(2) assms(1) [unfolded docs_show_def, THEN spec, of i]
    by (cases "i = cp_id p"; cases "docs i") auto
qed

definition document_view :: "(string \<rightharpoonup> json) \<Rightarrow> string \<rightharpoonup> catalog_product" where
  "document_view docs i = (case docs i of
       None \<Rightarrow> None
     | Some src \<Rightarrow> map_option product_of_document (dec_struct document_fields src zero_document))"

lemma docs_show_view:
  assumes "docs_show docs view" shows "document_view docs = view"
proof
  fix i
  show "document_view docs i = view i"
    using assms unfolding docs_show_def document_view_def
    by (cases "docs i") (auto dest!: spec [of _ i] dec_document_json)
qed

lemma decode_hits_shown:
  assumes "lists_hits docs n b" and "docs_show docs view" and "decode_hits b = Some ds"
  shows "distinct (map sd_id ds) \<and> int (length ds) \<le> n
    \<and> (\<forall>d \<in> set ds. view (sd_id d) = Some (product_of_document d))"
proof -
  from assms(1) obtain kvs hkvs hs ids where b: "b = Doc (JObj kvs)" and kvs: "only_member kvs ''hits'' (JObj hkvs)"
    and hkvs: "only_member hkvs ''hits'' (JArr hs)" and ids: "distinct ids" "list_all2 (is_hit docs) ids hs"
    and n: "int (length hs) \<le> n" by (auto simp: lists_hits_def)
  have outer: "dec_members response_fields kvs ([], []) = dec_struct hits_fields (JObj hkvs) ([], [])"
    by (rule dec_members_only [OF kvs]) (simp_all add: response_fields_def)
  have inner: "dec_members hits_fields hkvs ([], []) = dec_slice zero_document (dec_struct hit_fields) (JArr hs) ([], [])"
    by (rule dec_members_only [OF hkvs]) (simp_all add: hits_fields_def)
  have elems: "list_all2 (is_hit docs) ids hs \<Longrightarrow> dec_elems zero_document (dec_struct hit_fields) hs [] = Some ds \<Longrightarrow>
      map sd_id ds = ids \<and> length ds = length hs \<and> (\<forall>d \<in> set ds. view (sd_id d) = Some (product_of_document d))" for ids hs ds
  proof (induction arbitrary: ds rule: list_all2_induct)
    case Nil
    then show ?case by simp
  next
    case (Cons i ids h hs)
    obtain src where src: "docs i = Some src"
      and dec: "dec_struct hit_fields h zero_document = dec_struct document_fields src zero_document"
      using Cons.hyps(1) by (rule dec_source)
    from assms(2) src obtain p where p: "view i = Some p" "cp_id p = i" "document_json (search_document_of p) = Inr src"
      by (auto simp: docs_show_def dest!: spec [of _ i])
    have "dec_struct hit_fields h zero_document = Some (search_document_of p)"
      using dec_document_json [OF p(3)] dec by simp
    with Cons.prems obtain ds' where "dec_elems zero_document (dec_struct hit_fields) hs [] = Some ds'"
      and "ds = search_document_of p # ds'" by auto
    with Cons.IH [of ds'] p show ?case by (simp add: search_document_of_def product_of_document_def)
  qed
  have "dec_elems zero_document (dec_struct hit_fields) hs [] = Some ds"
    using assms(3) outer inner by (auto simp: decode_hits_def b split: option.splits)
  from elems [OF ids(2) this] ids(1) n show ?thesis by simp
qed

section \<open>The interface of the search store\<close>

text \<open>
  \<open>port.ProductSearchRepository\<close>, over the products the index shows: an accepted \<open>Index\<close>
  puts the product in, and \<open>Search\<close> answers at most \<open>bound\<close> different products of the index.
\<close>

locale product_search =
  fixes invar :: "'s \<Rightarrow> bool"
    and view :: "'s \<Rightarrow> string \<rightharpoonup> catalog_product"
    and index :: "catalog_product \<Rightarrow> 's act"
    and search :: "'s \<Rightarrow> string \<Rightarrow> err + catalog_product list"
    and bound :: int
  assumes index_effect: "invar s \<Longrightarrow> index p s = (e, s') \<Longrightarrow>
      invar s' \<and> (view s' = (view s)(cp_id p \<mapsto> p) \<or> e \<noteq> None \<and> view s' = view s)"
    and search_sound: "invar s \<Longrightarrow> search s t = Inr ps \<Longrightarrow>
      distinct (map cp_id ps) \<and> int (length ps) \<le> bound \<and> (\<forall>p \<in> set ps. view s (cp_id p) = Some p)"
begin

lemma index_message_cases [consumes 2, case_names malformed indexed requeued]:
  assumes "invar s"
    and "product_event_handleMessage B (\<lambda>_ _ event. indexing_product_Handle index (event_product event)) env d (s, h) = (s', h')"
  obtains "decode_ProductCreated (p_body d) = None" "s' = s" "h' = h @ [NackCall (d_tag d) False False]"
  | event where "decode_ProductCreated (p_body d) = Some event" "invar s'" "h' = h @ [AckCall (d_tag d) False]"
      "view s' = (view s)(pe_product_id event \<mapsto> event_product event)"
  | event where "decode_ProductCreated (p_body d) = Some event" "invar s'" "h' = h @ [NackCall (d_tag d) False True]"
      "view s' = view s \<or> view s' = (view s)(pe_product_id event \<mapsto> event_product event)"
  using assms(2)
proof (cases rule: product_event_cases)
  case malformed
  then show thesis by (rule that(1))
next
  case (failed event e)
  from index_effect [OF assms(1) failed(2) [unfolded indexing_product_Handle_def]] failed(1,3)
  show thesis by (intro that(3)) (auto simp: event_product_def)
next
  case (handled event)
  from index_effect [OF assms(1) handled(2) [unfolded indexing_product_Handle_def]] handled(1,3)
  show thesis by (intro that(2)) (auto simp: event_product_def)
qed

lemma search_answer:
  assumes "invar s" and "searching_products_Handle search s q = Inr ps"
  shows "TrimSpace q \<noteq> [] \<and> distinct (map cp_id ps) \<and> int (length ps) \<le> bound
    \<and> (\<forall>p \<in> set ps. view s (cp_id p) = Some p)"
  using assms(2) search_sound [OF assms(1)]
  by (auto simp: searching_products_Handle_def Let_def split: if_splits)

end

text \<open>The documents of the index are products' documents when only \<open>Index\<close> has written them.\<close>

definition search_view :: "'s es \<Rightarrow> string \<Rightarrow> 's \<Rightarrow> string \<rightharpoonup> catalog_product" where
  "search_view E index s = document_view (es_docs E s index)"

definition search_ok :: "'s es \<Rightarrow> string \<Rightarrow> 's \<Rightarrow> bool" where
  "search_ok E index s \<longleftrightarrow> es_laws E \<and> docs_show (es_docs E s index) (search_view E index s)"

lemma es_index_cases:
  assumes "es_laws E" and "es_index E s index i doc refresh = (r, s')"
  shows "es_docs E s' = (es_docs E s)(index := (es_docs E s index)(i \<mapsto> doc)) \<or> \<not> accepted r \<and> es_docs E s' = es_docs E s"
  using assms unfolding es_laws_def by blast

lemma search_Index_effect:
  assumes "search_ok E index s" and "search_Index E index p s = (e, s')"
  shows "search_ok E index s' \<and>
    (search_view E index s' = (search_view E index s)(cp_id p \<mapsto> p) \<or> e \<noteq> None \<and> search_view E index s' = search_view E index s)"
proof (cases "document_json (search_document_of p)")
  case (Inl x)
  then show ?thesis using assms by (auto simp: search_Index_def)
next
  case (Inr payload)
  have laws: "es_laws E" and shown: "docs_show (es_docs E s index) (search_view E index s)"
    using assms(1) by (simp_all add: search_ok_def)
  obtain r where run: "es_index E s index (cp_id p) payload ''wait_for'' = (r, s')" and e: "\<not> accepted r \<Longrightarrow> e \<noteq> None"
    using assms(2) Inr by (auto simp: search_Index_def split: sum.splits prod.splits if_splits)
  from es_index_cases [OF laws run] show ?thesis
  proof
    assume "es_docs E s' = (es_docs E s)(index := (es_docs E s index)(cp_id p \<mapsto> payload))"
    then have docs: "es_docs E s' index = (es_docs E s index)(cp_id p \<mapsto> payload)" by simp
    from docs_show_insert [OF shown Inr]
    have shown': "docs_show (es_docs E s' index) ((search_view E index s)(cp_id p \<mapsto> p))" by (simp add: docs)
    from docs_show_view [OF this] have "search_view E index s' = (search_view E index s)(cp_id p \<mapsto> p)"
      by (simp add: search_view_def)
    then show ?thesis using shown' laws by (simp add: search_ok_def)
  next
    assume "\<not> accepted r \<and> es_docs E s' = es_docs E s"
    then show ?thesis using e assms(1) by (simp add: search_ok_def search_view_def)
  qed
qed

interpretation es: product_search "search_ok E index" "search_view E index" "search_Index E index" "search_Search E index" 50
  for E :: "'s es" and index :: string
proof (unfold_locales, goal_cases)
  case (1 s p e s')
  then show ?case by (rule search_Index_effect)
next
  case (2 s t ps)
  have laws: "es_laws E" and shown: "docs_show (es_docs E s index) (search_view E index s)"
    using 2(1) by (simp_all add: search_ok_def)
  from 2(2) obtain r ds where run: "es_search E s index (search_query t) 50 = Inr r" and r: "\<not> er_is_error r"
    and ds: "decode_hits (er_body r) = Some ds" and ps: "ps = map product_of_document ds"
    by (auto simp: search_Search_def split: sum.splits if_splits option.splits)
  have "lists_hits (es_docs E s index) 50 (er_body r)" using laws run r unfolding es_laws_def by blast
  from decode_hits_shown [OF this shown ds] show ?case
    by (simp add: ps product_of_document_def comp_def)
qed

end
