(* ===== verification/Catalog_Views.thy ===== *)
theory Catalog_Views
  imports Catalog_Search
begin

text \<open>
  The two projections of the product events side by side: the projection consumer keeps the read
  model, the index consumer keeps the search index, each from its own queue, in its own order
  and with its own failures.
\<close>

section \<open>Views of a set of products\<close>

text \<open>
  \<open>holds_products E P v\<close>: the view shows only products of \<open>E\<close>, each under its identifier, and
  every product of \<open>P\<close>.
\<close>

definition holds_products :: "catalog_product set \<Rightarrow> catalog_product set \<Rightarrow> (string \<rightharpoonup> catalog_product) \<Rightarrow> bool" where
  "holds_products E P v \<longleftrightarrow> (\<forall>i p. v i = Some p \<longrightarrow> p \<in> E \<and> cp_id p = i) \<and> (\<forall>p \<in> P. v (cp_id p) = Some p)"

lemma holds_products_empty [simp]: "holds_products E {} Map.empty"
  by (simp add: holds_products_def)

lemma holds_products_upd:
  assumes "inj_on cp_id E" and "holds_products E P v" and "P \<subseteq> E" and "p \<in> E"
  shows "holds_products E (insert p P) (v(cp_id p \<mapsto> p))"
proof -
  have same: "cp_id q = cp_id p \<Longrightarrow> q \<in> E \<Longrightarrow> q = p" for q using inj_onD [OF assms(1) _ _ assms(4)] .
  have "(v(cp_id p \<mapsto> p)) i = Some q \<Longrightarrow> q \<in> E \<and> cp_id q = i" for i q
    using assms(2,4) unfolding holds_products_def by (cases "i = cp_id p") auto
  moreover have "(v(cp_id p \<mapsto> p)) (cp_id q) = Some q" if "q \<in> insert p P" for q
  proof (cases "cp_id q = cp_id p")
    case True
    moreover have "q \<in> E" using that assms(3,4) by blast
    ultimately show ?thesis using same [of q] by simp
  next
    case False
    then have "q \<in> P" using that by blast
    then have "v (cp_id q) = Some q" using assms(2) unfolding holds_products_def by blast
    then show ?thesis using False by simp
  qed
  ultimately show ?thesis unfolding holds_products_def by blast
qed

lemma holds_products_same: "holds_products E (insert p P) v \<Longrightarrow> holds_products E P v"
  by (simp add: holds_products_def)

lemma holds_products_all: "holds_products E E v \<Longrightarrow> v i = Some p \<longleftrightarrow> p \<in> E \<and> cp_id p = i"
  unfolding holds_products_def by blast

lemma holds_products_eq:
  assumes "holds_products E E v" and "holds_products E E w"
  shows "v = w"
proof
  fix i
  have iff: "v i = Some p \<longleftrightarrow> w i = Some p" for p
    unfolding holds_products_all [OF assms(1)] holds_products_all [OF assms(2)] ..
  show "v i = w i"
  proof (cases "v i")
    case None
    then have "w i \<noteq> Some p" for p using iff [of p] by simp
    with None show ?thesis by (metis not_None_eq)
  next
    case (Some p)
    with iff [of p] show ?thesis by simp
  qed
qed

section \<open>The system\<close>

text \<open>
  \<open>Ev\<close> is the set of events the queues deliver, each any number of times. \<open>A\<close> collects the
  events whose delivery the index consumer has acknowledged.
\<close>

definition delivers :: "ProductCreatedEvent set \<Rightarrow> delivery \<Rightarrow> bool" where
  "delivers Ev d \<longleftrightarrow> set_option (decode_ProductCreated (p_body d)) \<subseteq> Ev"

inductive views_step ::
  "'s read_db \<Rightarrow> 't es \<Rightarrow> string \<Rightarrow> amqp \<Rightarrow> ProductCreatedEvent set
   \<Rightarrow> 's \<times> 't \<times> ProductCreatedEvent set \<Rightarrow> 's \<times> 't \<times> ProductCreatedEvent set \<Rightarrow> bool" for D E index B Ev where
  project: "productCreated_handleMessage D B now d (s, h) = (s', h') \<Longrightarrow> delivers Ev d
    \<Longrightarrow> views_step D E index B Ev (s, t, A) (s', t, A)"
| feed: "productSearchIndex_handleMessage E index B d (t, h) = (t', h @ cs) \<Longrightarrow> delivers Ev d
    \<Longrightarrow> A' = (if single_ack (d_tag d) cs then A \<union> set_option (decode_ProductCreated (p_body d)) else A)
    \<Longrightarrow> views_step D E index B Ev (s, t, A) (s, t', A')"
| query: "catalog_GetProducts D s = (r, s') \<Longrightarrow> views_step D E index B Ev (s, t, A) (s', t, A)"

abbreviation products_of :: "ProductCreatedEvent set \<Rightarrow> catalog_product set" where
  "products_of Ev \<equiv> event_product ` Ev"

definition projected :: "'s read_db \<Rightarrow> ProductCreatedEvent set \<Rightarrow> 's \<Rightarrow> ProductCreatedEvent set" where
  "projected D Ev s = {e \<in> Ev. pe_message_id e \<in> inbox_handled (rb_inbox D) s}"

definition views_ok ::
  "'s read_db \<Rightarrow> 't es \<Rightarrow> string \<Rightarrow> ProductCreatedEvent set \<Rightarrow> 's \<times> 't \<times> ProductCreatedEvent set \<Rightarrow> bool" where
  "views_ok D E index Ev x = (case x of (s, t, A) \<Rightarrow>
     holds_products (products_of Ev) (products_of (projected D Ev s)) (read_model D s) \<and>
     search_ok E index t \<and> A \<subseteq> Ev \<and> holds_products (products_of Ev) (products_of A) (search_view E index t))"

lemma inj_on_products: "inj_on pe_product_id Ev \<Longrightarrow> inj_on cp_id (products_of Ev)"
  by (auto simp: inj_on_def event_product_def)

lemma cp_id_event_product [simp]: "cp_id (event_product e) = pe_product_id e"
  by (simp add: event_product_def)

lemma projected_insert:
  assumes "inj_on pe_message_id Ev" and "e \<in> Ev"
    and "inbox_handled (rb_inbox D) s' = insert (pe_message_id e) (inbox_handled (rb_inbox D) s)"
  shows "projected D Ev s' = insert e (projected D Ev s)"
  using assms by (auto simp: projected_def dest: inj_onD)

lemma project_step:
  assumes laws: "read_db_laws D" and inj: "inj_on pe_product_id Ev" "inj_on pe_message_id Ev"
    and run: "productCreated_handleMessage D B now d (s, h) = (s', h')" and d: "delivers Ev d"
    and ok: "holds_products (products_of Ev) (products_of (projected D Ev s)) (read_model D s)"
  shows "holds_products (products_of Ev) (products_of (projected D Ev s')) (read_model D s')"
proof -
  have handled: ?thesis if ev: "e \<in> Ev"
    and att: "catalog_HandleProductCreated D now (event_command b e) s = (r, s')" for b e r
  proof -
    have c: "cc_message_id (event_command b e) = pe_message_id e" "cc_product (event_command b e) = event_product e"
      by (simp_all add: event_command_def)
    have sub: "products_of (projected D Ev s) \<subseteq> products_of Ev" by (auto simp: projected_def)
    note upd = holds_products_upd [OF inj_on_products [OF inj(1)] ok sub imageI [OF ev]]
    from laws att [unfolded catalog_HandleProductCreated_def] show ?thesis
    proof (cases rule: catalog.created_cases)
      case interrupted
      then have "projected D Ev s' = projected D Ev s" by (simp add: projected_def)
      with interrupted(5) show ?thesis using ok holds_products_same [OF upd] by (auto simp: c)
    next
      case applied
      have "projected D Ev s' = insert e (projected D Ev s) \<or> projected D Ev s' = projected D Ev s"
        using applied(5)
      proof
        assume "inbox_handled (rb_inbox D) s' = insert (cc_message_id (event_command b e)) (inbox_handled (rb_inbox D) s)"
        then have "inbox_handled (rb_inbox D) s' = insert (pe_message_id e) (inbox_handled (rb_inbox D) s)" by (simp only: c)
        from projected_insert [OF inj(2) ev this] show ?thesis ..
      qed (simp add: projected_def)
      with applied(4) show ?thesis using upd holds_products_same [OF upd] by (auto simp: c)
    qed (use ok in simp_all)
  qed
  from run [unfolded productCreated_handleMessage_def] show ?thesis
    by (cases rule: product_event_cases) (use ok d handled in \<open>auto simp: delivers_def\<close>)
qed

lemma feed_step:
  assumes inj: "inj_on pe_product_id Ev" and search: "search_ok E index t"
    and run: "productSearchIndex_handleMessage E index B d (t, h) = (t', h @ cs)" and d: "delivers Ev d"
    and ok: "A \<subseteq> Ev" "holds_products (products_of Ev) (products_of A) (search_view E index t)"
    and A': "A' = (if single_ack (d_tag d) cs then A \<union> set_option (decode_ProductCreated (p_body d)) else A)"
  shows "search_ok E index t' \<and> A' \<subseteq> Ev \<and> holds_products (products_of Ev) (products_of A') (search_view E index t')"
proof -
  have upd: "holds_products (products_of Ev) (insert (event_product e) (products_of A))
      ((search_view E index t)(pe_product_id e \<mapsto> event_product e))" if "e \<in> Ev" for e
    using holds_products_upd [OF inj_on_products [OF inj] ok(2) image_mono [OF ok(1)] imageI [OF that]] by simp
  from search run [unfolded productSearchIndex_handleMessage_def] show ?thesis
  proof (cases rule: es.index_message_cases)
    case malformed
    then show ?thesis using ok search by (simp add: A')
  next
    case (indexed e)
    then have "e \<in> Ev" "cs = [AckCall (d_tag d) False]" using d by (simp_all add: delivers_def)
    with indexed upd [OF this(1)] ok(1) show ?thesis by (simp add: A' single_ack_iff)
  next
    case (requeued e)
    then have "e \<in> Ev" "cs = [NackCall (d_tag d) False True]" using d by (simp_all add: delivers_def)
    with requeued holds_products_same [OF upd [OF this(1)]] ok show ?thesis by (auto simp: A')
  qed
qed

lemma views_step_ok:
  assumes "read_db_laws D" and "inj_on pe_product_id Ev" and "inj_on pe_message_id Ev"
    and "views_step D E index B Ev x y" and "views_ok D E index Ev x"
  shows "views_ok D E index Ev y"
  using assms(4)
proof cases
  case (project now d s h s' h' t A)
  from project_step [OF assms(1-3) project(3,4)] assms(5) show ?thesis
    by (simp add: project(1,2) views_ok_def)
next
  case (feed d t h t' cs A' A s)
  from feed_step [OF assms(2) _ feed(3,4) _ _ feed(5)] assms(5) show ?thesis
    by (simp add: feed(1,2) views_ok_def)
next
  case (query s r s' t A)
  have "read_model D s' = read_model D s \<and> inbox_handled (rb_inbox D) s' = inbox_handled (rb_inbox D) s"
    using assms(1) query(3) [unfolded catalog_GetProducts_def] by (cases rule: catalog.get_cases) auto
  then show ?thesis using assms(5) by (simp add: query(1,2) views_ok_def projected_def)
qed

lemma views_steps_ok:
  assumes "read_db_laws D" and "inj_on pe_product_id Ev" and "inj_on pe_message_id Ev"
    and "(views_step D E index B Ev)\<^sup>*\<^sup>* x y" and "views_ok D E index Ev x"
  shows "views_ok D E index Ev y"
  using assms(4,5) by (induction rule: rtranclp_induct) (auto intro: views_step_ok [OF assms(1-3)])

text \<open>Both sides start empty.\<close>

definition views_start :: "'s read_db \<Rightarrow> 't es \<Rightarrow> string \<Rightarrow> 's \<Rightarrow> 't \<Rightarrow> bool" where
  "views_start D E index s t \<longleftrightarrow> read_db_laws D \<and> es_laws E \<and> read_model D s = Map.empty
     \<and> inbox_handled (rb_inbox D) s = {} \<and> es_docs E t index = Map.empty"

lemma views_start_ok:
  assumes "views_start D E index s t"
  shows "views_ok D E index Ev (s, t, {})"
proof -
  have "search_view E index t = Map.empty"
    using assms docs_show_view [OF docs_show_empty] by (simp add: search_view_def views_start_def)
  then show ?thesis using assms by (simp add: views_ok_def views_start_def projected_def search_ok_def)
qed

end
