(* ===== verification/Catalog_Reference.thy ===== *)
theory Catalog_Reference
  imports Catalog_Read_Service Gorm_Reference
begin

text \<open>
  Reference stores of the catalog, which satisfy the laws and compute: the write side's tables
  by \<open>Gorm_Reference\<close>, and the read side's collections and cache as lists and a map.
\<close>

section \<open>The write side\<close>

record catalog_store =
  cs_products :: "product_row list"
  cs_outbox :: "outbox_row list"

definition ref_catalog_db :: "catalog_store catalog_db" where
  "ref_catalog_db =
     \<lparr>ct_products = ref_gorm product_schema cs_products (\<lambda>l s. s\<lparr>cs_products := l\<rparr>),
      ct_outbox = ref_gorm outbox_schema cs_outbox (\<lambda>l s. s\<lparr>cs_outbox := l\<rparr>),
      ct_tx = ref_tx\<rparr>"

lemma ref_catalog_db_laws: "catalog_db_laws ref_catalog_db"
  by (simp add: catalog_db_laws_def ref_catalog_db_def ref_gorm_laws ref_gorm_frame ref_tx_laws
      outbox_laws_def outbox_columns_def product_columns_def same_catalog_rows_def)
    (simp add: ref_gorm_def)

section \<open>The read side\<close>

record read_store =
  rst_products :: "product_model list"
  rst_inbox :: "mongo_inbox list"
  rst_unique :: bool
  rst_redis :: "string \<rightharpoonup> body"

definition ref_read_db :: "read_store read_db" where
  "ref_read_db =
     \<lparr>rb_products =
        \<lparr>pc_docs = (\<lambda>s. map_of (map (\<lambda>m. (pm_id m, m)) (rst_products s))),
         pc_replace_one = (\<lambda>s i m. (None, s\<lparr>rst_products := m # filter (\<lambda>x. pm_id x \<noteq> i) (rst_products s)\<rparr>)),
         pc_find = (\<lambda>s. if distinct (map pm_id (rst_products s)) then Inr (rst_products s)
           else Inl (Ext ''duplicate key''))\<rparr>,
      rb_inbox =
        \<lparr>ic_docs = rst_inbox, ic_unique = rst_unique,
         ic_create_index = (\<lambda>s. if distinct (map mi_message_id (rst_inbox s)) then (None, s\<lparr>rst_unique := True\<rparr>)
           else (Some (Ext ''duplicate key''), s)),
         ic_count = (\<lambda>s m. Inr (int (length (filter (\<lambda>d. mi_message_id d = m) (rst_inbox s))))),
         ic_insert_one = (\<lambda>s d. if rst_unique s \<and> mi_message_id d \<in> set (map mi_message_id (rst_inbox s))
           then (Some (Ext ''duplicate key''), s) else (None, s\<lparr>rst_inbox := d # rst_inbox s\<rparr>))\<rparr>,
      rb_redis =
        \<lparr>rd_values = rst_redis,
         rd_get = (\<lambda>s k. case rst_redis s k of None \<Rightarrow> Inl redis_Nil | Some v \<Rightarrow> Inr v),
         rd_set = (\<lambda>s k v ttl. (None, s\<lparr>rst_redis := (rst_redis s)(k \<mapsto> v)\<rparr>)),
         rd_del = (\<lambda>s k. (None, s\<lparr>rst_redis := (rst_redis s)(k := None)\<rparr>))\<rparr>\<rparr>"

lemma map_of_replace:
  "map_of (map (\<lambda>m. (key m, m)) (filter (\<lambda>x. key x \<noteq> i) l)) k
     = (if k = i then None else map_of (map (\<lambda>m. (key m, m)) l) k)"
  by (induction l) auto

lemma map_of_key: "map_of (map (\<lambda>m. (key m, m)) l) k = Some m \<Longrightarrow> key m = k"
  by (induction l) (auto split: if_splits)

lemma lists_rows_distinct:
  assumes "distinct (map key l)"
  shows "lists_rows (map_of (map (\<lambda>m. (key m, m)) l)) (\<lambda>_. True) l"
proof -
  have "m \<in> set l \<Longrightarrow> map_of (map (\<lambda>m. (key m, m)) l) (key m) = Some m" for m
    using assms by (induction l) (auto simp: rev_image_eqI)
  then have all: "map (the \<circ> map_of (map (\<lambda>m. (key m, m)) l)) (map key l) = l" by (auto intro: map_idI)
  have "set (map key l) = {k. \<exists>r. map_of (map (\<lambda>m. (key m, m)) l) k = Some r \<and> True}"
    by (induction l) auto
  with assms all show ?thesis unfolding lists_rows_def by (intro exI [of _ "map key l"]) simp
qed

lemma ref_product_laws: "product_collection_laws (rb_products ref_read_db)"
  unfolding product_collection_laws_def
  by (auto simp: ref_read_db_def map_of_replace fun_eq_iff dest: map_of_key split: if_splits
      intro: lists_rows_distinct)

lemma ref_inbox_laws: "inbox_collection_laws (rb_inbox ref_read_db)"
  by (auto simp: inbox_collection_laws_def inbox_handled_def ref_read_db_def split: if_splits)

lemma ref_redis_laws: "redis_laws (rb_redis ref_read_db)"
  by (auto simp: redis_laws_def ref_read_db_def split: option.splits)

lemma ref_read_db_laws: "read_db_laws ref_read_db"
  unfolding read_db_laws_def using ref_product_laws ref_inbox_laws ref_redis_laws
  by (simp add: ref_read_db_def)

definition empty_read :: read_store where
  "empty_read = \<lparr>rst_products = [], rst_inbox = [], rst_unique = True, rst_redis = Map.empty\<rparr>"

end
