(* ===== verification/Catalog_Properties.thy ===== *)
theory Catalog_Properties
  imports Catalog_Reference Amqp_Reference
begin

text \<open>
  The properties of the catalog's write and read sides, with witnesses on the reference stores.
\<close>

declare fold_name.simps [simp del]

section \<open>Creating a product\<close>

definition counted :: "nat \<Rightarrow> uuid" where "counted i = (if i = 0 then 10 else if i = 1 then 11 else 12)"

lemma counted_nonzero: "\<forall>i. counted i \<noteq> 0"
  by (simp add: counted_def)

definition no_products :: catalog_store where
  "no_products = \<lparr>cs_products = [], cs_outbox = []\<rparr>"

definition product_run :: "(err + proto_product) \<times> catalog_store" where
  "product_run = catalog_CreateProduct ref_catalog_db ref_ustr counted 0 0 no_products '' pen '' ''blue'' (Fin 3)"

lemma product_run_eq:
  "catalog_CreateProduct ref_catalog_db ref_ustr counted 0 0 no_products '' pen '' ''blue'' (Fin 3)
     = (fst product_run, snd product_run)"
  by (simp add: product_run_def)

text \<open>
  C24: A call of CreateProduct has one of three outcomes. A product whose name is blank, or whose
  price is negative or not a number, is refused and nothing changes. Otherwise one transaction
  stores the product, ACTIVE and under its trimmed name, together with one event that announces
  it; or nothing is stored. Every failure, also one of the database, is reported to the caller as
  InvalidArgument.
\<close>

theorem create_product_atomic:
  assumes "catalog_db_laws D" and "\<forall>i. new i \<noteq> 0"
    and "catalog_CreateProduct D ustr new now1 now2 s name description price = (res, s')"
  shows "(\<not> product_ok name price \<and> s' = s \<and> (\<exists>m. res = Inl (Status InvalidArgument m)))
    \<or> (product_ok name price \<and> (\<exists>p b. product_created D s p (product_message (new 2) now2 p b) s'
        \<and> product_payload ustr (new 1) p = Inr b
        \<and> pd_name p = TrimSpace name \<and> pd_description p = description \<and> pd_price p = price
        \<and> pd_status p = PRODUCT_ACTIVE_STATUS
        \<and> (res = Inr \<lparr>pp_id = ustr (pd_id p), pp_name = TrimSpace name, pp_description = description, pp_price = price\<rparr>
           \<or> (\<exists>m. res = Inl (Status InvalidArgument m)))))
    \<or> (product_ok name price \<and> same_catalog_rows D s s' \<and> (\<exists>m. res = Inl (Status InvalidArgument m)))"
proof -
  obtain r where run: "service_CreateProduct ustr (product_CreateWithOutbox D) new now1 now2 s name description price = (r, s')"
    and res: "res = (case r of Inl err \<Rightarrow> Inl (Status InvalidArgument (err_text err))
      | Inr p \<Rightarrow> Inr \<lparr>pp_id = ustr (pd_id p), pp_name = pd_name p, pp_description = pd_description p, pp_price = pd_price p\<rparr>)"
    using assms(3) by (auto simp: catalog_CreateProduct_def server_CreateProduct_def split: prod.splits sum.splits)
  from assms(1,2) run show ?thesis
  proof (cases rule: CreateProduct_cases)
    case (refused e)
    then show ?thesis using res by simp
  next
    case (created p b)
    have "pd_name p = TrimSpace name" "pd_description p = description" "pd_price p = price"
      "pd_status p = PRODUCT_ACTIVE_STATUS"
      using created(2) by (auto simp: NewProduct_def Let_def split: if_splits)
    moreover have "res = Inr \<lparr>pp_id = ustr (pd_id p), pp_name = TrimSpace name, pp_description = description, pp_price = price\<rparr>
        \<or> (\<exists>m. res = Inl (Status InvalidArgument m))"
      using created(5) res calculation by auto
    ultimately show ?thesis using created(1,3,4) by blast
  next
    case (unchanged e)
    then show ?thesis using res by simp
  qed
qed

lemma single_product:
  assumes "map pr_name (cs_products s) = [n]"
  shows "\<not> same_catalog_rows ref_catalog_db no_products s"
  using assms
  by (auto simp: same_catalog_rows_def ref_catalog_db_def ref_gorm_def no_products_def map_eq_Cons_conv fun_eq_iff)

theorem create_product_atomic_witness:
  "product_ok '' pen '' (Fin 3) \<and> map pr_name (cs_products (snd product_run)) = [''pen''] \<and>
   (\<exists>p b. product_created ref_catalog_db no_products p (product_message 12 0 p b) (snd product_run))"
proof -
  have n: "map pr_name (cs_products (snd product_run)) = [''pen'']" by code_simp
  have ok: "product_ok '' pen '' (Fin 3)" by code_simp
  then show ?thesis
    using create_product_atomic [OF ref_catalog_db_laws counted_nonzero product_run_eq] single_product [OF n] n
    by (auto simp: counted_def)
qed

text \<open>
  C25: What the write side announces is what the read side projects. The event stored with a
  product, after the JSONB column, is decoded by the read side's consumers to the event's own
  message id and the product's identifier, name, description, price and status (a price of
  minus zero has lost its sign).
\<close>

theorem product_event_read_back:
  assumes "catalog_db_laws D" and "product_payload ustr m p = Inr w"
    and "product_created D s p (product_message i now p w) s'"
  shows "\<exists>b price. outbox_content (ct_outbox D) s' i = Some (''ProductCreated'', b)
    \<and> decode_ProductCreated b = Some \<lparr>pe_message_id = ustr m, pe_product_id = ustr (pd_id p), pe_name = pd_name p,
        pe_description = pd_description p, pe_price = price, pe_status = pd_status p\<rparr>
    \<and> pos_zero price = pos_zero (pd_price p)"
proof -
  let ?r = "toOutboxDataModel (product_message i now p w)"
  have ob: "outbox_laws (ct_outbox D)" using assms(1) by (simp add: catalog_db_laws_def)
  have r: "ob_id ?r = i" "ob_event_type ?r = ''ProductCreated''" "ob_payload ?r = w"
    by (simp_all add: toOutboxDataModel_def product_message_def)
  have "g_rows (ct_outbox D) s' = (g_rows (ct_outbox D) s)(ob_id ?r \<mapsto> g_stored (ct_outbox D) ?r)"
    using assms(3) by (simp add: product_created_def Let_def product_message_def toOutboxDataModel_def)
  from outbox_row_added [OF ob this] r
  have c: "outbox_content (ct_outbox D) s' i = Some (''ProductCreated'', ob_payload (g_stored (ct_outbox D) ?r))"
    and b: "same_body (ob_payload (g_stored (ct_outbox D) ?r)) w" by simp_all
  from product_event_read [OF assms(2) b] c show ?thesis by blast
qed

definition a_product :: product where
  "a_product = \<lparr>pd_id = 10, pd_name = ''pen'', pd_description = ''blue'', pd_price = Fin 3,
     pd_status = PRODUCT_ACTIVE_STATUS, pd_created_at = 0, pd_updated_at = 0\<rparr>"

definition a_payload :: body where
  "a_payload = (case product_payload ref_ustr 11 a_product of Inr b \<Rightarrow> b | Inl e \<Rightarrow> NotJson [])"

definition store_run :: "err option \<times> catalog_store" where
  "store_run = product_CreateWithOutbox ref_catalog_db no_products a_product (product_message 12 0 a_product a_payload)"

theorem product_event_read_back_witness:
  "\<exists>b price. outbox_content (ct_outbox ref_catalog_db) (snd store_run) 12 = Some (''ProductCreated'', b)
    \<and> map_option pe_name (decode_ProductCreated b) = Some ''pen'' \<and> pos_zero price = Fin 3"
proof -
  have ok: "fst store_run = None" by code_simp
  have pay: "product_payload ref_ustr 11 a_product = Inr a_payload"
    by (simp add: a_payload_def product_payload_def a_product_def)
  have run: "product_CreateWithOutbox ref_catalog_db no_products a_product (product_message 12 0 a_product a_payload)
      = (None, snd store_run)" using ok by (simp add: store_run_def prod_eq_iff)
  have "pd_id a_product \<noteq> 0" "om_id (product_message 12 0 a_product a_payload) \<noteq> 0"
    by (simp_all add: a_product_def product_message_def)
  with ref_catalog_db_laws have "product_created ref_catalog_db no_products a_product
      (product_message 12 0 a_product a_payload) (snd store_run)"
    using run by (cases rule: product_CreateWithOutbox_cases) auto
  from product_event_read_back [OF ref_catalog_db_laws pay this] show ?thesis
    by (auto simp: a_product_def)
qed

section \<open>The projection\<close>

text \<open>
  C26: Projecting an event is idempotent and survives failures. Let an event be handled any
  number of times, each attempt failing or not at any of its calls; once an attempt returns no
  error, the read model is the old one with exactly the event's product put in, the cached list
  is gone, and the event is recorded: as one undisturbed attempt would have left it.
\<close>

theorem product_projection_converges:
  assumes "read_db_laws D" and "cc_message_id c \<notin> inbox_handled (rb_inbox D) s"
    and "(\<lambda>u v. \<exists>now e. catalog_HandleProductCreated D now c u = (e, v))\<^sup>*\<^sup>* s s1"
    and "catalog_HandleProductCreated D now c s1 = (None, s')"
  shows "read_model D s' = (read_model D s)(cp_id (cc_product c) \<mapsto> cc_product c)
    \<and> cached_body (rb_redis D) s' = None
    \<and> inbox_handled (rb_inbox D) s' = insert (cc_message_id c) (inbox_handled (rb_inbox D) s)"
  using catalog.created_converges [OF assms(1,2) assms(3,4) [unfolded catalog_HandleProductCreated_def]]
  by (simp add: catalog.created_result_def)

definition pen_event :: created_command where
  "pen_event = \<lparr>cc_message_id = ''m1'', cc_product = \<lparr>cp_id = ''p1'', cp_name = ''pen'', cp_description = ''blue'',
     cp_price = Fin 3, cp_status = ''ACTIVE''\<rparr>, cc_payload = NotJson []\<rparr>"

definition project_run :: "err option \<times> read_store" where
  "project_run = catalog_HandleProductCreated ref_read_db 0 pen_event empty_read"

lemma unseen_m1: "''m1'' \<notin> inbox_handled (rb_inbox ref_read_db) empty_read"
  by (simp add: inbox_handled_def ref_read_db_def empty_read_def)

lemma project_run_ok: "catalog_HandleProductCreated ref_read_db 0 pen_event empty_read = (None, snd project_run)"
proof -
  have "fst project_run = None" by code_simp
  then show ?thesis by (simp add: project_run_def prod_eq_iff)
qed

theorem product_projection_converges_witness:
  "read_model ref_read_db (snd project_run) ''p1'' = Some (cc_product pen_event)"
proof -
  have "cc_message_id pen_event \<notin> inbox_handled (rb_inbox ref_read_db) empty_read"
    using unseen_m1 by (simp add: pen_event_def)
  from product_projection_converges [OF ref_read_db_laws this rtranclp.rtrancl_refl project_run_ok]
  show ?thesis by (simp add: pen_event_def)
qed

section \<open>The cache\<close>

text \<open>
  C27: The cache is transparent once every delivered event has been recorded. Run the read side
  from an empty cache: deliver events and answer queries, one call at a time, in any order and
  repeated, with failures at any call, and let the cached list expire at any time. Whenever the
  inbox records every event delivered so far, a query that returns no error answers exactly the
  products of the read model, each once. The condition is needed: an event whose handling failed
  after its product was stored, with the cached list still there, is not recorded, and until a
  redelivery of it succeeds a query can answer the old list.
\<close>

theorem product_cache_transparent:
  assumes "read_db_laws D" and "cached_body (rb_redis D) s0 = None"
    and "(catalog_step D B)\<^sup>*\<^sup>* (s0, {}) (s, ms)" and "ms \<subseteq> inbox_handled (rb_inbox D) s"
    and "catalog_GetProducts D s = (Inr ps, s')"
  shows "lists_rows (read_model D s) (\<lambda>_. True) ps"
  by (rule catalog.coherent_answer [OF assms(1) catalog_steps_coherent [OF assms(1-4)]
        assms(5) [unfolded catalog_GetProducts_def]])

definition pen_body :: body where
  "pen_body = Doc (JObj [(''message_id'', JStr ''m1''), (''product_id'', JStr ''p1''), (''name'', JStr ''pen''),
     (''description'', JStr ''blue''), (''price'', JNum (Some 3) (Fin 3)), (''status'', JStr ''ACTIVE'')])"

definition pen_created :: ProductCreatedEvent where
  "pen_created = \<lparr>pe_message_id = ''m1'', pe_product_id = ''p1'', pe_name = ''pen'', pe_description = ''blue'',
     pe_price = Fin 3, pe_status = ''ACTIVE''\<rparr>"

lemma decode_pen: "decode_ProductCreated pen_body = Some pen_created"
  by (simp add: pen_body_def pen_created_def decode_ProductCreated_def ProductCreatedEvent_fields_def dec_field_def decode_simps)

text \<open>
  A query caches the empty list; the event of a product is delivered; a query reads and caches the
  list with the product, and the last one is answered from the cache.
\<close>

definition query_run :: "(err + catalog_product list) \<times> read_store" where
  "query_run = catalog_GetProducts ref_read_db empty_read"

definition delivered_run :: "read_store \<times> chan" where
  "delivered_run = productCreated_handleMessage ref_read_db ok_broker 0 (delivery_of 1 pen_body) (snd query_run, [])"

definition query_again :: "(err + catalog_product list) \<times> read_store" where
  "query_again = catalog_GetProducts ref_read_db (fst delivered_run)"

definition query_cached :: "(err + catalog_product list) \<times> read_store" where
  "query_cached = catalog_GetProducts ref_read_db (snd query_again)"

lemma catalog_run:
  "(catalog_step ref_read_db ok_broker)\<^sup>*\<^sup>* (empty_read, {}) (snd query_again, {''m1''})"
proof -
  have "catalog_GetProducts ref_read_db empty_read = (fst query_run, snd query_run)" by (simp add: query_run_def)
  then have first: "catalog_step ref_read_db ok_broker (empty_read, {}) (snd query_run, {})" by (rule catalog_step.query)
  have m1: "event_id (delivery_of 1 pen_body) = {''m1''}"
    by (simp add: event_id_def delivery_of_def decode_pen) (simp add: pen_created_def)
  have "productCreated_handleMessage ref_read_db ok_broker 0 (delivery_of 1 pen_body) (snd query_run, [])
      = (fst delivered_run, snd delivered_run)" by (simp add: delivered_run_def)
  from catalog_step.deliver [OF this, of "{}"]
  have event: "catalog_step ref_read_db ok_broker (snd query_run, {}) (fst delivered_run, {''m1''})"
    unfolding m1 by simp
  have "catalog_GetProducts ref_read_db (fst delivered_run) = (fst query_again, snd query_again)"
    by (simp add: query_again_def)
  then have again: "catalog_step ref_read_db ok_broker (fst delivered_run, {''m1''}) (snd query_again, {''m1''})"
    by (rule catalog_step.query)
  from first event again show ?thesis by (meson r_into_rtranclp rtranclp.rtrancl_into_rtrancl)
qed

theorem product_cache_transparent_witness:
  "cached_body (rb_redis ref_read_db) (snd query_again) \<noteq> None
   \<and> (\<exists>ps. fst query_cached = Inr ps \<and> map cp_name ps = [''pen'']
       \<and> lists_rows (read_model ref_read_db (snd query_again)) (\<lambda>_. True) ps)"
proof -
  have hit: "cached_body (rb_redis ref_read_db) (snd query_again) \<noteq> None"
  proof -
    have "case cached_body (rb_redis ref_read_db) (snd query_again) of Some b \<Rightarrow> True | None \<Rightarrow> False" by code_simp
    then show ?thesis by (auto split: option.splits)
  qed
  have "case fst query_cached of Inr ps \<Rightarrow> map cp_name ps = [''pen''] | Inl e \<Rightarrow> False" by code_simp
  then obtain ps where ps: "fst query_cached = Inr ps" "map cp_name ps = [''pen'']" by (auto split: sum.splits)
  then have run: "catalog_GetProducts ref_read_db (snd query_again) = (Inr ps, snd query_cached)"
    by (simp add: query_cached_def prod_eq_iff)
  have "map mi_message_id (rst_inbox (snd query_again)) = [''m1'']" by code_simp
  then have recorded: "{''m1''} \<subseteq> inbox_handled (rb_inbox ref_read_db) (snd query_again)"
    by (auto simp: inbox_handled_def ref_read_db_def map_eq_Cons_conv)
  have "cached_body (rb_redis ref_read_db) empty_read = None"
    by (simp add: cached_body_def ref_read_db_def empty_read_def)
  from product_cache_transparent [OF ref_read_db_laws this catalog_run recorded run]
  show ?thesis by (intro conjI exI [of _ ps] hit ps)
qed

text \<open>
  C28: The cache is not transparent when a query and an event overlap. Let a query find the cache
  empty and read the products, let an event for a new product then be handled completely, and let
  the query store what it had read. From then on, until the cached list expires or the next
  event, every query that returns no error misses the new product, although the product is in the
  read model and its event has been recorded.
\<close>

theorem product_cache_race:
  assumes "read_db_laws D" and "FindAll (rb_products D) s = Inr ps"
    and "read_model D s (cp_id (cc_product c)) = None"
    and "cc_message_id c \<notin> inbox_handled (rb_inbox D) s"
    and "catalog_HandleProductCreated D now c s = (None, s1)"
    and "SetProducts (rb_redis D) s1 ps = (None, s2)"
    and "catalog_GetProducts D s2 = (Inr qs, s3)"
  shows "qs = ps \<and> cc_product c \<notin> set qs \<and> read_model D s2 (cp_id (cc_product c)) = Some (cc_product c)
    \<and> cc_message_id c \<in> inbox_handled (rb_inbox D) s2"
proof -
  note fin = catalog.created_converges [OF assms(1,4) rtranclp.rtrancl_refl assms(5) [unfolded catalog_HandleProductCreated_def],
      unfolded catalog.created_result_def]
  from catalog.set_effect [OF assms(1,6)] obtain b where
    s2: "cached_body (rb_redis D) s2 = Some b" "unmarshal_products b = Some (Some ps)"
    "read_model D s2 = read_model D s1" "inbox_handled (rb_inbox D) s2 = inbox_handled (rb_inbox D) s1" by auto
  from assms(1) assms(7) [unfolded catalog_GetProducts_def] have "qs = ps"
  proof (cases rule: catalog.get_cases)
    case (loaded qs' b')
    have "rd_get (rb_redis D) s2 productsCacheKey = Inl e \<Longrightarrow> \<not> errors_Is e redis_Nil" for e
      using assms(1) s2(1) unfolding read_db_laws_def redis_laws_def cached_body_def by auto
    then have "GetCachedProducts (rb_redis D) s2 \<noteq> Inr None"
      using s2 assms(1) unfolding GetCachedProducts_def read_db_laws_def redis_laws_def cached_body_def
      by (auto split: sum.splits option.splits)
    then show ?thesis
      using assms(7) s2 catalog.get_cached [OF assms(1), of s2 qs]
      by (auto simp: catalog_GetProducts_def getting_products_Handle_def split: sum.splits option.splits)
  qed (use s2 in auto)
  moreover have "cc_product c \<notin> set ps"
  proof
    assume "cc_product c \<in> set ps"
    then obtain i where i: "read_model D s i = Some (cc_product c)"
      using lists_rows_set [OF catalog.find_lists [OF assms(1,2)]] by (auto simp: ran_def)
    have "product_collection_laws (rb_products D)" using assms(1) by (simp add: read_db_laws_def)
    from catalog_products_id [OF this i [unfolded read_model_def]] i assms(3) show False by simp
  qed
  ultimately show ?thesis using fin s2 by simp
qed

definition overwritten_run :: "err option \<times> read_store" where
  "overwritten_run = SetProducts (rb_redis ref_read_db) (snd project_run) []"

definition stale_run :: "(err + catalog_product list) \<times> read_store" where
  "stale_run = catalog_GetProducts ref_read_db (snd overwritten_run)"

theorem product_cache_race_witness:
  "fst stale_run = Inr [] \<and> read_model ref_read_db (snd overwritten_run) ''p1'' = Some (cc_product pen_event)"
proof -
  have "case fst stale_run of Inr ps \<Rightarrow> length ps = 0 | Inl e \<Rightarrow> False" by code_simp
  then have none_left: "fst stale_run = Inr []" by (auto split: sum.splits)
  then have stale: "catalog_GetProducts ref_read_db (snd overwritten_run) = (Inr [], snd stale_run)"
    by (simp add: stale_run_def prod_eq_iff)
  have "fst overwritten_run = None" by code_simp
  then have set: "SetProducts (rb_redis ref_read_db) (snd project_run) [] = (None, snd overwritten_run)"
    by (simp add: overwritten_run_def prod_eq_iff)
  have found: "FindAll (rb_products ref_read_db) empty_read = Inr []"
    by (simp add: FindAll_def ref_read_db_def empty_read_def)
  have none: "read_model ref_read_db empty_read (cp_id (cc_product pen_event)) = None"
    by (simp add: read_model_def catalog_products_def ref_read_db_def empty_read_def)
  have "cc_message_id pen_event \<notin> inbox_handled (rb_inbox ref_read_db) empty_read"
    using unseen_m1 by (simp add: pen_event_def)
  from product_cache_race [OF ref_read_db_laws found none this project_run_ok set stale]
  have "read_model ref_read_db (snd overwritten_run) ''p1'' = Some (cc_product pen_event)"
    by (simp add: pen_event_def)
  with none_left show ?thesis by simp
qed

end
