(* ===== verification/Catalog_Search_Properties.thy ===== *)
theory Catalog_Search_Properties
  imports Catalog_Views Catalog_Properties
begin

text \<open>
  The properties of the search side, with witnesses on a reference search store.
\<close>

section \<open>A reference search store\<close>

text \<open>One index, named products, as the list of its documents with their identifiers.\<close>

type_synonym index_store = "(string \<times> json) list"

definition ref_hit :: "string \<times> json \<Rightarrow> json" where
  "ref_hit x = JObj [(''_index'', JStr ''products''), (''_id'', JStr (fst x)), (''_source'', snd x)]"

definition ref_response :: "body \<Rightarrow> es_response" where
  "ref_response b = \<lparr>er_code = 200, er_status = ''200 OK'', er_is_error = False, er_close = None, er_text = Inr [], er_body = b\<rparr>"

definition ref_es :: "index_store es" where
  "ref_es =
     \<lparr>es_docs = (\<lambda>s index. if index = ''products'' then map_of s else Map.empty),
      es_exists = (\<lambda>s index. Inr (ref_response (NotJson []))),
      es_create = (\<lambda>s index m. (Inl (Ext ''resource_already_exists_exception''), s)),
      es_index = (\<lambda>s index i doc refresh.
        if index = ''products'' then (Inr (ref_response (NotJson [])), (i, doc) # filter (\<lambda>x. fst x \<noteq> i) s)
        else (Inl (Ext ''index_not_found_exception''), s)),
      es_search = (\<lambda>s index q n.
        if index = ''products'' \<and> distinct (map fst s) \<and> 0 \<le> n
        then Inr (ref_response (Doc (JObj [(''took'', JNum (Some 1) (Fin 1)),
          (''hits'', JObj [(''hits'', JArr (map ref_hit (take (nat n) s)))])])))
        else Inl (Ext ''index_not_found_exception''))\<rparr>"

lemma map_of_filter_fst: "map_of (filter (\<lambda>x. fst x \<noteq> i) l) = (map_of l)(i := None)"
  by (induction l) (auto simp: fun_eq_iff)

lemma fold_hit_names:
  "fold_name ''_index'' = ''_index''" "fold_name ''_id'' = ''_id''" "fold_name ''took'' = ''took''"
  by code_simp+

declare fold_name.simps [simp del]

lemma ref_hits:
  assumes "distinct (map fst s)" and "set l \<subseteq> set s"
  shows "list_all2 (is_hit (map_of s)) (map fst l) (map ref_hit l)"
  using assms(2)
  by (induction l) (auto simp: ref_hit_def only_member_def decode_simps fold_hit_names assms(1) intro: map_of_is_SomeI)

lemma ref_es_laws: "es_laws ref_es"
proof -
  have "lists_hits (map_of s) n (er_body r)" if run: "es_search ref_es s ''products'' q n = Inr r" for s q n r
  proof -
    from run have d: "distinct (map fst s)" and n: "0 \<le> n" and r: "r = ref_response (Doc (JObj [(''took'', JNum (Some 1) (Fin 1)),
        (''hits'', JObj [(''hits'', JArr (map ref_hit (take (nat n) s)))])]))"
      by (auto simp: ref_es_def split: if_splits)
    have "distinct (map fst (take (nat n) s))" using d by (simp add: take_map [symmetric] distinct_take)
    moreover note ref_hits [OF d set_take_subset [of "nat n" s]]
    moreover have "int (length (map ref_hit (take (nat n) s))) \<le> n" using n by simp
    ultimately show ?thesis
      unfolding lists_hits_def r
      by (intro exI [of _ "[(''took'', JNum (Some 1) (Fin 1)), (''hits'', JObj [(''hits'', JArr (map ref_hit (take (nat n) s)))])]"]
          exI [of _ "[(''hits'', JArr (map ref_hit (take (nat n) s)))]"] exI conjI)
        (auto simp: ref_response_def only_member_def decode_simps fold_hit_names)
  qed
  then show ?thesis
    unfolding es_laws_def
    by (auto simp: ref_es_def fun_eq_iff map_of_filter_fst split: if_splits)
qed

section \<open>The two views agree\<close>

text \<open>
  C29: The read model and the search index converge to the same products. Both consumers receive
  the same events, in their own order and with their own failures, redeliveries and duplicates,
  and queries run in between. Once every event is recorded in the read side's inbox and
  acknowledged by the index consumer, both views hold exactly the products of the events, field
  by field.
\<close>

theorem search_index_converges:
  assumes "views_start D E index s0 t0" and "inj_on pe_product_id Ev" and "inj_on pe_message_id Ev"
    and "(views_step D E index B Ev)\<^sup>*\<^sup>* (s0, t0, {}) (s, t, A)"
    and "Ev \<subseteq> A" and "pe_message_id ` Ev \<subseteq> inbox_handled (rb_inbox D) s"
  shows "read_model D s = search_view E index t
    \<and> (\<forall>i p. search_view E index t i = Some p \<longleftrightarrow> (\<exists>e \<in> Ev. p = event_product e \<and> pe_product_id e = i))"
proof -
  have "read_db_laws D" using assms(1) by (simp add: views_start_def)
  from views_steps_ok [OF this assms(2-4) views_start_ok [OF assms(1)]]
  have ok: "views_ok D E index Ev (s, t, A)" .
  have "projected D Ev s = Ev" using assms(6) by (auto simp: projected_def)
  then have read: "holds_products (products_of Ev) (products_of Ev) (read_model D s)"
    and "A \<subseteq> Ev" and found: "holds_products (products_of Ev) (products_of A) (search_view E index t)"
    using ok by (simp_all add: views_ok_def)
  then have "A = Ev" using assms(5) by blast
  note found = found [unfolded this]
  have "read_model D s = search_view E index t" by (rule holds_products_eq [OF read found])
  moreover have "search_view E index t i = Some p \<longleftrightarrow> (\<exists>e \<in> Ev. p = event_product e \<and> pe_product_id e = i)" for i p
    unfolding holds_products_all [OF found] by auto
  ultimately show ?thesis by simp
qed

definition projected_run :: "read_store \<times> chan" where
  "projected_run = productCreated_handleMessage ref_read_db ok_broker 0 (delivery_of 1 pen_body) (empty_read, [])"

definition indexed_run :: "index_store \<times> chan" where
  "indexed_run = productSearchIndex_handleMessage ref_es ''products'' ok_broker (delivery_of 1 pen_body) ([], [])"

lemma indexed_acked: "snd indexed_run = [] @ [AckCall 1 False]"
proof -
  have "single_ack 1 (snd indexed_run)" by code_simp
  then show ?thesis by (simp add: single_ack_iff)
qed

lemma views_run:
  "(views_step ref_read_db ref_es ''products'' ok_broker {pen_created})\<^sup>*\<^sup>*
     (empty_read, [], {}) (fst projected_run, fst indexed_run, {pen_created})"
proof -
  have d: "delivers {pen_created} (delivery_of 1 pen_body)"
    by (simp add: delivers_def delivery_of_def decode_pen)
  have "productCreated_handleMessage ref_read_db ok_broker 0 (delivery_of 1 pen_body) (empty_read, [])
      = (fst projected_run, snd projected_run)" by (simp add: projected_run_def)
  note project = views_step.project [OF this d]
  have "productSearchIndex_handleMessage ref_es ''products'' ok_broker (delivery_of 1 pen_body) ([], [])
      = (fst indexed_run, [] @ [AckCall 1 False])" unfolding indexed_acked [symmetric] by (simp add: indexed_run_def)
  note feed = views_step.feed [OF this d]
  show ?thesis
    by (rule converse_rtranclp_into_rtranclp [where r = "views_step ref_read_db ref_es ''products'' ok_broker {pen_created}", OF project])
      (rule r_into_rtranclp, rule feed, simp add: delivery_of_def decode_pen)
qed

lemma projected_m1: "inbox_handled (rb_inbox ref_read_db) (fst projected_run) = {''m1''}"
proof -
  have "map mi_message_id (rst_inbox (fst projected_run)) = [''m1'']" by code_simp
  then show ?thesis by (auto simp: inbox_handled_def ref_read_db_def map_eq_Cons_conv)
qed

lemma views_start_ref: "views_start ref_read_db ref_es ''products'' empty_read []"
  using ref_read_db_laws ref_es_laws
  by (simp add: views_start_def read_model_def catalog_products_def inbox_handled_def)
    (simp add: ref_read_db_def empty_read_def ref_es_def fun_eq_iff)

theorem search_index_converges_witness:
  "read_model ref_read_db (fst projected_run) = search_view ref_es ''products'' (fst indexed_run)"
  using search_index_converges [OF views_start_ref _ _ views_run]
  by (simp add: projected_m1 pen_created_def)

section \<open>Searching\<close>

text \<open>
  C30: A search answers real products. At any moment of such a run, a SearchProducts call that
  returns no error had a text that is not blank, and returns at most 50 products, no two with
  the same identifier, each being the product of a delivered event with the values the event
  had.
\<close>

theorem search_answers_delivered:
  assumes "views_start D E index s0 t0" and "inj_on pe_product_id Ev" and "inj_on pe_message_id Ev"
    and "(views_step D E index B Ev)\<^sup>*\<^sup>* (s0, t0, {}) (s, t, A)"
    and "catalog_SearchProducts E index t query = Inr ps"
  shows "TrimSpace query \<noteq> [] \<and> length ps \<le> 50 \<and> distinct (map pp_id ps)
    \<and> set ps \<subseteq> (\<lambda>e. \<lparr>pp_id = pe_product_id e, pp_name = pe_name e, pp_description = pe_description e, pp_price = pe_price e\<rparr>) ` Ev"
proof -
  have "read_db_laws D" using assms(1) by (simp add: views_start_def)
  from views_steps_ok [OF this assms(2-4) views_start_ok [OF assms(1)]]
  have inv: "search_ok E index t" and shown: "holds_products (products_of Ev) (products_of A) (search_view E index t)"
    by (simp_all add: views_ok_def)
  from assms(5) obtain qs where qs: "searching_products_Handle (search_Search E index) t query = Inr qs"
    and ps: "ps = to_proto_products qs"
    by (auto simp: catalog_SearchProducts_def server_SearchProducts_def split: sum.splits)
  note answer = es.search_answer [OF inv qs]
  have "q \<in> products_of Ev" if "q \<in> set qs" for q
    using answer that shown unfolding holds_products_def by blast
  then show ?thesis using answer
    by (fastforce simp: ps to_proto_products_def event_product_def comp_def)
qed

definition found_run :: "err + proto_product list" where
  "found_run = catalog_SearchProducts ref_es ''products'' (fst indexed_run) '' pen ''"

theorem search_answers_delivered_witness:
  "\<exists>ps. found_run = Inr ps \<and> map pp_name ps = [''pen''] \<and> distinct (map pp_id ps)"
proof -
  have "case found_run of Inr ps \<Rightarrow> map pp_name ps = [''pen''] | Inl e \<Rightarrow> False" by code_simp
  then obtain ps where run: "found_run = Inr ps" and name: "map pp_name ps = [''pen'']" by (auto split: sum.splits)
  have "inj_on pe_product_id {pen_created}" "inj_on pe_message_id {pen_created}" by simp_all
  from search_answers_delivered [OF views_start_ref this views_run run [unfolded found_run_def]]
  have "distinct (map pp_id ps)" by (elim conjE)
  with run name show ?thesis by (intro exI [of _ ps] conjI)
qed

end
