(* ===== verification/Gateway.thy ===== *)
theory Gateway
  imports Order_Server Catalog_Read_Service
begin

text \<open>
  The API gateway: the JSON bodies of its routes (\<open>internal/dto\<close>), the gRPC clients with their
  deadlines (\<open>adapter/grpc-client\<close>), the HTTP handlers (\<open>adapter/http/handler\<close>), the request
  timeout (\<open>adapter/http/middleware\<close>) and the routes (\<open>adapter/http/router\<close>).

  A handler's reply is the status and the value it passes to \<open>c.JSON\<close>. The generated gRPC stubs
  and the validator package are parameters.
\<close>

section \<open>Bodies\<close>

record order_request_item =
  gi_product_id :: string
  gi_product_name :: string
  gi_unit_price :: float64
  gi_quantity :: goint

record order_request =
  gr_customer_id :: string
  gr_order_items :: "order_request_item list"

record OrderItemResponse =
  ri_id :: string
  ri_order_id :: string
  ri_product_id :: string
  ri_product_name :: string
  ri_unit_price :: float64
  ri_quantity :: goint
  ri_subtotal :: float64

record OrderResponse =
  ro_id :: string
  ro_customer_id :: string
  ro_status :: string
  ro_total_amount :: float64
  ro_items :: "OrderItemResponse list"

record product_request =
  gp_name :: string
  gp_description :: string
  gp_price :: float64

record ProductResponse =
  rp_id :: string
  rp_name :: string
  rp_description :: string
  rp_price :: float64

datatype reply_value =
    ErrorResponse string
  | OrderJSON OrderResponse
  | OrdersJSON "OrderResponse list"
  | ProductJSON ProductResponse
  | ProductsJSON "ProductResponse list"

type_synonym http_reply = "nat \<times> reply_value"

definition FromOrderItem :: "proto_item \<Rightarrow> OrderItemResponse" where
  "FromOrderItem item =
     \<lparr>ri_id = pi_id item, ri_order_id = pi_order_id item, ri_product_id = pi_product_id item,
      ri_product_name = pi_product_name item, ri_unit_price = pi_unit_price item,
      ri_quantity = to_int (pi_quantity item), ri_subtotal = pi_subtotal item\<rparr>"

definition FromOrderResponse :: "proto_order \<Rightarrow> OrderResponse" where
  "FromOrderResponse ord =
     \<lparr>ro_id = po_id ord, ro_customer_id = po_customer_id ord, ro_status = po_status ord,
      ro_total_amount = po_total_amount ord, ro_items = map FromOrderItem (po_items ord)\<rparr>"

definition FromOrdersResponse :: "proto_order list \<Rightarrow> OrderResponse list" where
  "FromOrdersResponse os = map FromOrderResponse os"

definition FromOrderRequestItem :: "order_request_item \<Rightarrow> CreateOrderItemRequest" where
  "FromOrderRequestItem item =
     \<lparr>cq_product_id = gi_product_id item, cq_product_name = gi_product_name item,
      cq_unit_price = gi_unit_price item, cq_quantity = to_int32 (gi_quantity item)\<rparr>"

definition FromOrderRequest :: "order_request \<Rightarrow> CreateOrderRequest" where
  "FromOrderRequest req =
     \<lparr>cr_customer_id = gr_customer_id req, cr_items = map FromOrderRequestItem (gr_order_items req)\<rparr>"

definition FromCatalogProduct :: "proto_product \<Rightarrow> ProductResponse" where
  "FromCatalogProduct p =
     \<lparr>rp_id = pp_id p, rp_name = pp_name p, rp_description = pp_description p, rp_price = pp_price p\<rparr>"

definition FromCatalogProducts :: "proto_product list \<Rightarrow> ProductResponse list" where
  "FromCatalogProducts products = map FromCatalogProduct products"

text \<open>
  \<open>ShouldBindJSON\<close> decodes the first JSON value of the body; no \<open>binding\<close> rule is declared, so it
  checks nothing else. The text of its error is a parameter.
\<close>

definition request_item_fields :: "string \<Rightarrow> order_request_item dec option" where
  "request_item_fields k =
     (if k = ''product_id'' then Some (dec_field gi_product_id (\<lambda>x r. r\<lparr>gi_product_id := x\<rparr>) dec_string)
      else if k = ''product_name'' then Some (dec_field gi_product_name (\<lambda>x r. r\<lparr>gi_product_name := x\<rparr>) dec_string)
      else if k = ''unit_price'' then Some (dec_field gi_unit_price (\<lambda>x r. r\<lparr>gi_unit_price := x\<rparr>) dec_float)
      else if k = ''quantity'' then Some (dec_field gi_quantity (\<lambda>x r. r\<lparr>gi_quantity := x\<rparr>) dec_int)
      else None)"

definition zero_request_item :: order_request_item where
  "zero_request_item = \<lparr>gi_product_id = [], gi_product_name = [], gi_unit_price = Zero False, gi_quantity = 0\<rparr>"

text \<open>The decoded value: the customer, and the slice of items with its backing array.\<close>

type_synonym request_value = "string \<times> order_request_item list \<times> order_request_item list"

definition order_request_fields :: "string \<Rightarrow> request_value dec option" where
  "order_request_fields k =
     (if k = ''customer_id'' then Some (dec_field fst (\<lambda>x r. (x, snd r)) dec_string)
      else if k = ''order_items''
        then Some (dec_field snd (\<lambda>x r. (fst r, x)) (dec_slice zero_request_item (dec_struct request_item_fields)))
      else None)"

definition bind_order_request :: "body \<Rightarrow> order_request option" where
  "bind_order_request b =
     map_option (\<lambda>r. \<lparr>gr_customer_id = fst r, gr_order_items = snd (snd r)\<rparr>)
       (unmarshal order_request_fields ([], [], []) b)"

definition product_request_fields :: "string \<Rightarrow> product_request dec option" where
  "product_request_fields k =
     (if k = ''name'' then Some (dec_field gp_name (\<lambda>x r. r\<lparr>gp_name := x\<rparr>) dec_string)
      else if k = ''description'' then Some (dec_field gp_description (\<lambda>x r. r\<lparr>gp_description := x\<rparr>) dec_string)
      else if k = ''price'' then Some (dec_field gp_price (\<lambda>x r. r\<lparr>gp_price := x\<rparr>) dec_float)
      else None)"

definition bind_product_request :: "body \<Rightarrow> product_request option" where
  "bind_product_request =
     unmarshal product_request_fields \<lparr>gp_name = [], gp_description = [], gp_price = Zero False\<rparr>"

text \<open>
  The validator package checks the struct's tags: \<open>required\<close> asks for a value other than the zero
  value, \<open>gt=0\<close> for a number greater than 0.
\<close>

type_synonym validator = "product_request \<Rightarrow> err option"

definition validator_laws :: "validator \<Rightarrow> bool" where
  "validator_laws validate \<longleftrightarrow>
     (\<forall>r. validate r = None \<longleftrightarrow> gp_name r \<noteq> [] \<and> gp_description r \<noteq> [] \<and> f_less (Zero False) (gp_price r))"

definition ProductRequest_Validate :: "validator \<Rightarrow> product_request \<Rightarrow> err option" where
  "ProductRequest_Validate validate i = validate i"

section \<open>Contexts and clients\<close>

text \<open>
  A context is known by its deadline. \<open>context.WithTimeout\<close> keeps the earlier of the parent's
  deadline and its own.
\<close>

type_synonym ctx = "time option"

definition WithTimeout :: "ctx \<Rightarrow> time \<Rightarrow> duration \<Rightarrow> ctx" where
  "WithTimeout parent now d = Some (case parent of None \<Rightarrow> now + d | Some t \<Rightarrow> min t (now + d))"

text \<open>A stub is the generated client: a call with its context changes the world behind it.\<close>

record 's order_stub =
  st_CreateOrder :: "ctx \<Rightarrow> CreateOrderRequest \<Rightarrow> 's \<Rightarrow> (err + proto_order) \<times> 's"
  st_GetOrder :: "ctx \<Rightarrow> string \<Rightarrow> 's \<Rightarrow> (err + proto_order) \<times> 's"
  st_GetOrders :: "ctx \<Rightarrow> 's \<Rightarrow> (err + proto_order list) \<times> 's"

record 's read_stub =
  st_GetProducts :: "ctx \<Rightarrow> 's \<Rightarrow> (err + proto_product list) \<times> 's"
  st_SearchProducts :: "ctx \<Rightarrow> string \<Rightarrow> 's \<Rightarrow> (err + proto_product list) \<times> 's"

type_synonym 's write_stub = "ctx \<Rightarrow> string \<Rightarrow> string \<Rightarrow> float64 \<Rightarrow> 's \<Rightarrow> (err + proto_product) \<times> 's"

record 's OrderClient =
  oc_client :: "'s order_stub"
  oc_readTimeout :: duration
  oc_writeTimeout :: duration

record 's ReadCatalogClient =
  rc_client :: "'s read_stub"
  rc_timeout :: duration

record 's WriteCatalogClient =
  wc_client :: "'s write_stub"
  wc_timeout :: duration

definition OrderClient_CreateOrder ::
  "'s OrderClient \<Rightarrow> time \<Rightarrow> ctx \<Rightarrow> order_request \<Rightarrow> 's \<Rightarrow> (err + proto_order) \<times> 's" where
  "OrderClient_CreateOrder c now ctx req =
     st_CreateOrder (oc_client c) (WithTimeout ctx now (oc_writeTimeout c)) (FromOrderRequest req)"

definition OrderClient_GetOrder :: "'s OrderClient \<Rightarrow> time \<Rightarrow> ctx \<Rightarrow> string \<Rightarrow> 's \<Rightarrow> (err + proto_order) \<times> 's" where
  "OrderClient_GetOrder c now ctx orderID =
     st_GetOrder (oc_client c) (WithTimeout ctx now (oc_readTimeout c)) orderID"

definition OrderClient_GetOrders :: "'s OrderClient \<Rightarrow> time \<Rightarrow> ctx \<Rightarrow> 's \<Rightarrow> (err + proto_order list) \<times> 's" where
  "OrderClient_GetOrders c now ctx = st_GetOrders (oc_client c) (WithTimeout ctx now (oc_readTimeout c))"

definition ReadClient_GetProducts :: "'s ReadCatalogClient \<Rightarrow> time \<Rightarrow> ctx \<Rightarrow> 's \<Rightarrow> (err + proto_product list) \<times> 's" where
  "ReadClient_GetProducts c now ctx = st_GetProducts (rc_client c) (WithTimeout ctx now (rc_timeout c))"

definition ReadClient_SearchProducts ::
  "'s ReadCatalogClient \<Rightarrow> time \<Rightarrow> ctx \<Rightarrow> string \<Rightarrow> 's \<Rightarrow> (err + proto_product list) \<times> 's" where
  "ReadClient_SearchProducts c now ctx query =
     st_SearchProducts (rc_client c) (WithTimeout ctx now (rc_timeout c)) query"

definition WriteClient_CreateProducts ::
  "'s WriteCatalogClient \<Rightarrow> time \<Rightarrow> ctx \<Rightarrow> string \<Rightarrow> string \<Rightarrow> float64 \<Rightarrow> 's \<Rightarrow> (err + proto_product) \<times> 's" where
  "WriteClient_CreateProducts c now ctx name description price =
     wc_client c (WithTimeout ctx now (wc_timeout c)) name description price"

section \<open>Handlers\<close>

definition writeServiceError :: "err \<Rightarrow> nat \<Rightarrow> string \<Rightarrow> http_reply" where
  "writeServiceError err defaultStatus message =
     (if errors_Is err DeadlineExceeded \<or> status_Code err = DeadlineExceededCode
      then (504, ErrorResponse ''request timed out'')
      else ((case status_Code err of
               InvalidArgument \<Rightarrow> 400
             | NotFound \<Rightarrow> 404
             | Unavailable \<Rightarrow> 502
             | _ \<Rightarrow> defaultStatus), ErrorResponse (message @ err_text err)))"

text \<open>The end of a handler: the error reply, or the given status with the converted response.\<close>

definition answer :: "nat \<Rightarrow> ('a \<Rightarrow> reply_value) \<Rightarrow> string \<Rightarrow> (err + 'a) \<times> 's \<Rightarrow> http_reply \<times> 's" where
  "answer ok convert message rs = (case rs of
       (Inl err, s) \<Rightarrow> (writeServiceError err 500 message, s)
     | (Inr x, s) \<Rightarrow> ((ok, convert x), s))"

definition handler_CreateOrder ::
  "'s OrderClient \<Rightarrow> (body \<Rightarrow> err) \<Rightarrow> time \<Rightarrow> ctx \<Rightarrow> body \<Rightarrow> 's \<Rightarrow> http_reply \<times> 's" where
  "handler_CreateOrder c bindError now ctx b s =
     (case bind_order_request b of
        None \<Rightarrow> ((400, ErrorResponse (''invalid request body '' @ err_text (bindError b))), s)
      | Some req \<Rightarrow>
          answer 201 (OrderJSON \<circ> FromOrderResponse) ''failed to create order ''
            (OrderClient_CreateOrder c now ctx req s))"

definition handler_GetOrders :: "'s OrderClient \<Rightarrow> time \<Rightarrow> ctx \<Rightarrow> 's \<Rightarrow> http_reply \<times> 's" where
  "handler_GetOrders c now ctx s =
     answer 200 (OrdersJSON \<circ> FromOrdersResponse) ''failed to get orders '' (OrderClient_GetOrders c now ctx s)"

definition handler_GetOrder :: "'s OrderClient \<Rightarrow> time \<Rightarrow> ctx \<Rightarrow> string \<Rightarrow> 's \<Rightarrow> http_reply \<times> 's" where
  "handler_GetOrder c now ctx orderID s =
     answer 200 (OrderJSON \<circ> FromOrderResponse) ''failed to get order '' (OrderClient_GetOrder c now ctx orderID s)"

definition handler_SearchProducts :: "'s ReadCatalogClient \<Rightarrow> time \<Rightarrow> ctx \<Rightarrow> string \<Rightarrow> 's \<Rightarrow> http_reply \<times> 's" where
  "handler_SearchProducts c now ctx q s =
     (let query = TrimSpace q
      in if query = [] then ((400, ErrorResponse ''search query is required''), s)
         else answer 200 (ProductsJSON \<circ> FromCatalogProducts) ''failed to search products ''
           (ReadClient_SearchProducts c now ctx query s))"

definition handler_GetProducts :: "'s ReadCatalogClient \<Rightarrow> time \<Rightarrow> ctx \<Rightarrow> 's \<Rightarrow> http_reply \<times> 's" where
  "handler_GetProducts c now ctx s =
     answer 200 (ProductsJSON \<circ> FromCatalogProducts) ''failed to get products '' (ReadClient_GetProducts c now ctx s)"

definition handler_CreateProduct ::
  "'s WriteCatalogClient \<Rightarrow> validator \<Rightarrow> (body \<Rightarrow> err) \<Rightarrow> time \<Rightarrow> ctx \<Rightarrow> body \<Rightarrow> 's \<Rightarrow> http_reply \<times> 's" where
  "handler_CreateProduct c validate bindError now ctx b s =
     (case bind_product_request b of
        None \<Rightarrow> ((400, ErrorResponse (''invalid request body '' @ err_text (bindError b))), s)
      | Some req \<Rightarrow>
          (case ProductRequest_Validate validate req of
             Some err \<Rightarrow> ((400, ErrorResponse (''error '' @ err_text err)), s)
           | None \<Rightarrow>
               answer 201 (ProductJSON \<circ> FromCatalogProduct) ''failed to create products ''
                 (WriteClient_CreateProducts c now ctx (gp_name req) (gp_description req) (gp_price req) s)))"

end
