(* ===== verification/Options.thy ===== *)
theory Options
  imports Go_Prelude
begin

text \<open>
  The configuration of the services: the option records, their \<open>Validate\<close> methods, and
  \<open>configloader.BindKey\<close>, which fills a record from the configuration file and the environment.
  A \<open>time.Duration\<close> counts nanoseconds in a signed 64-bit integer, so durations are \<open>goint\<close> here.
\<close>

section \<open>Loading\<close>

text \<open>
  The viper package is a parameter: reading the file \<open>config.<env>.json\<close> in a directory gives a
  configuration, a key its section, and a section with environment bindings decodes to the
  option record. The loop over the bindings is a loop over a Go map, so its order is not fixed.
\<close>

record ('c, 'v, 'o) viper =
  vp_read :: "string \<Rightarrow> string \<Rightarrow> err + 'c"
  vp_sub :: "'c \<Rightarrow> string \<Rightarrow> 'v option"
  vp_bind :: "'v \<Rightarrow> string \<Rightarrow> string \<Rightarrow> err + 'v"
  vp_unmarshal :: "'v \<Rightarrow> err + 'o"

fun bind_all :: "('v \<Rightarrow> string \<Rightarrow> string \<Rightarrow> err + 'v) \<Rightarrow> (string \<times> string) list \<Rightarrow> 'v \<Rightarrow> err + 'v" where
  "bind_all bindEnv [] sec = Inr sec"
| "bind_all bindEnv ((field, environmentVariable) # rest) sec =
     (case bindEnv sec field environmentVariable of
        Inl err \<Rightarrow> Inl (Wrap (''bind '' @ field @ '' to '' @ environmentVariable @ '': '') err)
      | Inr sec' \<Rightarrow> bind_all bindEnv rest sec')"

definition BindKey ::
  "('c, 'v, 'o) viper \<Rightarrow> (string \<Rightarrow> string) \<Rightarrow> string \<Rightarrow> (string \<times> string) list \<Rightarrow> err + 'o" where
  "BindKey V getenv key envBindings =
     (let env = (if getenv ''APP_ENV'' = [] then ''development'' else getenv ''APP_ENV'');
          configPath = (if getenv ''CONFIG_PATH'' = [] then ''config'' else getenv ''CONFIG_PATH'')
      in case vp_read V configPath (''config.'' @ env) of
           Inl err \<Rightarrow> Inl (Wrap ''read config file: '' err)
         | Inr config \<Rightarrow>
             (case vp_sub V config key of
                None \<Rightarrow> Inl (Msg (''config key '' @ key @ '' not found''))
              | Some sec \<Rightarrow>
                  (case bind_all (vp_bind V) envBindings sec of
                     Inl err \<Rightarrow> Inl err
                   | Inr sec' \<Rightarrow>
                       (case vp_unmarshal V sec' of
                          Inl err \<Rightarrow> Inl (Wrap (''unmarshal config key '' @ key @ '': '') err)
                        | Inr options \<Rightarrow> Inr options))))"

section \<open>Checks\<close>

fun required :: "string \<Rightarrow> (string \<times> string) list \<Rightarrow> err option" where
  "required options [] = None"
| "required options ((name, val) # fs) =
     (if val = [] then Some (Msg (options @ ''.'' @ name @ '' is required'')) else required options fs)"

fun positive :: "string \<Rightarrow> (string \<times> goint) list \<Rightarrow> err option" where
  "positive options [] = None"
| "positive options ((name, val) # fs) =
     (if sint val \<le> 0 then Some (Msg (options @ ''.'' @ name @ '' must be greater than zero''))
      else positive options fs)"

text \<open>The checks of a \<open>Validate\<close> method run in order up to the first error.\<close>

definition or_else :: "err option \<Rightarrow> err option \<Rightarrow> err option" where
  "or_else a b = (case a of Some e \<Rightarrow> Some e | None \<Rightarrow> b)"

lemma or_else_None [simp]: "or_else a b = None \<longleftrightarrow> a = None \<and> b = None"
  by (cases a) (simp_all add: or_else_def)

lemma required_None [simp]: "required options fs = None \<longleftrightarrow> (\<forall>(name, val) \<in> set fs. val \<noteq> [])"
  by (induction fs) (auto split: if_splits)

lemma positive_None [simp]: "positive options fs = None \<longleftrightarrow> (\<forall>(name, val) \<in> set fs. 0 < sint val)"
  by (induction fs) (auto split: if_splits)

declare required.simps [simp del] positive.simps [simp del]

section \<open>The option records\<close>

text \<open>The order service's RabbitMQ options.\<close>

record OrderRabbitMQOptions =
  orb_URL :: string
  orb_PublisherExchange :: string
  orb_ConsumerExchange :: string
  orb_StockReservedQueue :: string
  orb_StockNotReservedQueue :: string
  orb_OutboxIntervalSeconds :: goint
  orb_ConnectionTimeout :: goint
  orb_PublishTimeout :: goint
  orb_OutboxProcessingTimeout :: goint
  orb_ConsumerProcessingTimeout :: goint
  orb_ConsumerRetryDelay :: goint
  orb_ConsumerMaxAttempts :: goint

definition OrderRabbitMQOptions_Validate :: "OrderRabbitMQOptions \<Rightarrow> err option" where
  "OrderRabbitMQOptions_Validate options =
     or_else
       (required ''rabbitMQOptions''
        [(''url'', orb_URL options), (''publisherExchange'', orb_PublisherExchange options),
         (''consumerExchange'', orb_ConsumerExchange options),
         (''stockReservedQueue'', orb_StockReservedQueue options),
         (''stockNotReservedQueue'', orb_StockNotReservedQueue options)])
       (positive ''rabbitMQOptions''
        [(''outboxIntervalSeconds'', orb_OutboxIntervalSeconds options),
         (''publishTimeout'', orb_PublishTimeout options),
         (''connectionTimeout'', orb_ConnectionTimeout options),
         (''outboxProcessingTimeout'', orb_OutboxProcessingTimeout options),
         (''consumerProcessingTimeout'', orb_ConsumerProcessingTimeout options),
         (''consumerRetryDelay'', orb_ConsumerRetryDelay options),
         (''consumerMaxAttempts'', orb_ConsumerMaxAttempts options)])"

text \<open>The inventory's RabbitMQ options.\<close>

record InventoryRabbitMQOptions =
  irb_URL :: string
  irb_ConsumerExchange :: string
  irb_PublisherExchange :: string
  irb_ReserveStockQueue :: string
  irb_OutboxIntervalSeconds :: goint
  irb_ConnectionTimeout :: goint
  irb_PublishTimeout :: goint
  irb_OutboxProcessingTimeout :: goint
  irb_ConsumerProcessingTimeout :: goint

definition InventoryRabbitMQOptions_Validate :: "InventoryRabbitMQOptions \<Rightarrow> err option" where
  "InventoryRabbitMQOptions_Validate options =
     or_else
       (required ''rabbitMQOptions''
        [(''url'', irb_URL options), (''consumerExchange'', irb_ConsumerExchange options),
         (''publisherExchange'', irb_PublisherExchange options),
         (''reserveStockQueue'', irb_ReserveStockQueue options)])
       (positive ''rabbitMQOptions''
        [(''outboxIntervalSeconds'', irb_OutboxIntervalSeconds options),
         (''connectionTimeout'', irb_ConnectionTimeout options),
         (''publishTimeout'', irb_PublishTimeout options),
         (''outboxProcessingTimeout'', irb_OutboxProcessingTimeout options),
         (''consumerProcessingTimeout'', irb_ConsumerProcessingTimeout options)])"

text \<open>The catalog write side's RabbitMQ options.\<close>

record CatalogWriteRabbitMQOptions =
  wrb_URL :: string
  wrb_Exchange :: string
  wrb_OutboxIntervalSeconds :: goint
  wrb_ConnectionTimeout :: goint
  wrb_PublishTimeout :: goint
  wrb_OutboxProcessingTimeout :: goint

definition CatalogWriteRabbitMQOptions_Validate :: "CatalogWriteRabbitMQOptions \<Rightarrow> err option" where
  "CatalogWriteRabbitMQOptions_Validate options =
     or_else
       (required ''rabbitMQOptions''
        [(''url'', wrb_URL options), (''exchange'', wrb_Exchange options)])
       (positive ''rabbitMQOptions''
        [(''outboxIntervalSeconds'', wrb_OutboxIntervalSeconds options),
         (''connectionTimeout'', wrb_ConnectionTimeout options),
         (''publishTimeout'', wrb_PublishTimeout options),
         (''outboxProcessingTimeout'', wrb_OutboxProcessingTimeout options)])"

text \<open>The catalog read side's RabbitMQ options.\<close>

record CatalogReadRabbitMQOptions =
  rrb_URL :: string
  rrb_Exchange :: string
  rrb_ProductCreatedQueue :: string
  rrb_ProductSearchQueue :: string
  rrb_ConnectionTimeout :: goint
  rrb_ConsumerProcessingTimeout :: goint

definition CatalogReadRabbitMQOptions_Validate :: "CatalogReadRabbitMQOptions \<Rightarrow> err option" where
  "CatalogReadRabbitMQOptions_Validate options =
     or_else
       (required ''rabbitMQOptions''
        [(''url'', rrb_URL options), (''exchange'', rrb_Exchange options),
         (''productCreatedQueue'', rrb_ProductCreatedQueue options),
         (''productSearchQueue'', rrb_ProductSearchQueue options)])
       (positive ''rabbitMQOptions''
        [(''connectionTimeout'', rrb_ConnectionTimeout options),
         (''consumerProcessingTimeout'', rrb_ConsumerProcessingTimeout options)])"

text \<open>The PostgreSQL options, the same in the three services that have a database.\<close>

record PostgresOptions =
  pgo_Host :: string
  pgo_Port :: string
  pgo_User :: string
  pgo_Password :: string
  pgo_Database :: string
  pgo_SSLMode :: string
  pgo_ConnectionTimeout :: goint

definition PostgresOptions_Validate :: "PostgresOptions \<Rightarrow> err option" where
  "PostgresOptions_Validate options =
     or_else
       (required ''postgresOptions''
        [(''host'', pgo_Host options), (''port'', pgo_Port options), (''user'', pgo_User options),
         (''password'', pgo_Password options), (''database'', pgo_Database options),
         (''sslMode'', pgo_SSLMode options)])
       (positive ''postgresOptions''
        [(''connectionTimeout'', pgo_ConnectionTimeout options)])"

text \<open>The options of the catalog read side's stores.\<close>

record MongoOptions =
  mgo_URI :: string
  mgo_Database :: string
  mgo_ConnectionTimeout :: goint

definition MongoOptions_Validate :: "MongoOptions \<Rightarrow> err option" where
  "MongoOptions_Validate options =
     or_else
       (required ''mongoOptions''
        [(''uri'', mgo_URI options), (''database'', mgo_Database options)])
       (positive ''mongoOptions''
        [(''connectionTimeout'', mgo_ConnectionTimeout options)])"

record ElasticsearchOptions =
  eso_URL :: string
  eso_ProductsIndex :: string
  eso_ConnectionTimeout :: goint

definition ElasticsearchOptions_Validate :: "ElasticsearchOptions \<Rightarrow> err option" where
  "ElasticsearchOptions_Validate options =
     or_else
       (required ''elasticsearchOptions''
        [(''url'', eso_URL options), (''productsIndex'', eso_ProductsIndex options)])
       (positive ''elasticsearchOptions''
        [(''connectionTimeout'', eso_ConnectionTimeout options)])"

record RedisOptions =
  rdo_Addr :: string
  rdo_Password :: string
  rdo_DB :: goint
  rdo_ConnectionTimeout :: goint

definition LoadRedisOptions :: "err + RedisOptions \<Rightarrow> err + RedisOptions" where
  "LoadRedisOptions bound =
     (case bound of
        Inl err \<Rightarrow> Inl err
      | Inr options \<Rightarrow>
          (case or_else (required ''redisOptions'' [(''addr'', rdo_Addr options)])
              (positive ''redisOptions'' [(''connectionTimeout'', rdo_ConnectionTimeout options)]) of
             Some err \<Rightarrow> Inl err
           | None \<Rightarrow> Inr options))"

text \<open>
  The ports: the order and catalog services serve gRPC and health checks, the inventory health
  checks only.
\<close>

record AppOptions =
  apo_GRPCPort :: string
  apo_HealthPort :: string

definition AppOptions_Validate :: "AppOptions \<Rightarrow> err option" where
  "AppOptions_Validate options =
     required ''appOptions'' [(''grpcPort'', apo_GRPCPort options), (''healthPort'', apo_HealthPort options)]"

record InventoryAppOptions =
  iao_HealthPort :: string

definition InventoryAppOptions_Validate :: "InventoryAppOptions \<Rightarrow> err option" where
  "InventoryAppOptions_Validate options = required ''appOptions'' [(''healthPort'', iao_HealthPort options)]"

definition LogOptions_Validate :: "string \<Rightarrow> err option" where
  "LogOptions_Validate level =
     (if level \<in> {''debug'', ''info'', ''warn'', ''error''} then None
      else Some (Msg (''unsupported log level: '' @ level)))"

text \<open>The options a provider of \<open>app/module.go\<close> returns: loaded, then validated.\<close>

definition provide_options :: "('o \<Rightarrow> err option) \<Rightarrow> err + 'o \<Rightarrow> err + 'o" where
  "provide_options validate loaded =
     (case loaded of
        Inl err \<Rightarrow> Inl err
      | Inr options \<Rightarrow> (case validate options of Some err \<Rightarrow> Inl err | None \<Rightarrow> Inr options))"

lemma provide_options_Inr:
  "provide_options validate loaded = Inr options \<longleftrightarrow> loaded = Inr options \<and> validate options = None"
  by (auto simp: provide_options_def split: sum.splits option.splits)

section \<open>The interval of the outbox workers\<close>

text \<open>\<open>time.Duration(options.OutboxIntervalSeconds) * time.Second\<close>, a product of 64-bit integers.\<close>

definition outbox_interval :: "goint \<Rightarrow> goint" where
  "outbox_interval seconds = seconds * 1000000000"

lemma outbox_interval_exact:
  assumes "0 < sint s" and "sint s \<le> 9223372036"
  shows "sint (outbox_interval s) = sint s * 1000000000"
proof -
  have w: "outbox_interval s = word_of_int (sint s * 1000000000)"
    by (simp add: outbox_interval_def)
  show ?thesis unfolding w by (rule sint_of_int64) (use assms in simp_all)
qed

section \<open>The copies of the option files\<close>

text \<open>
  The inventory and the catalog's write side have their own copies of \<open>PostgresOptions\<close>, and the
  catalog's two services their own \<open>AppOptions\<close>, with the same checks.
\<close>

definition inventory_PostgresOptions_Validate :: "PostgresOptions \<Rightarrow> err option" where
  "inventory_PostgresOptions_Validate = PostgresOptions_Validate"

definition catalog_PostgresOptions_Validate :: "PostgresOptions \<Rightarrow> err option" where
  "catalog_PostgresOptions_Validate = PostgresOptions_Validate"

definition catalog_write_AppOptions_Validate :: "AppOptions \<Rightarrow> err option" where
  "catalog_write_AppOptions_Validate options =
     (if apo_GRPCPort options = [] then Some (Msg ''appOptions.grpcPort is required'')
      else if apo_HealthPort options = [] then Some (Msg ''appOptions.healthPort is required'')
      else None)"

definition catalog_read_AppOptions_Validate :: "AppOptions \<Rightarrow> err option" where
  "catalog_read_AppOptions_Validate = catalog_write_AppOptions_Validate"

text \<open>The copies check what the order service's method checks.\<close>

lemma catalog_AppOptions_same: "catalog_write_AppOptions_Validate = AppOptions_Validate"
  by (simp add: fun_eq_iff catalog_write_AppOptions_Validate_def AppOptions_Validate_def required.simps)

section \<open>Accepted options\<close>

text \<open>
  Accepted options give the outbox worker the interval they name, up to a bound. When the
  order service's options pass \<open>Validate\<close> and ask for at most 9223372036 seconds, the worker's
  interval is exactly that many seconds, and positive, as \<open>time.NewTicker\<close> requires; and its
  retry policy has at least one attempt and a positive delay. From 9223372037 seconds on, options
  that pass \<open>Validate\<close> can give a negative interval.
\<close>

theorem accepted_options_interval:
  assumes "OrderRabbitMQOptions_Validate options = None"
  shows "0 < sint (orb_ConsumerMaxAttempts options) \<and> 0 < sint (orb_ConsumerRetryDelay options)
    \<and> (sint (orb_OutboxIntervalSeconds options) \<le> 9223372036 \<longrightarrow>
        sint (outbox_interval (orb_OutboxIntervalSeconds options)) = sint (orb_OutboxIntervalSeconds options) * 1000000000
        \<and> 0 < sint (outbox_interval (orb_OutboxIntervalSeconds options)))
    \<and> OrderRabbitMQOptions_Validate (options\<lparr>orb_OutboxIntervalSeconds := 9223372037\<rparr>) = None
    \<and> sint (outbox_interval 9223372037) < 0"
proof -
  have pos: "0 < sint (orb_OutboxIntervalSeconds options)" "0 < sint (orb_ConsumerMaxAttempts options)"
    "0 < sint (orb_ConsumerRetryDelay options)"
    using assms by (simp_all add: OrderRabbitMQOptions_Validate_def)
  have "OrderRabbitMQOptions_Validate (options\<lparr>orb_OutboxIntervalSeconds := 9223372037\<rparr>) = None"
    using assms by (simp add: OrderRabbitMQOptions_Validate_def)
  moreover have "sint (outbox_interval 9223372037) < 0" by code_simp
  ultimately show ?thesis using pos outbox_interval_exact [OF pos(1)] by simp
qed

definition development_options :: OrderRabbitMQOptions where
  "development_options =
     \<lparr>orb_URL = ''amqp://localhost'', orb_PublisherExchange = ''orders.events'', orb_ConsumerExchange = ''inventory.events'',
      orb_StockReservedQueue = ''q1'', orb_StockNotReservedQueue = ''q2'', orb_OutboxIntervalSeconds = 5,
      orb_ConnectionTimeout = 5000000000, orb_PublishTimeout = 5000000000, orb_OutboxProcessingTimeout = 30000000000,
      orb_ConsumerProcessingTimeout = 10000000000, orb_ConsumerRetryDelay = 5000000000, orb_ConsumerMaxAttempts = 3\<rparr>"

theorem accepted_options_interval_witness:
  "sint (outbox_interval (orb_OutboxIntervalSeconds development_options)) = 5000000000"
proof -
  have "OrderRabbitMQOptions_Validate development_options = None" by code_simp
  from accepted_options_interval [OF this] show ?thesis by (simp add: development_options_def)
qed

end
