(* ===== verification/Gateway_App.thy ===== *)
theory Gateway_App
  imports Gateway Options "HOL-Library.Multiset"
begin

text \<open>
  The gateway as a program: its options (\<open>config/app_options.go\<close>), the routes and their
  middlewares (\<open>router/routes.go\<close>, \<open>middleware/request_timeout.go\<close>, \<open>app.buildRouter\<close>) and the
  request metrics (\<open>observability/http_metrics.go\<close>).
\<close>

section \<open>Options\<close>

record GatewayOptions =
  gwo_AppPort :: string
  gwo_ManagementPort :: string
  gwo_CatalogReadGrpcAddr :: string
  gwo_CatalogWriteGrpcAddr :: string
  gwo_OrderGrpcUrl :: string
  gwo_RequestTimeout :: goint
  gwo_GRPCReadTimeout :: goint
  gwo_GRPCWriteTimeout :: goint
  gwo_ReadHeaderTimeout :: goint
  gwo_ReadTimeout :: goint
  gwo_WriteTimeout :: goint
  gwo_IdleTimeout :: goint

definition GatewayOptions_Validate :: "GatewayOptions \<Rightarrow> err option" where
  "GatewayOptions_Validate options =
     or_else
       (required ''AppOptions''
        [(''appPort'', gwo_AppPort options), (''managementPort'', gwo_ManagementPort options),
         (''catalogReadGrpcAddr'', gwo_CatalogReadGrpcAddr options),
         (''catalogWriteGrpcAddr'', gwo_CatalogWriteGrpcAddr options), (''orderGrpcUrl'', gwo_OrderGrpcUrl options)])
       (or_else
         (positive ''AppOptions''
          [(''requestTimeout'', gwo_RequestTimeout options), (''grpcReadTimeout'', gwo_GRPCReadTimeout options),
           (''grpcWriteTimeout'', gwo_GRPCWriteTimeout options), (''readHeaderTimeout'', gwo_ReadHeaderTimeout options),
           (''readTimeout'', gwo_ReadTimeout options), (''writeTimeout'', gwo_WriteTimeout options),
           (''idleTimeout'', gwo_IdleTimeout options)])
         (if sint (gwo_WriteTimeout options) \<le> sint (gwo_RequestTimeout options)
          then Some (Msg ''AppOptions.writeTimeout must be greater than requestTimeout'')
          else if sint (gwo_RequestTimeout options) \<le> sint (gwo_GRPCReadTimeout options)
          then Some (Msg ''AppOptions.grpcReadTimeout must be shorter than requestTimeout'')
          else if sint (gwo_RequestTimeout options) \<le> sint (gwo_GRPCWriteTimeout options)
          then Some (Msg ''AppOptions.grpcWriteTimeout must be shorter than requestTimeout'')
          else None))"

section \<open>Routes\<close>

datatype route =
    GetProductsRoute
  | SearchProductsRoute
  | CreateProductRoute
  | GetOrdersRoute
  | GetOrderRoute
  | CreateOrderRoute
  | SwaggerRoute

type_synonym route_table = "(string \<times> string \<times> route) list"

definition RegisterProductRoutes :: "string \<Rightarrow> route_table" where
  "RegisterProductRoutes base =
     [(''GET'', base @ ''/products'', GetProductsRoute),
      (''GET'', base @ ''/products/search'', SearchProductsRoute),
      (''POST'', base @ ''/products'', CreateProductRoute)]"

definition RegisterOrderRoutes :: "string \<Rightarrow> route_table" where
  "RegisterOrderRoutes base =
     [(''GET'', base @ ''/orders'', GetOrdersRoute),
      (''GET'', base @ ''/orders/:id'', GetOrderRoute),
      (''POST'', base @ ''/orders'', CreateOrderRoute)]"

definition gateway_routes :: route_table where
  "gateway_routes =
     (''GET'', ''/swagger/*any'', SwaggerRoute)
       # RegisterProductRoutes ''/api/v1'' @ RegisterOrderRoutes ''/api/v1''"

text \<open>
  A request: the method, the path, what \<open>c.Query("q")\<close> returns, and the body. The router package
  matches it against the table; its match gives the pattern, the route and what \<open>c.Param("id")\<close>
  returns. What the package itself answers to an unmatched request, and the pages of the
  documentation, are parameters.
\<close>

record http_request =
  hr_method :: string
  hr_path :: string
  hr_q :: string
  hr_body :: body

type_synonym matcher = "route_table \<Rightarrow> string \<Rightarrow> string \<Rightarrow> (string \<times> route \<times> string) option"

record 's gateway =
  gw_read :: "'s ReadCatalogClient"
  gw_write :: "'s WriteCatalogClient"
  gw_order :: "'s OrderClient"
  gw_validate :: validator
  gw_bindError :: "body \<Rightarrow> err"
  gw_match :: matcher
  gw_requestTimeout :: duration
  gw_swagger :: "string \<Rightarrow> http_reply"
  gw_unmatched :: http_reply

definition RequestTimeout :: "duration \<Rightarrow> time \<Rightarrow> ctx \<Rightarrow> ctx" where
  "RequestTimeout d now ctx = WithTimeout ctx now d"

text \<open>
  \<open>t1\<close> is the time at which the timeout middleware runs, \<open>t2\<close> the time at which the client
  makes its call.
\<close>

definition serve_route :: "'s gateway \<Rightarrow> time \<Rightarrow> time \<Rightarrow> route \<Rightarrow> string \<Rightarrow> http_request \<Rightarrow> 's \<Rightarrow> http_reply \<times> 's" where
  "serve_route G t1 t2 r param req s =
     (let ctx = RequestTimeout (gw_requestTimeout G) t1 None
      in case r of
           GetProductsRoute \<Rightarrow> handler_GetProducts (gw_read G) t2 ctx s
         | SearchProductsRoute \<Rightarrow> handler_SearchProducts (gw_read G) t2 ctx (hr_q req) s
         | CreateProductRoute \<Rightarrow> handler_CreateProduct (gw_write G) (gw_validate G) (gw_bindError G) t2 ctx (hr_body req) s
         | GetOrdersRoute \<Rightarrow> handler_GetOrders (gw_order G) t2 ctx s
         | GetOrderRoute \<Rightarrow> handler_GetOrder (gw_order G) t2 ctx param s
         | CreateOrderRoute \<Rightarrow> handler_CreateOrder (gw_order G) (gw_bindError G) t2 ctx (hr_body req) s
         | SwaggerRoute \<Rightarrow> (gw_swagger G (hr_path req), s))"

text \<open>The pattern of the matched route, the reply, and the state behind the clients.\<close>

definition gateway_serve :: "'s gateway \<Rightarrow> time \<Rightarrow> time \<Rightarrow> http_request \<Rightarrow> 's \<Rightarrow> string \<times> http_reply \<times> 's" where
  "gateway_serve G t1 t2 req s =
     (case gw_match G gateway_routes (hr_method req) (hr_path req) of
        None \<Rightarrow> ('''', gw_unmatched G, s)
      | Some (pattern, r, param) \<Rightarrow> (pattern, serve_route G t1 t2 r param req s))"

section \<open>Metrics\<close>

text \<open>A counter vector is the multiset of the label values it has been incremented for.\<close>

definition unmatchedRoute :: string where "unmatchedRoute = ''unmatched''"

record http_metrics =
  mt_requests :: "(string \<times> string \<times> string) multiset"
  mt_errors :: "(string \<times> string) multiset"
  mt_inFlight :: int
  mt_duration :: "((string \<times> string \<times> string) \<times> duration) multiset"

definition NewHTTPMetrics :: http_metrics where
  "NewHTTPMetrics = \<lparr>mt_requests = {#}, mt_errors = {#}, mt_inFlight = 0, mt_duration = {#}\<rparr>"

definition metrics_begin :: "http_metrics \<Rightarrow> http_metrics" where
  "metrics_begin m = m\<lparr>mt_inFlight := mt_inFlight m + 1\<rparr>"

definition metrics_end :: "string \<Rightarrow> string \<Rightarrow> nat \<Rightarrow> duration \<Rightarrow> http_metrics \<Rightarrow> http_metrics" where
  "metrics_end method fullPath status elapsed m =
     (let rt = (if fullPath = [] then unmatchedRoute else fullPath);
          label = (method, rt, itoa (int status))
      in m\<lparr>mt_inFlight := mt_inFlight m - 1,
           mt_requests := add_mset label (mt_requests m),
           mt_duration := add_mset (label, elapsed) (mt_duration m),
           mt_errors := (if 500 \<le> status then add_mset (method, rt) (mt_errors m) else mt_errors m)\<rparr>)"

text \<open>A request through the metrics middleware.\<close>

definition gateway_request ::
  "'s gateway \<Rightarrow> time \<Rightarrow> time \<Rightarrow> duration \<Rightarrow> http_request \<Rightarrow> http_metrics \<times> 's \<Rightarrow> http_reply \<times> http_metrics \<times> 's" where
  "gateway_request G t1 t2 elapsed req ms =
     (let m = metrics_begin (fst ms);
          (pattern, reply, s) = gateway_serve G t1 t2 req (snd ms)
      in (reply, metrics_end (hr_method req) pattern (fst reply) elapsed m, s))"

text \<open>
  Requests overlap: what the metrics count, over the requests that are being handled and the
  list of those that have been.
\<close>

record finished =
  fd_method :: string
  fd_path :: string
  fd_status :: nat
  fd_elapsed :: duration

inductive metrics_step :: "http_metrics \<times> nat \<times> finished list \<Rightarrow> http_metrics \<times> nat \<times> finished list \<Rightarrow> bool" where
  arrive: "metrics_step (m, n, fs) (metrics_begin m, Suc n, fs)"
| leave: "metrics_step (m, Suc n, fs)
    (metrics_end (fd_method f) (fd_path f) (fd_status f) (fd_elapsed f) m, n, f # fs)"

definition fd_route :: "finished \<Rightarrow> string" where
  "fd_route f = (if fd_path f = [] then unmatchedRoute else fd_path f)"

definition fd_label :: "finished \<Rightarrow> string \<times> string \<times> string" where
  "fd_label f = (fd_method f, fd_route f, itoa (int (fd_status f)))"

definition counts :: "http_metrics \<times> nat \<times> finished list \<Rightarrow> bool" where
  "counts x = (case x of (m, n, fs) \<Rightarrow>
     mt_inFlight m = int n \<and> mt_requests m = mset (map fd_label fs)
     \<and> mt_duration m = mset (map (\<lambda>f. (fd_label f, fd_elapsed f)) fs)
     \<and> mt_errors m = mset (map (\<lambda>f. (fd_method f, fd_route f)) (filter (\<lambda>f. 500 \<le> fd_status f) fs)))"

lemma metrics_step_counts: "metrics_step x y \<Longrightarrow> counts x \<Longrightarrow> counts y"
  by (induction rule: metrics_step.induct)
    (auto simp: counts_def metrics_begin_def metrics_end_def Let_def fd_label_def fd_route_def)

lemma metrics_steps_counts: "metrics_step\<^sup>*\<^sup>* x y \<Longrightarrow> counts x \<Longrightarrow> counts y"
  by (induction rule: rtranclp_induct) (auto intro: metrics_step_counts)

section \<open>Deadlines\<close>

text \<open>The clients are made with the timeouts of the options.\<close>

definition configured :: "GatewayOptions \<Rightarrow> 's gateway \<Rightarrow> bool" where
  "configured options G \<longleftrightarrow>
     oc_readTimeout (gw_order G) = sint (gwo_GRPCReadTimeout options)
     \<and> oc_writeTimeout (gw_order G) = sint (gwo_GRPCWriteTimeout options)
     \<and> rc_timeout (gw_read G) = sint (gwo_GRPCReadTimeout options)
     \<and> wc_timeout (gw_write G) = sint (gwo_GRPCWriteTimeout options)
     \<and> gw_requestTimeout G = sint (gwo_RequestTimeout options)"

text \<open>
  \<open>logged G\<close> is the gateway \<open>G\<close> with every stub writing down its context, and whether its call is one
  that writes, before it does what the stub of \<open>G\<close> does.
\<close>

type_synonym call_log = "(bool \<times> ctx) list"

definition log_call :: "bool \<Rightarrow> ctx \<Rightarrow> ('s \<Rightarrow> 'r \<times> 's) \<Rightarrow> 's \<times> call_log \<Rightarrow> 'r \<times> 's \<times> call_log" where
  "log_call w ctx f x = (fst (f (fst x)), snd (f (fst x)), snd x @ [(w, ctx)])"

definition logged :: "'s gateway \<Rightarrow> ('s \<times> call_log) gateway" where
  "logged G =
     \<lparr>gw_read = \<lparr>rc_client =
          \<lparr>st_GetProducts = (\<lambda>ctx. log_call False ctx (st_GetProducts (rc_client (gw_read G)) ctx)),
           st_SearchProducts = (\<lambda>ctx q. log_call False ctx (st_SearchProducts (rc_client (gw_read G)) ctx q))\<rparr>,
        rc_timeout = rc_timeout (gw_read G)\<rparr>,
      gw_write = \<lparr>wc_client = (\<lambda>ctx n d p. log_call True ctx (wc_client (gw_write G) ctx n d p)),
        wc_timeout = wc_timeout (gw_write G)\<rparr>,
      gw_order = \<lparr>oc_client =
          \<lparr>st_CreateOrder = (\<lambda>ctx q. log_call True ctx (st_CreateOrder (oc_client (gw_order G)) ctx q)),
           st_GetOrder = (\<lambda>ctx i. log_call False ctx (st_GetOrder (oc_client (gw_order G)) ctx i)),
           st_GetOrders = (\<lambda>ctx. log_call False ctx (st_GetOrders (oc_client (gw_order G)) ctx))\<rparr>,
        oc_readTimeout = oc_readTimeout (gw_order G), oc_writeTimeout = oc_writeTimeout (gw_order G)\<rparr>,
      gw_validate = gw_validate G, gw_bindError = gw_bindError G, gw_match = gw_match G,
      gw_requestTimeout = gw_requestTimeout G, gw_swagger = gw_swagger G, gw_unmatched = gw_unmatched G\<rparr>"

lemma answer_log_call:
  "answer ok convert message (log_call w ctx f x)
     = (fst (answer ok convert message (f (fst x))), snd (answer ok convert message (f (fst x))), snd x @ [(w, ctx)])"
  by (simp add: answer_def log_call_def split: prod.split sum.split)

lemmas client_defs = OrderClient_CreateOrder_def OrderClient_GetOrder_def OrderClient_GetOrders_def ReadClient_GetProducts_def
  ReadClient_SearchProducts_def WriteClient_CreateProducts_def

lemmas handler_defs = handler_CreateOrder_def handler_GetOrder_def handler_GetOrders_def handler_GetProducts_def
  handler_SearchProducts_def handler_CreateProduct_def

lemma serve_route_logged:
  assumes "configured options G"
  obtains calls where "serve_route (logged G) t1 t2 r param req (s, [])
      = (fst (serve_route G t1 t2 r param req s), snd (serve_route G t1 t2 r param req s), calls)"
    and "calls = [] \<and> snd (serve_route G t1 t2 r param req s) = s
      \<or> calls = [(False, Some (min (t1 + sint (gwo_RequestTimeout options)) (t2 + sint (gwo_GRPCReadTimeout options))))]
      \<or> calls = [(True, Some (min (t1 + sint (gwo_RequestTimeout options)) (t2 + sint (gwo_GRPCWriteTimeout options))))]"
proof -
  let ?run = "serve_route (logged G) t1 t2 r param req (s, [])"
  have "?run = (fst (serve_route G t1 t2 r param req s), snd (serve_route G t1 t2 r param req s), snd (snd ?run))
    \<and> (snd (snd ?run) = [] \<and> snd (serve_route G t1 t2 r param req s) = s
      \<or> snd (snd ?run) = [(False, Some (min (t1 + sint (gwo_RequestTimeout options)) (t2 + sint (gwo_GRPCReadTimeout options))))]
      \<or> snd (snd ?run) = [(True, Some (min (t1 + sint (gwo_RequestTimeout options)) (t2 + sint (gwo_GRPCWriteTimeout options))))])"
    using assms
    by (cases r)
      (simp_all add: serve_route_def logged_def configured_def RequestTimeout_def WithTimeout_def Let_def handler_defs client_defs
        answer_log_call split: option.split)
  then show thesis using that by blast
qed

end
