(* ===== verification/Gateway_Properties.thy ===== *)
theory Gateway_Properties
  imports Gateway_App Order_Properties Catalog_Properties
begin

text \<open>
  The properties of the gateway: what a client that posts an order or a product can conclude
  from the reply, how the deadlines nest, and what the metrics count.
\<close>

declare fold_name.simps [simp del]

section \<open>A service behind gRPC\<close>

text \<open>
  The codes the gRPC library itself gives to a call that fails on its way; the documentation
  lists the others as left to the application.
\<close>

definition library_code :: "grpc_code \<Rightarrow> bool" where
  "library_code c \<longleftrightarrow>
     c \<notin> {OK, InvalidArgument, NotFound, AlreadyExists, FailedPrecondition, Aborted, OutOfRange, DataLoss}"

text \<open>What the client sees of the server's answer.\<close>

fun delivered :: "err + 'a \<Rightarrow> err + 'a \<Rightarrow> bool" where
  "delivered (Inr x) r = (r = Inr x)"
| "delivered (Inl (Status c m)) r = (r = Inl (Status c m))"
| "delivered (Inl e) r = (\<exists>c m. r = Inl (Status c m) \<and> library_code c)"

text \<open>
  A call either fails on its way, and the server has not handled it, or has handled it
  completely although the answer was lost; or the answer is delivered.
\<close>

definition remote :: "('s \<Rightarrow> err + 'a \<Rightarrow> 's \<Rightarrow> bool) \<Rightarrow> ('s \<Rightarrow> (err + 'a) \<times> 's) \<Rightarrow> bool" where
  "remote serve stub \<longleftrightarrow> (\<forall>s r s'. stub s = (r, s') \<longrightarrow>
     (let lost = (\<exists>c m. r = Inl (Status c m) \<and> library_code c)
      in s' = s \<and> lost \<or> (\<exists>r0. serve s r0 s' \<and> (delivered r0 r \<or> lost))))"

lemma remote_cases [consumes 2, case_names unreached lost answered]:
  assumes "remote serve stub" and "stub s = (r, s')"
  obtains c m where "s' = s" "r = Inl (Status c m)" "library_code c"
  | r0 c m where "serve s r0 s'" "r = Inl (Status c m)" "library_code c"
  | r0 where "serve s r0 s'" "delivered r0 r"
  using assms unfolding remote_def Let_def by metis

lemma library_reply:
  "library_code c \<Longrightarrow>
     \<exists>status m'. writeServiceError (Status c m) 500 message = (status, ErrorResponse m') \<and> status \<in> {500, 502, 504}"
  by (cases c) (simp_all add: writeServiceError_def library_code_def status_Code_def)

text \<open>
  A handler's reply to a call: the converted answer, the reply for the server's error, or the
  reply for a call that was lost on its way or on its way back.
\<close>

lemma remote_answer [consumes 3, case_names answered refused lost]:
  assumes "remote serve stub" and "\<forall>e t. serve s (Inl e) t \<longrightarrow> (\<exists>c m. e = Status c m)"
    and "answer ok convert message (stub s) = ((status, val), s')"
  obtains x where "serve s (Inr x) s'" "status = ok" "val = convert x"
  | e where "serve s (Inl e) s'" "writeServiceError e 500 message = (status, val)"
  | "status \<in> {500, 502, 504}" "\<exists>m. val = ErrorResponse m" "s' = s \<or> (\<exists>r0. serve s r0 s')"
proof -
  obtain r where call: "stub s = (r, s')"
    using assms(3) by (auto simp: answer_def split: prod.splits sum.splits)
  have reply: "answer ok convert message (r, s') = ((status, val), s')" using assms(3) call by simp
  have library: "status \<in> {500, 502, 504} \<and> (\<exists>m. val = ErrorResponse m)"
    if r: "r = Inl (Status c m)" and c: "library_code c" for c m
  proof -
    from reply r have "writeServiceError (Status c m) 500 message = (status, val)" by (simp add: answer_def)
    with library_reply [OF c, of m message] show ?thesis by auto
  qed
  from assms(1) call show thesis
  proof (cases rule: remote_cases)
    case (unreached c m)
    then show thesis using library [OF unreached(2,3)] that(3) by blast
  next
    case (lost r0 c m)
    then show thesis using library [OF lost(2,3)] that(3) by blast
  next
    case (answered r0)
    show thesis
    proof (cases r0)
      case (Inr x)
      then show thesis using answered reply that(1) by (simp add: answer_def)
    next
      case (Inl e)
      then obtain c m where "e = Status c m" using assms(2) answered(1) by blast
      then show thesis using Inl answered reply that(2) by (simp add: answer_def)
    qed
  qed
qed

section \<open>Posting an order\<close>



text \<open>
  What a posted order comes to, field by field over the JSON body's values. A quantity that does
  not fit 32 bits is reduced by a multiple of \<open>2^32\<close>.
\<close>

definition wrap32 :: "goint \<Rightarrow> goint" where
  "wrap32 q = word_of_int ((sint q + 2 ^ 31) mod 2 ^ 32 - 2 ^ 31)"


text \<open>The reply that shows an order: every field and every item.\<close>

definition order_reply :: "(uuid \<Rightarrow> string) \<Rightarrow> order \<Rightarrow> reply_value" where
  "order_reply ustr ord = OrderJSON
     \<lparr>ro_id = ustr (od_id ord), ro_customer_id = ustr (od_customer_id ord), ro_status = od_status ord,
      ro_total_amount = od_total_amount ord,
      ro_items = map (\<lambda>it. \<lparr>ri_id = ustr (oi_id it), ri_order_id = ustr (oi_order_id it),
          ri_product_id = ustr (oi_product_id it), ri_product_name = oi_product_name it,
          ri_unit_price = oi_unit_price it, ri_quantity = wrap32 (oi_quantity it),
          ri_subtotal = oi_subtotal it\<rparr>) (od_items ord)\<rparr>"

text \<open>The body a client posts for a request, its numbers as literals.\<close>

definition posted_item :: "order_request_item \<Rightarrow> json" where
  "posted_item item = JObj [(''product_id'', JStr (gi_product_id item)), (''product_name'', JStr (gi_product_name item)),
     (''unit_price'', JNum None (gi_unit_price item)), (''quantity'', j_int (gi_quantity item))]"

definition posted_body :: "order_request \<Rightarrow> body" where
  "posted_body req = Doc (JObj [(''customer_id'', JStr (gr_customer_id req)),
     (''order_items'', JArr (map posted_item (gr_order_items req)))])"

lemma posted_names [decode_simps]:
  "fold_name ''customer_id'' = ''customer_id''" "fold_name ''order_items'' = ''order_items''"
  "fold_name ''product_name'' = ''product_name''" "fold_name ''unit_price'' = ''unit_price''"
  by code_simp+


lemma sint_to_int32_wrap: "sint (to_int32 q) = (sint q + 2 ^ 31) mod 2 ^ 32 - 2 ^ 31"
proof -
  have "sint (word_of_int k :: int32) = signed_take_bit 31 k" for k
    by (simp add: sint_sbintrunc')
  then have "sint (to_int32 q) = signed_take_bit 31 (sint q)" unfolding to_int32_def .
  then show ?thesis by (simp add: signed_take_bit_eq_take_bit_shift take_bit_eq_mod)
qed

lemma to_int_to_int32_wrap: "to_int (to_int32 q) = wrap32 q"
  unfolding to_int_def wrap32_def by (simp only: sint_to_int32_wrap)


lemma converted_reply: "OrderJSON (FromOrderResponse (toProtoOrder ustr ord)) = order_reply ustr ord"
  by (simp add: order_reply_def FromOrderResponse_def toProtoOrder_def FromOrderItem_def toProtoItem_def
      to_int_to_int32_wrap)

lemma serviceError_reply:
  "\<exists>status m. writeServiceError (serviceError e Internal) 500 message = (status, ErrorResponse m) \<and> status \<in> {404, 500, 502, 504}"
  by (simp add: serviceError_def writeServiceError_def status_Code_def)

lemma serviceError_status: "\<exists>c m. serviceError e Internal = Status c m"
  by (simp add: serviceError_def)




text \<open>The order service without a network in between, for the witnesses.\<close>

definition loopback :: "order_store order_stub" where
  "loopback =
     \<lparr>st_CreateOrder = (\<lambda>ctx req s. order_CreateOrder ref_order_db ref_ozzo ref_parse ref_ustr ids 0 0 s req),
      st_GetOrder = (\<lambda>ctx i s. (order_GetOrder ref_order_db ref_parse ref_ustr s i, s)),
      st_GetOrders = (\<lambda>ctx s. (order_GetOrders ref_order_db ref_ustr s, s))\<rparr>"

definition loopback_client :: "order_store OrderClient" where
  "loopback_client = \<lparr>oc_client = loopback, oc_readTimeout = 2000000000, oc_writeTimeout = 5000000000\<rparr>"


definition posted_request :: order_request where
  "posted_request = \<lparr>gr_customer_id = ''300'', gr_order_items =
     [\<lparr>gi_product_id = ''7'', gi_product_name = ''pen'', gi_unit_price = Fin 3, gi_quantity = 2\<rparr>,
      \<lparr>gi_product_id = ''8'', gi_product_name = ''ink'', gi_unit_price = Fin 5, gi_quantity = 1\<rparr>]\<rparr>"

definition post_run :: "http_reply \<times> order_store" where
  "post_run = handler_CreateOrder loopback_client (\<lambda>_. json_error) 0 None (posted_body posted_request) empty_orders"


text \<open>
  The quantity of an ordered item passes the gateway as posted exactly when it fits 32 bits.
  The gateway does not check this: another quantity is silently replaced by one that differs from
  it by a multiple of \<open>2^32\<close>, and 4294967297 pieces are ordered as 1.
\<close>

theorem gateway_quantity:
  "(to_int (cq_quantity (FromOrderRequestItem item)) = gi_quantity item
      \<longleftrightarrow> - (2 ^ 31) \<le> sint (gi_quantity item) \<and> sint (gi_quantity item) < 2 ^ 31)
    \<and> 2 ^ 32 dvd sint (to_int (cq_quantity (FromOrderRequestItem item))) - sint (gi_quantity item)
    \<and> to_int (cq_quantity (FromOrderRequestItem (item\<lparr>gi_quantity := 4294967297\<rparr>))) = 1"
proof -
  let ?q = "gi_quantity item"
  have q: "cq_quantity (FromOrderRequestItem x) = to_int32 (gi_quantity x)" for x :: order_request_item
    by (simp add: FromOrderRequestItem_def)
  have "to_int (to_int32 ?q) = ?q \<longleftrightarrow> - (2 ^ 31) \<le> sint ?q \<and> sint ?q < 2 ^ 31"
  proof
    assume "to_int (to_int32 ?q) = ?q"
    then have "sint ?q = sint (to_int32 ?q)" by (metis sint_to_int)
    then show "- (2 ^ 31) \<le> sint ?q \<and> sint ?q < 2 ^ 31" using sint32_bounds [of "to_int32 ?q"] by simp
  qed (simp add: to_int_to_int32)
  moreover have k: "sint (to_int32 ?q) - sint ?q = (sint ?q + 2 ^ 31) mod 2 ^ 32 - (sint ?q + 2 ^ 31)"
    by (simp add: sint_to_int32_wrap)
  have "2 ^ 32 dvd sint (to_int (to_int32 ?q)) - sint ?q"
    unfolding sint_to_int k by (metis dvd_diff_commute dvd_minus_mod)
  moreover have "to_int (to_int32 4294967297) = 1" by code_simp
  ultimately show ?thesis unfolding q by simp
qed

section \<open>Getting an order\<close>

text \<open>
  No error of a query is the repository's own \<open>ErrOrderNotFound\<close>, and \<open>Find\<close>, unlike \<open>First\<close>, does
  not report that nothing was found.
\<close>

definition queries_report :: "'s order_db \<Rightarrow> bool" where
  "queries_report D \<longleftrightarrow>
     (\<forall>s p e. g_first (db_orders D) s p = Inl e \<longrightarrow> \<not> errors_Is e ErrOrderNotFound) \<and>
     (\<forall>s p e. g_find (db_items D) s p = Inl e \<longrightarrow> \<not> errors_Is e ErrOrderNotFound \<and> \<not> errors_Is e ErrRecordNotFound)"

lemma GetOrder_missing:
  assumes "order_db_laws D" and "queries_report D" and "GetOrder D s i = Inl e" and "errors_Is e ErrOrderNotFound"
  shows "g_rows (db_orders D) s i = None"
proof -
  from assms(2-4) have e: "e = ErrOrderNotFound"
    by (auto simp: GetOrder_def queries_report_def split: sum.splits if_splits)
  show ?thesis
  proof (rule GetOrder_not_found [OF assms(1) assms(3) [unfolded e]])
    show "\<not> errors_Is e' ErrRecordNotFound \<and> e' \<noteq> ErrOrderNotFound" if "g_find (db_items D) s p = Inl e'" for p e'
      using assms(2) that errors_Is_refl unfolding queries_report_def by metis
    show "g_first (db_orders D) s p \<noteq> Inl ErrOrderNotFound" for p
      using assms(2) errors_Is_refl unfolding queries_report_def by metis
  qed
qed

text \<open>
  What the reply shows of an order's rows: the columns of the order's row, and the columns of every
  item row of this order, each row once.
\<close>

definition shown_order :: "'s order_db \<Rightarrow> (uuid \<Rightarrow> string) \<Rightarrow> 's \<Rightarrow> uuid \<Rightarrow> reply_value \<Rightarrow> bool" where
  "shown_order D ustr s i val \<longleftrightarrow>
     (\<exists>r items. g_rows (db_orders D) s i = Some r \<and>
        lists_rows (g_rows (db_items D) s) (\<lambda>q. ir_order_id q = i) items \<and>
        val = OrderJSON
          \<lparr>ro_id = ustr i, ro_customer_id = ustr (or_customer_id r), ro_status = or_status r,
           ro_total_amount = or_total_amount r,
           ro_items = map (\<lambda>q. \<lparr>ri_id = ustr (ir_id q), ri_order_id = ustr i,
               ri_product_id = ustr (ir_product_id q), ri_product_name = ir_product_name q,
               ri_unit_price = ir_unit_price q, ri_quantity = wrap32 (ir_quantity q),
               ri_subtotal = ir_subtotal q\<rparr>) items\<rparr>)"

lemma GetOrder_shown:
  assumes "order_db_laws D" and "GetOrder D s i = Inr ord"
  shows "shown_order D ustr s i (OrderJSON (FromOrderResponse (toProtoOrder ustr ord)))"
proof -
  from GetOrder_rows [OF assms] obtain r items where rows: "g_rows (db_orders D) s i = Some r" "or_id r = i"
    "lists_rows (g_rows (db_items D) s) (\<lambda>q. ir_order_id q = i) items" and ord: "ord = toDomainOrder r items" .
  have "ir_order_id q = i" if "q \<in> set items" for q using lists_rows_set [OF rows(3)] that by simp
  then have "OrderJSON (FromOrderResponse (toProtoOrder ustr ord)) = OrderJSON
          \<lparr>ro_id = ustr i, ro_customer_id = ustr (or_customer_id r), ro_status = or_status r,
           ro_total_amount = or_total_amount r,
           ro_items = map (\<lambda>q. \<lparr>ri_id = ustr (ir_id q), ri_order_id = ustr i,
               ri_product_id = ustr (ir_product_id q), ri_product_name = ir_product_name q,
               ri_unit_price = ir_unit_price q, ri_quantity = wrap32 (ir_quantity q),
               ri_subtotal = ir_subtotal q\<rparr>) items\<rparr>"
    unfolding converted_reply ord by (simp add: order_reply_def toDomainOrder_def toDomainOrderItems_def rows(2))
  with rows show ?thesis unfolding shown_order_def by blast
qed

text \<open>
  C32: Getting an order through the gateway is looking up its rows. Over a network that loses calls
  and answers, the request changes nothing; 200 comes with the columns of the order's row and, once
  each, of every item row of the order, the quantity reduced to 32 bits; 404 only when there is no
  row with this id; 400 only for a text that is no id; anything else is 500, 502 or 504 with an
  error text.
\<close>

theorem gateway_get_order:
  assumes "order_db_laws D" and "queries_report D"
    and "\<And>ctx. remote (\<lambda>s r t. t = s \<and> r = order_GetOrder D parse ustr s orderID) (st_GetOrder (oc_client c) ctx orderID)"
    and "handler_GetOrder c now ctx orderID s = ((status, val), s')"
  shows "s' = s \<and>
     ((status = 200 \<and> (\<exists>i. parse orderID = Some i \<and> shown_order D ustr s i val)) \<or>
      (status = 404 \<and> (\<exists>m. val = ErrorResponse m) \<and> (\<exists>i. parse orderID = Some i \<and> g_rows (db_orders D) s i = None)) \<or>
      (status = 400 \<and> (\<exists>m. val = ErrorResponse m) \<and> parse orderID = None) \<or>
      (status \<in> {500, 502, 504} \<and> (\<exists>m. val = ErrorResponse m)))"
proof -
  let ?serve = "\<lambda>s r t. t = s \<and> r = order_GetOrder D parse ustr s orderID"
  have reply: "answer 200 (OrderJSON \<circ> FromOrderResponse) ''failed to get order ''
      (st_GetOrder (oc_client c) (WithTimeout ctx now (oc_readTimeout c)) orderID s) = ((status, val), s')"
    using assms(4) by (simp add: handler_GetOrder_def OrderClient_GetOrder_def)
  have status: "\<forall>e t. ?serve s (Inl e) t \<longrightarrow> (\<exists>cd m. e = Status cd m)"
    using serviceError_status by (auto simp: order_GetOrder_def server_GetOrder_def split: option.splits sum.splits)
  from assms(3) status reply show ?thesis
  proof (cases rule: remote_answer)
    case (answered x)
    then obtain i ord where "parse orderID = Some i" "GetOrder D s i = Inr ord" "x = toProtoOrder ustr ord"
      by (auto simp: order_GetOrder_def server_GetOrder_def split: option.splits sum.splits)
    then show ?thesis using answered GetOrder_shown [OF assms(1)] by auto
  next
    case (refused e)
    show ?thesis
    proof (cases "parse orderID")
      case None
      with refused have "e = Status InvalidArgument ''invalid order_id''"
        by (simp add: order_GetOrder_def server_GetOrder_def)
      with refused None show ?thesis by (auto simp: writeServiceError_def status_Code_def)
    next
      case (Some i)
      with refused(1) obtain err where err: "GetOrder D s i = Inl err" "e = serviceError err Internal"
        by (auto simp: order_GetOrder_def server_GetOrder_def split: sum.splits)
      show ?thesis
      proof (cases "errors_Is err ErrOrderNotFound")
        case True
        with serviceError_reply [of err "''failed to get order ''"] refused err Some
          GetOrder_missing [OF assms(1,2) err(1)] show ?thesis by auto
      next
        case False
        then have "status \<in> {500, 504}" "\<exists>m. val = ErrorResponse m"
          using refused(2) unfolding err(2)
          by (auto simp: serviceError_def writeServiceError_def status_Code_def split: if_splits)
        with refused(1) show ?thesis by auto
      qed
    qed
  next
    case lost
    then show ?thesis by auto
  qed
qed

lemma loopback_get_remote:
  "remote (\<lambda>s r t. t = s \<and> r = order_GetOrder ref_order_db ref_parse ref_ustr s orderID)
     (st_GetOrder (oc_client loopback_client) ctx orderID)"
proof -
  have "delivered r r" if "r = order_GetOrder ref_order_db ref_parse ref_ustr s orderID" for r s
    using that serviceError_status
    by (cases r) (auto simp: order_GetOrder_def server_GetOrder_def serviceError_def split: option.splits sum.splits if_splits)
  then show ?thesis by (auto simp: remote_def Let_def loopback_client_def loopback_def)
qed

lemma ref_queries_report: "queries_report ref_order_db"
  by (auto simp: queries_report_def ref_order_db_def ref_gorm_def split: list.splits)

text \<open>The order that was posted is found, and another one is not.\<close>

theorem gateway_get_order_witness:
  "shown_order ref_order_db ref_ustr (snd post_run) 200
     (snd (fst (handler_GetOrder loopback_client 0 None ''200'' (snd post_run)))) \<and>
   g_rows (db_orders ref_order_db) (snd post_run) 201 = None"
proof -
  note t = gateway_get_order [OF ref_order_db_laws ref_queries_report loopback_get_remote]
  have found: "fst (fst (handler_GetOrder loopback_client 0 None ''200'' (snd post_run))) = 200" by code_simp
  have missing: "fst (fst (handler_GetOrder loopback_client 0 None ''201'' (snd post_run))) = 404" by code_simp
  have ids: "ref_parse ''200'' = Some 200" "ref_parse ''201'' = Some 201" by code_simp+
  have "shown_order ref_order_db ref_ustr (snd post_run) 200
     (snd (fst (handler_GetOrder loopback_client 0 None ''200'' (snd post_run))))"
    using t [of 0 None "''200''" "snd post_run" 200] found ids
    by (cases "handler_GetOrder loopback_client 0 None ''200'' (snd post_run)") auto
  moreover have "g_rows (db_orders ref_order_db) (snd post_run) 201 = None"
    using t [of 0 None "''201''" "snd post_run" 404] missing ids
    by (cases "handler_GetOrder loopback_client 0 None ''201'' (snd post_run)") auto
  ultimately show ?thesis ..
qed

section \<open>Posting a product\<close>

definition product_serve ::
  "'s catalog_db \<Rightarrow> (uuid \<Rightarrow> string) \<Rightarrow> string \<Rightarrow> string \<Rightarrow> float64 \<Rightarrow> 's \<Rightarrow> err + proto_product \<Rightarrow> 's \<Rightarrow> bool" where
  "product_serve D ustr name description price s r s' \<longleftrightarrow>
     (\<exists>new now1 now2. (\<forall>i. new i \<noteq> 0) \<and> catalog_CreateProduct D ustr new now1 now2 s name description price = (r, s'))"

text \<open>
  What a client can conclude from the reply to a posted product. 201 says that the product
  is stored with its event, under its trimmed name. Any other reply is 400, 500, 502 or 504 with
  an error text, and the product is stored completely or not at all.
\<close>

theorem gateway_create_product:
  assumes "catalog_db_laws D" and "validator_laws validate"
    and "\<And>ctx name description price. remote (product_serve D ustr name description price) (wc_client c ctx name description price)"
    and "handler_CreateProduct c validate bindError now ctx b s = ((status, val), s')"
  shows "(status = 201 \<and> (\<exists>req p message. bind_product_request b = Some req \<and> product_created D s p message s'
        \<and> pd_name p = TrimSpace (gp_name req) \<and> pd_price p = gp_price req \<and> f_less (Zero False) (pd_price p)
        \<and> val = ProductJSON (FromCatalogProduct \<lparr>pp_id = ustr (pd_id p), pp_name = TrimSpace (gp_name req),
            pp_description = gp_description req, pp_price = gp_price req\<rparr>)))
    \<or> (status \<in> {400, 500, 502, 504} \<and> (\<exists>m. val = ErrorResponse m)
        \<and> (same_catalog_rows D s s' \<or> (\<exists>p message. product_created D s p message s')))"
proof -
  consider "s' = s" "status = 400" "\<exists>m. val = ErrorResponse m"
    | req where "bind_product_request b = Some req" "validate req = None"
    using assms(4) by (auto simp: handler_CreateProduct_def ProductRequest_Validate_def split: option.splits)
  then show ?thesis
  proof cases
    case 1
    then show ?thesis by (simp add: same_catalog_rows_def)
  next
    case (2 req)
    let ?n = "gp_name req" and ?d = "gp_description req" and ?p = "gp_price req"
    let ?stored = "same_catalog_rows D s s' \<or> (\<exists>p message. product_created D s p message s')"
    have price: "f_less (Zero False) ?p" using assms(2) 2(2) by (simp add: validator_laws_def)
    have served: "(same_catalog_rows D s t \<or> (\<exists>p message. product_created D s p message t))
        \<and> ((\<exists>m. r0 = Inl (Status InvalidArgument m))
        \<or> (\<exists>p message. product_created D s p message t \<and> pd_name p = TrimSpace ?n \<and> pd_price p = ?p
            \<and> r0 = Inr \<lparr>pp_id = ustr (pd_id p), pp_name = TrimSpace ?n, pp_description = ?d, pp_price = ?p\<rparr>))"
      if "product_serve D ustr ?n ?d ?p s r0 t" for r0 t
      using that catalog_CreateProduct_outcome [OF assms(1)] unfolding product_serve_def by blast
    have status: "\<forall>e t. product_serve D ustr ?n ?d ?p s (Inl e) t \<longrightarrow> (\<exists>cd m. e = Status cd m)"
      using served by fastforce
    have reply: "answer 201 (ProductJSON \<circ> FromCatalogProduct) ''failed to create products ''
        (wc_client c (WithTimeout ctx now (wc_timeout c)) ?n ?d ?p s) = ((status, val), s')"
      using assms(4) 2 by (simp add: handler_CreateProduct_def WriteClient_CreateProducts_def ProductRequest_Validate_def)
    from assms(3) status reply show ?thesis
    proof (cases rule: remote_answer)
      case (answered x)
      with served [OF answered(1)] 2(1) price show ?thesis by auto
    next
      case (refused e)
      from served [OF refused(1)] obtain m where "e = Status InvalidArgument m" by blast
      with refused(2) have "status = 400" "\<exists>m. val = ErrorResponse m"
        by (auto simp: writeServiceError_def status_Code_def)
      with served [OF refused(1)] show ?thesis by blast
    next
      case lost
      then have ?stored using served by (auto simp: same_catalog_rows_def)
      with lost show ?thesis by blast
    qed
  qed
qed

definition write_loopback :: "catalog_store WriteCatalogClient" where
  "write_loopback =
     \<lparr>wc_client = (\<lambda>ctx name description price s. catalog_CreateProduct ref_catalog_db ref_ustr counted 0 0 s name description price),
      wc_timeout = 5000000000\<rparr>"

lemma write_loopback_remote:
  "remote (product_serve ref_catalog_db ref_ustr name description price) (wc_client write_loopback ctx name description price)"
  unfolding remote_def Let_def
proof (intro allI impI disjI2)
  fix s r s'
  assume "wc_client write_loopback ctx name description price s = (r, s')"
  then have run: "catalog_CreateProduct ref_catalog_db ref_ustr counted 0 0 s name description price = (r, s')"
    by (simp add: write_loopback_def)
  have "delivered r r"
    using conjunct2 [OF catalog_CreateProduct_outcome [OF ref_catalog_db_laws counted_nonzero run]] by auto
  moreover have "product_serve ref_catalog_db ref_ustr name description price s r s'"
    unfolding product_serve_def using counted_nonzero run by blast
  ultimately show "\<exists>r0. product_serve ref_catalog_db ref_ustr name description price s r0 s' \<and>
      (delivered r0 r \<or> (\<exists>c m. r = Inl (Status c m) \<and> library_code c))" by blast
qed

definition ref_validate :: validator where
  "ref_validate r = (if gp_name r \<noteq> [] \<and> gp_description r \<noteq> [] \<and> f_less (Zero False) (gp_price r) then None
     else Some (Ext ''validation failed''))"

lemma ref_validate_laws: "validator_laws ref_validate"
  by (simp add: validator_laws_def ref_validate_def)

definition product_body :: body where
  "product_body = Doc (JObj [(''name'', JStr '' pen''), (''description'', JStr ''blue''), (''price'', JNum (Some 3) (Fin 3))])"

lemma product_body_bound:
  "bind_product_request product_body = Some \<lparr>gp_name = '' pen'', gp_description = ''blue'', gp_price = Fin 3\<rparr>"
  by (simp add: bind_product_request_def product_body_def product_request_fields_def dec_field_def decode_simps)

definition product_post :: "http_reply \<times> catalog_store" where
  "product_post = handler_CreateProduct write_loopback ref_validate (\<lambda>_. json_error) 0 None product_body no_products"

theorem gateway_create_product_witness:
  "fst (fst product_post) = 201 \<and>
   (\<exists>p message. product_created ref_catalog_db no_products p message (snd product_post) \<and> pd_price p = Fin 3)"
proof -
  have st: "fst (fst product_post) = 201" by code_simp
  have "handler_CreateProduct write_loopback ref_validate (\<lambda>_. json_error) 0 None product_body no_products
      = ((201, snd (fst product_post)), snd product_post)"
    using st by (simp add: product_post_def prod_eq_iff)
  from gateway_create_product [OF ref_catalog_db_laws ref_validate_laws write_loopback_remote this] product_body_bound
  have "\<exists>p message. product_created ref_catalog_db no_products p message (snd product_post) \<and> pd_price p = Fin 3" by auto
  with st show ?thesis by simp
qed

text \<open>
  Every failure the write service reports reaches the gateway's client as 400, also a failure
  of the database: whatever call of CreateProduct returns an error, a gateway whose stub delivers
  it replies 400. A client cannot tell its own mistake from an outage.
\<close>

theorem gateway_product_failure:
  assumes "catalog_CreateProduct D ustr new now1 now2 s (gp_name req) (gp_description req) (gp_price req) = (Inl err, s')"
    and "wc_client c (WithTimeout ctx now (wc_timeout c)) (gp_name req) (gp_description req) (gp_price req) s = (Inl err, s')"
    and "bind_product_request b = Some req"
  shows "\<exists>m t. handler_CreateProduct c validate bindError now ctx b s = ((400, ErrorResponse m), t)"
proof -
  obtain m where "err = Status InvalidArgument m"
    using assms(1) by (auto simp: catalog_CreateProduct_def server_CreateProduct_def split: prod.splits sum.splits)
  with assms(2,3) show ?thesis
    by (cases "validate req")
      (auto simp: handler_CreateProduct_def ProductRequest_Validate_def WriteClient_CreateProducts_def answer_def
        writeServiceError_def status_Code_def)
qed

text \<open>A database whose transactions always fail.\<close>

definition broken_catalog_db :: "catalog_store catalog_db" where
  "broken_catalog_db = ref_catalog_db\<lparr>ct_tx := (\<lambda>s body. (Some (Ext ''connection refused''), s))\<rparr>"

definition broken_client :: "catalog_store WriteCatalogClient" where
  "broken_client =
     \<lparr>wc_client = (\<lambda>ctx name description price s. catalog_CreateProduct broken_catalog_db ref_ustr counted 0 0 s name description price),
      wc_timeout = 5000000000\<rparr>"

definition broken_run :: "(err + proto_product) \<times> catalog_store" where
  "broken_run = catalog_CreateProduct broken_catalog_db ref_ustr counted 0 0 no_products '' pen'' ''blue'' (Fin 3)"

theorem gateway_product_failure_witness:
  "\<exists>m t. handler_CreateProduct broken_client ref_validate (\<lambda>_. json_error) 0 None product_body no_products
     = ((400, ErrorResponse m), t)"
proof -
  let ?req = "\<lparr>gp_name = '' pen'', gp_description = ''blue'', gp_price = Fin 3\<rparr>"
  have "case fst broken_run of Inl e \<Rightarrow> True | Inr p \<Rightarrow> False" by code_simp
  then obtain e where e: "fst broken_run = Inl e" by (auto split: sum.splits)
  have run: "catalog_CreateProduct broken_catalog_db ref_ustr counted 0 0 no_products (gp_name ?req) (gp_description ?req)
      (gp_price ?req) = (Inl e, snd broken_run)" using e by (simp add: broken_run_def prod_eq_iff)
  show ?thesis
    by (rule gateway_product_failure [OF run _ product_body_bound]) (use e in \<open>simp add: broken_client_def broken_run_def prod_eq_iff\<close>)
qed

section \<open>Deadlines\<close>

text \<open>
  C33: The deadlines nest. With options that pass \<open>Validate\<close>, a request whose timeout middleware runs
  at \<open>t1\<close> and that reaches its client at \<open>t2\<close>, however late, makes at most one gRPC call, in a context
  whose deadline is the earlier of the request's, \<open>t1 + requestTimeout\<close>, and the call's own, \<open>t2\<close>
  plus the read or the write timeout. So no call outlives its request or its own timeout, each
  ends before the server's write timeout, and a call made at once ends after it starts and before
  its request does. A request that makes no call changes nothing.
\<close>

theorem gateway_deadlines_nest:
  assumes "GatewayOptions_Validate options = None" and "configured options G"
    and "gateway_serve (logged G) t1 t2 req (s, []) = (pattern, reply, s', calls)"
  shows "gateway_serve G t1 t2 req s = (pattern, reply, s')
    \<and> length calls \<le> 1 \<and> (calls = [] \<longrightarrow> s' = s)
    \<and> (\<forall>(writes, ctx)\<in>set calls. \<exists>d own. ctx = Some d
        \<and> own = sint (if writes then gwo_GRPCWriteTimeout options else gwo_GRPCReadTimeout options)
        \<and> d = min (t1 + sint (gwo_RequestTimeout options)) (t2 + own)
        \<and> d < t1 + sint (gwo_WriteTimeout options)
        \<and> (t2 = t1 \<longrightarrow> t1 < d \<and> d < t1 + sint (gwo_RequestTimeout options)))"
proof (cases "gw_match G gateway_routes (hr_method req) (hr_path req)")
  case None
  then show ?thesis using assms(3) by (auto simp: gateway_serve_def logged_def)
next
  case (Some m)
  obtain p r param where m: "m = (p, r, param)" by (cases m)
  obtain calls' where run: "serve_route (logged G) t1 t2 r param req (s, [])
      = (fst (serve_route G t1 t2 r param req s), snd (serve_route G t1 t2 r param req s), calls')"
    and calls: "calls' = [] \<and> snd (serve_route G t1 t2 r param req s) = s
      \<or> calls' = [(False, Some (min (t1 + sint (gwo_RequestTimeout options)) (t2 + sint (gwo_GRPCReadTimeout options))))]
      \<or> calls' = [(True, Some (min (t1 + sint (gwo_RequestTimeout options)) (t2 + sint (gwo_GRPCWriteTimeout options))))]"
    by (rule serve_route_logged [OF assms(2)])
  have same: "gw_match (logged G) = gw_match G" by (simp add: logged_def)
  have "pattern = p" "reply = fst (serve_route G t1 t2 r param req s)" "s' = snd (serve_route G t1 t2 r param req s)" "calls = calls'"
    using assms(3) Some by (simp_all add: gateway_serve_def same m run)
  moreover have "gateway_serve G t1 t2 req s = (p, serve_route G t1 t2 r param req s)"
    using Some by (simp add: gateway_serve_def m)
  moreover have "0 < sint (gwo_GRPCReadTimeout options)" "0 < sint (gwo_GRPCWriteTimeout options)"
    "sint (gwo_GRPCReadTimeout options) < sint (gwo_RequestTimeout options)"
    "sint (gwo_GRPCWriteTimeout options) < sint (gwo_RequestTimeout options)"
    "sint (gwo_RequestTimeout options) < sint (gwo_WriteTimeout options)"
    using assms(1) by (auto simp: GatewayOptions_Validate_def split: if_splits)
  ultimately show ?thesis using calls by auto
qed

definition default_options :: GatewayOptions where
  "default_options =
     \<lparr>gwo_AppPort = ''8080'', gwo_ManagementPort = ''8081'', gwo_CatalogReadGrpcAddr = ''localhost:6001'',
      gwo_CatalogWriteGrpcAddr = ''localhost:6002'', gwo_OrderGrpcUrl = ''localhost:6003'',
      gwo_RequestTimeout = 10000000000, gwo_GRPCReadTimeout = 3000000000, gwo_GRPCWriteTimeout = 5000000000,
      gwo_ReadHeaderTimeout = 5000000000, gwo_ReadTimeout = 10000000000, gwo_WriteTimeout = 15000000000,
      gwo_IdleTimeout = 60000000000\<rparr>"

definition silent_gateway :: "unit gateway" where
  "silent_gateway =
     \<lparr>gw_read = \<lparr>rc_client = \<lparr>st_GetProducts = (\<lambda>ctx s. (Inr [], s)), st_SearchProducts = (\<lambda>ctx q s. (Inr [], s))\<rparr>,
        rc_timeout = 3000000000\<rparr>,
      gw_write = \<lparr>wc_client = (\<lambda>ctx n d p s. (Inl (Status Unavailable ''down''), s)), wc_timeout = 5000000000\<rparr>,
      gw_order = \<lparr>oc_client = \<lparr>st_CreateOrder = (\<lambda>ctx q s. (Inl (Status Unavailable ''down''), s)),
          st_GetOrder = (\<lambda>ctx i s. (Inl (Status NotFound ''order not found''), s)), st_GetOrders = (\<lambda>ctx s. (Inr [], s))\<rparr>,
        oc_readTimeout = 3000000000, oc_writeTimeout = 5000000000\<rparr>,
      gw_validate = ref_validate, gw_bindError = (\<lambda>_. json_error),
      gw_match = (\<lambda>tab m p. if m = ''GET'' \<and> p = ''/api/v1/orders'' then Some (''/api/v1/orders'', GetOrdersRoute, '''') else None),
      gw_requestTimeout = 10000000000, gw_swagger = (\<lambda>p. (200, ErrorResponse '''')), gw_unmatched = (404, ErrorResponse '''')\<rparr>"

text \<open>
  A request whose call is made eight seconds after its timeout began: the three seconds of the call
  would end after the ten of the request, so its deadline is the request's.
\<close>

theorem gateway_deadlines_nest_witness:
  "\<exists>pattern reply calls. gateway_serve (logged silent_gateway) 0 8000000000
       \<lparr>hr_method = ''GET'', hr_path = ''/api/v1/orders'', hr_q = '''', hr_body = NotJson []\<rparr> ((), [])
     = (pattern, reply, (), calls) \<and> calls = [(False, Some 10000000000)] \<and> 10000000000 < sint (gwo_WriteTimeout default_options)"
proof -
  let ?req = "\<lparr>hr_method = ''GET'', hr_path = ''/api/v1/orders'', hr_q = '''', hr_body = NotJson []\<rparr>"
  have ok: "GatewayOptions_Validate default_options = None" by code_simp
  have conf: "configured default_options silent_gateway"
    by (simp add: configured_def default_options_def silent_gateway_def)
  obtain pattern reply calls where
    run: "gateway_serve (logged silent_gateway) 0 8000000000 ?req ((), []) = (pattern, reply, (), calls)"
    by (cases "gateway_serve (logged silent_gateway) 0 8000000000 ?req ((), [])") auto
  have "calls = [(False, Some 10000000000)]"
    using run by (simp add: gateway_serve_def serve_route_def logged_def silent_gateway_def handler_GetOrders_def
        OrderClient_GetOrders_def answer_log_call RequestTimeout_def WithTimeout_def)
  moreover from gateway_deadlines_nest [OF ok conf run]
  have "\<forall>(writes, ctx)\<in>set calls. \<exists>d. ctx = Some d \<and> d < 0 + sint (gwo_WriteTimeout default_options)" by fastforce
  ultimately show ?thesis using run by (intro exI [of _ pattern] exI [of _ reply] exI [of _ calls]) simp
qed

section \<open>Metrics\<close>

text \<open>
  C34: The metrics count the requests. Whatever requests arrive and leave, in any interleaving,
  the gauge is the number of requests being handled, each counter has counted exactly the
  finished requests of its labels, the histogram has one observation for each, and the error
  counters exactly those with a status of 500 or more.
\<close>

theorem metrics_count_requests:
  assumes "metrics_step\<^sup>*\<^sup>* (NewHTTPMetrics, 0, []) (m, n, fs)"
  shows "mt_inFlight m = int n \<and> mt_requests m = mset (map fd_label fs)
    \<and> mt_duration m = mset (map (\<lambda>f. (fd_label f, fd_elapsed f)) fs)
    \<and> mt_errors m = mset (map (\<lambda>f. (fd_method f, fd_route f)) (filter (\<lambda>f. 500 \<le> fd_status f) fs))"
proof -
  have "counts (NewHTTPMetrics, 0, [])" by (simp add: counts_def NewHTTPMetrics_def)
  from metrics_steps_counts [OF assms this] show ?thesis by (simp add: counts_def)
qed

definition one_failure :: finished where
  "one_failure = \<lparr>fd_method = ''GET'', fd_path = '''', fd_status = 502, fd_elapsed = 7\<rparr>"

theorem metrics_count_requests_witness:
  "mt_errors (metrics_end ''GET'' '''' 502 7 (metrics_begin NewHTTPMetrics)) = {#(''GET'', ''unmatched'')#}"
proof -
  have "metrics_step (NewHTTPMetrics, 0, []) (metrics_begin NewHTTPMetrics, Suc 0, [])" by (rule metrics_step.arrive)
  moreover have "metrics_step (metrics_begin NewHTTPMetrics, Suc 0, [])
      (metrics_end ''GET'' '''' 502 7 (metrics_begin NewHTTPMetrics), 0, [one_failure])"
    using metrics_step.leave [of "metrics_begin NewHTTPMetrics" 0 "[]" one_failure] by (simp add: one_failure_def)
  ultimately have "metrics_step\<^sup>*\<^sup>* (NewHTTPMetrics, 0, [])
      (metrics_end ''GET'' '''' 502 7 (metrics_begin NewHTTPMetrics), 0, [one_failure])" by simp
  from metrics_count_requests [OF this] show ?thesis
    by (simp add: one_failure_def fd_route_def unmatchedRoute_def)
qed

end
