(* ===== verification/Lifecycle.thy ===== *)
theory Lifecycle
  imports Options
begin

text \<open>
  Starting and stopping a service. Each service's \<open>app/module.go\<close> gives the framework \<open>fx\<close> its
  constructors and the functions to invoke; these append hooks, which the framework starts in
  order and stops in reverse.

  What a process does to the world outside is the list of its calls, each with its outcome; an
  argument \<open>L\<close> decides the outcomes. The framework is a parameter: \<open>fx_order\<close> says in which orders
  it may run the constructors, \<open>fx_laws\<close> how it runs the hooks.
\<close>

section \<open>Calls\<close>

text \<open>
  \<open>OpenCall\<close> opens a connection, a channel or a client at an address; \<open>CheckCall\<close> is any other call
  of a constructor or a start that may fail (a ping, a declaration); \<open>SpawnCall\<close> starts the
  goroutines of a worker, \<open>CancelCall\<close> cancels their context and \<open>WaitCall\<close> waits until they have
  ended, or the stop's deadline; \<open>ServeCall\<close> starts the goroutine that serves on a listener,
  \<open>StopCall\<close> is \<open>GracefulStop\<close> or \<open>Shutdown\<close> of its server; \<open>SyncCall\<close> flushes the log.
\<close>

datatype life_call =
    OpenCall string string
  | CheckCall string
  | CloseCall string
  | SyncCall
  | ListenCall string string
  | ServeCall string
  | StopCall string
  | SpawnCall string
  | CancelCall string
  | WaitCall string
  | SetReady bool
  | RequestShutdown string

type_synonym life = "(life_call \<times> err option) list"
type_synonym outcomes = "life \<Rightarrow> life_call \<Rightarrow> err option"

definition lcall :: "outcomes \<Rightarrow> life_call \<Rightarrow> life act" where
  "lcall L c h = (L h c, h @ [(c, L h c)])"

text \<open>A call that returns no error, such as starting a goroutine.\<close>

definition note_call :: "life_call \<Rightarrow> life act" where
  "note_call c h = (None, h @ [(c, None)])"

definition prefixed :: "string \<Rightarrow> life act \<Rightarrow> life act" where
  "prefixed m f h = (case f h of (Some e, h') \<Rightarrow> (Some (Wrap m e), h') | (None, h') \<Rightarrow> (None, h'))"

section \<open>The logger\<close>

text \<open>
  Parsing a level and building the logger are the package zap's, parameters of \<open>New\<close>; the logger
  it returns carries the name of the service and the environment.
\<close>

definition applogger_New ::
  "(string \<Rightarrow> string) \<Rightarrow> (string \<Rightarrow> err + 'l) \<Rightarrow> (bool \<Rightarrow> 'l \<Rightarrow> err + 'z) \<Rightarrow> string \<Rightarrow> string \<Rightarrow>
   err + 'z \<times> string \<times> string" where
  "applogger_New getenv unmarshalText build level serviceName =
     (let environment = (if getenv ''APP_ENV'' = [] then ''development'' else getenv ''APP_ENV'')
      in case unmarshalText level of
           Inl err \<Rightarrow> Inl (Wrap ''parse log level: '' err)
         | Inr l \<Rightarrow>
             (case build (environment = ''development'') l of
                Inl err \<Rightarrow> Inl (Wrap ''build logger: '' err)
              | Inr lg \<Rightarrow> Inr (lg, serviceName, environment)))"

definition EINVAL :: err where "EINVAL = Ext ''invalid argument''"
definition ENOTTY :: err where "ENOTTY = Ext ''inappropriate ioctl for device''"

definition applogger_Sync :: "outcomes \<Rightarrow> life act" where
  "applogger_Sync L h = (case lcall L SyncCall h of
       (Some err, h') \<Rightarrow>
         (if errors_Is err EINVAL \<or> errors_Is err ENOTTY then None else Some err, h')
     | (None, h') \<Rightarrow> (None, h'))"

section \<open>Hooks\<close>

text \<open>
  The hooks the constructors append: the logger's, that of a connection or a channel, that of
  the catalog's publisher (which closes its channel and its connection), that of the Redis client
  (which is checked at the start), those of the workers, of the two kinds of servers, and the
  readiness. A worker is named as in the error text of \<open>waitForDone\<close>.
\<close>

datatype hook =
    LoggerHook
  | CloseHook string
  | PublisherHook
  | RedisHook
  | WorkerHook string
  | GrpcHook string
  | HealthHook string
  | ReadyHook

definition waitForDone :: "outcomes \<Rightarrow> string \<Rightarrow> life act" where
  "waitForDone L component = prefixed (''stop '' @ component @ '': '') (lcall L (WaitCall component))"

definition close_publisher :: "outcomes \<Rightarrow> life act" where
  "close_publisher L h =
     (case lcall L (CloseCall ''publisher channel'') h of
        (channelErr, h1) \<Rightarrow>
          (case lcall L (CloseCall ''rabbitmq'') h1 of
             (connErr, h2) \<Rightarrow> (case channelErr of Some e \<Rightarrow> (Some e, h2) | None \<Rightarrow> (connErr, h2))))"

fun hook_start :: "outcomes \<Rightarrow> hook \<Rightarrow> life act" where
  "hook_start L LoggerHook h = (None, h)"
| "hook_start L (CloseHook r) h = (None, h)"
| "hook_start L PublisherHook h = (None, h)"
| "hook_start L RedisHook h = lcall L (CheckCall ''ping redis'') h"
| "hook_start L (WorkerHook w) h = note_call (SpawnCall w) h"
| "hook_start L (GrpcHook port) h = seq (lcall L (ListenCall ''grpc'' port)) (note_call (ServeCall ''grpc'')) h"
| "hook_start L (HealthHook port) h = seq (lcall L (ListenCall ''health'' port)) (note_call (ServeCall ''health'')) h"
| "hook_start L ReadyHook h = note_call (SetReady True) h"

fun hook_stop :: "outcomes \<Rightarrow> hook \<Rightarrow> life act" where
  "hook_stop L LoggerHook h = applogger_Sync L h"
| "hook_stop L (CloseHook r) h = lcall L (CloseCall r) h"
| "hook_stop L PublisherHook h = close_publisher L h"
| "hook_stop L RedisHook h = lcall L (CloseCall ''redis'') h"
| "hook_stop L (WorkerHook w) h = seq (note_call (CancelCall w)) (waitForDone L w) h"
| "hook_stop L (GrpcHook port) h = note_call (StopCall ''grpc'') h"
| "hook_stop L (HealthHook port) h = lcall L (StopCall ''health'') h"
| "hook_stop L ReadyHook h = note_call (SetReady False) h"

text \<open>
  What a goroutine does after the worker or the server it runs has returned: an error requests
  the shutdown of the process.
\<close>

definition requestShutdown :: "string \<Rightarrow> life \<Rightarrow> life" where
  "requestShutdown component h = h @ [(RequestShutdown component, None)]"

definition goroutine_end :: "string \<Rightarrow> err option \<Rightarrow> life \<Rightarrow> life" where
  "goroutine_end component r h = (case r of None \<Rightarrow> h | Some err \<Rightarrow> requestShutdown component h)"

text \<open>A server's goroutine first drops the error that says the server was stopped.\<close>

definition server_end :: "string \<Rightarrow> err \<Rightarrow> err option \<Rightarrow> life \<Rightarrow> life" where
  "server_end component stopped r h = (case r of
       None \<Rightarrow> h
     | Some err \<Rightarrow> if errors_Is err stopped then h else requestShutdown component h)"

section \<open>Health\<close>

text \<open>The readiness flag is what the last call of \<open>SetReady\<close> has stored; it starts as false.\<close>

fun ready_after :: "bool \<Rightarrow> life_call list \<Rightarrow> bool" where
  "ready_after b [] = b"
| "ready_after b (c # cs) = ready_after (case c of SetReady r \<Rightarrow> r | _ \<Rightarrow> b) cs"

definition IsReady :: "life \<Rightarrow> bool" where "IsReady h = ready_after False (map fst h)"

definition Liveness :: "life \<Rightarrow> nat \<times> string" where "Liveness h = (200, ''UP'')"

definition Readiness :: "life \<Rightarrow> nat \<times> string" where
  "Readiness h = (if \<not> IsReady h then (503, ''DOWN'') else (200, ''UP''))"

section \<open>The framework\<close>

text \<open>
  \<open>built needs B D ps\<close>: with the components of \<open>B\<close> constructed, the framework constructs the
  components of \<open>D\<close> that are missing and what they need, each once and after what it needs, in
  the order \<open>ps\<close>. \<open>fx_order\<close>: the functions to invoke are called in order, each after what it needs
  has been constructed; nothing is constructed before it is needed.
\<close>

inductive built :: "('c \<Rightarrow> 'c list) \<Rightarrow> 'c set \<Rightarrow> 'c set \<Rightarrow> 'c list \<Rightarrow> bool" for needs where
  complete: "D \<subseteq> B \<Longrightarrow> built needs B D []"
| construct: "d \<in> D \<Longrightarrow> d \<notin> B \<Longrightarrow> built needs B (set (needs d)) ps \<Longrightarrow> d \<notin> set ps
    \<Longrightarrow> built needs (B \<union> set ps \<union> {d}) D qs \<Longrightarrow> built needs B D (ps @ d # qs)"

inductive fx_order :: "('c \<Rightarrow> 'c list) \<Rightarrow> 'c list \<Rightarrow> 'c set \<Rightarrow> 'c list \<Rightarrow> bool" for needs where
  finished: "fx_order needs [] B []"
| invoke: "built needs B (set (needs i)) ps \<Longrightarrow> fx_order needs invs (B \<union> set ps \<union> {i}) cs
    \<Longrightarrow> fx_order needs (i # invs) B (ps @ i # cs)"

inductive_cases fx_order_NilE: "fx_order needs [] B cs"
inductive_cases fx_order_ConsE: "fx_order needs (i # invs) B cs"

text \<open>
  The constructors run in that order until one fails; each gives the hooks it has appended.
\<close>

type_synonym made = "(err option \<times> hook list) \<times> life"

fun construct_all :: "('c \<Rightarrow> life \<Rightarrow> made) \<Rightarrow> 'c list \<Rightarrow> life \<Rightarrow> made" where
  "construct_all f [] h = ((None, []), h)"
| "construct_all f (c # cs) h =
     (case f c h of
        ((Some e, hs), h') \<Rightarrow> ((Some e, hs), h')
      | ((None, hs), h') \<Rightarrow>
          (case construct_all f cs h' of ((e, hs'), h'') \<Rightarrow> ((e, hs @ hs'), h'')))"

text \<open>
  Hooks start in order; when one fails, or the deadline of the start has passed, those that have
  started are stopped in reverse, and the start fails. Stopping runs the hooks in reverse, also
  after an error of one of them, until the deadline has passed.
\<close>

type_synonym acts = "(life act \<times> life act) list"

fun starts :: "acts \<Rightarrow> life \<Rightarrow> life option" where
  "starts [] h = Some h"
| "starts (k # ks) h = (case fst k h of (Some e, h') \<Rightarrow> None | (None, h') \<Rightarrow> starts ks h')"

definition run_stops :: "acts \<Rightarrow> life \<Rightarrow> life" where
  "run_stops ks h = fold (\<lambda>k h. snd (snd k h)) (rev ks) h"

definition expired :: "err \<Rightarrow> bool" where
  "expired e \<longleftrightarrow> errors_Is e DeadlineExceeded \<or> errors_Is e Canceled"

record fx =
  fx_start :: "acts \<Rightarrow> life act"
  fx_stop :: "acts \<Rightarrow> life act"

definition fx_start_law :: "acts \<Rightarrow> life \<Rightarrow> err option \<times> life \<Rightarrow> bool" where
  "fx_start_law ks h r \<longleftrightarrow>
     (\<exists>n \<le> length ks. \<exists>h1. starts (take n ks) h = Some h1 \<and>
        (n = length ks \<and> r = (None, h1) \<or>
         (\<exists>e h2 m. (h2 = h1 \<and> expired e \<or> n < length ks \<and> (\<exists>e'. fst (ks ! n) h1 = (Some e', h2))) \<and>
            (m = 0 \<or> expired e) \<and> r = (Some e, run_stops (drop m (take n ks)) h2))))"

definition fx_stop_law :: "acts \<Rightarrow> life \<Rightarrow> err option \<times> life \<Rightarrow> bool" where
  "fx_stop_law ks h r \<longleftrightarrow>
     (\<exists>m. snd r = run_stops (drop m ks) h \<and> (m = 0 \<or> (\<exists>e. fst r = Some e \<and> expired e)))"

definition fx_laws :: "fx \<Rightarrow> bool" where
  "fx_laws F \<longleftrightarrow>
     (\<forall>ks h. fx_start_law ks h (fx_start F ks h)) \<and> (\<forall>ks h. fx_stop_law ks h (fx_stop F ks h))"

definition hooks_of :: "outcomes \<Rightarrow> hook list \<Rightarrow> acts" where
  "hooks_of L hs = map (\<lambda>k. (hook_start L k, hook_stop L k)) hs"

section \<open>The order of construction\<close>

lemma built_covers: "built needs B D ps \<Longrightarrow> D \<subseteq> B \<union> set ps"
  by (induction rule: built.induct) auto

lemma built_distinct: "built needs B D ps \<Longrightarrow> distinct ps \<and> set ps \<inter> B = {}"
  by (induction rule: built.induct) auto

lemma built_within:
  assumes "built needs B D ps" and "D \<subseteq> R" and "\<And>c. c \<in> R \<Longrightarrow> set (needs c) \<subseteq> R"
  shows "set ps \<subseteq> R"
  using assms(1,2) by (induction rule: built.induct) (use assms(3) in auto)

lemma built_needs:
  assumes "built needs B D ps" and "ps = us @ c # vs"
  shows "set (needs c) \<subseteq> B \<union> set us"
  using assms
proof (induction arbitrary: us vs rule: built.induct)
  case (complete D B)
  then show ?case by simp
next
  case (construct d D B ps qs)
  from construct.prems consider
    us' where "ps = us @ c # us'"
    | "us = ps" "c = d"
    | us' where "us = ps @ d # us'" "qs = us' @ c # vs"
    by (auto simp: append_eq_append_conv2 append_eq_Cons_conv Cons_eq_append_conv)
  then show ?case
  proof cases
    case 1
    then show ?thesis by (rule construct.IH(1))
  next
    case 2
    then show ?thesis using built_covers [OF construct.hyps(3)] by simp
  next
    case 3
    from construct.IH(2) [OF 3(2)] show ?thesis by (auto simp: 3(1))
  qed
qed

lemma fx_order_needs:
  assumes "fx_order needs invs B cs" and "cs = us @ c # vs"
  shows "set (needs c) \<subseteq> B \<union> set us"
  using assms
proof (induction arbitrary: us vs rule: fx_order.induct)
  case (finished B)
  then show ?case by simp
next
  case (invoke B i ps invs cs)
  from invoke.prems consider
    us' where "ps = us @ c # us'"
    | "us = ps" "c = i"
    | us' where "us = ps @ i # us'" "cs = us' @ c # vs"
    by (auto simp: append_eq_append_conv2 append_eq_Cons_conv Cons_eq_append_conv)
  then show ?case
  proof cases
    case 1
    with built_needs [OF invoke.hyps(1)] show ?thesis by blast
  next
    case 2
    then show ?thesis using built_covers [OF invoke.hyps(1)] by simp
  next
    case 3
    from invoke.IH [OF 3(2)] show ?thesis by (auto simp: 3(1))
  qed
qed

end
