(* ===== verification/Lifecycle_Calls.thy ===== *)
theory Lifecycle_Calls
  imports Lifecycle "HOL-Library.Sublist"
begin

text \<open>
  The order of the calls of a start and of a stop, for any module: a locale over the needs of its
  components, the functions it invokes, and the hooks each component appends.
\<close>

section \<open>What comes before\<close>

text \<open>Every occurrence of \<open>b\<close> in \<open>xs\<close> has an \<open>a\<close> before it.\<close>

definition precedes :: "'a list \<Rightarrow> 'a \<Rightarrow> 'a \<Rightarrow> bool" where
  "precedes xs a b \<longleftrightarrow> (\<forall>us vs. xs = us @ b # vs \<longrightarrow> a \<in> set us)"

lemma precedesI: "(\<And>us vs. xs = us @ b # vs \<Longrightarrow> a \<in> set us) \<Longrightarrow> precedes xs a b"
  by (simp add: precedes_def)

lemma precedesD: "precedes xs a b \<Longrightarrow> xs = us @ b # vs \<Longrightarrow> a \<in> set us"
  by (simp add: precedes_def)

lemma precedes_notin: "b \<notin> set xs \<Longrightarrow> precedes xs a b"
  by (auto simp: precedes_def)

lemma precedes_trans: "precedes xs a b \<Longrightarrow> precedes xs b c \<Longrightarrow> precedes xs a c"
proof (rule precedesI)
  fix us vs
  assume ab: "precedes xs a b" and bc: "precedes xs b c" and xs: "xs = us @ c # vs"
  from precedesD [OF bc xs] obtain us1 us2 where us: "us = us1 @ b # us2"
    by (auto simp: in_set_conv_decomp)
  from precedesD [OF ab, of us1 "us2 @ c # vs"] show "a \<in> set us" by (simp add: xs us)
qed

lemma precedes_prefix: "precedes xs a b \<Longrightarrow> prefix ys xs \<Longrightarrow> precedes ys a b"
  by (auto simp: precedes_def prefix_def)

lemma precedes_append: "a \<in> set xs \<Longrightarrow> b \<notin> set xs \<Longrightarrow> precedes (xs @ ys) a b"
proof (rule precedesI)
  fix us vs
  assume "a \<in> set xs" "b \<notin> set xs" "xs @ ys = us @ b # vs"
  then show "a \<in> set us"
    by (auto simp: append_eq_append_conv2 Cons_eq_append_conv append_eq_Cons_conv)
qed

lemma precedes_Cons: "b \<noteq> a \<Longrightarrow> precedes (a # xs) a b"
  by (auto simp: precedes_def Cons_eq_append_conv)

lemma precedes_mem: "precedes xs a b \<Longrightarrow> b \<in> set xs \<Longrightarrow> a \<in> set xs"
  by (auto dest!: split_list dest: precedesD)

lemma precedes_rev:
  assumes "distinct xs" and "precedes xs a b" and "b \<in> set xs"
  shows "precedes (rev xs) b a"
proof (rule precedesI)
  fix us vs
  assume "rev xs = us @ a # vs"
  then have xs: "xs = rev vs @ a # rev us" by (metis append.assoc append_Cons append_Nil rev.simps(2) rev_append rev_rev_ident)
  show "b \<in> set us"
  proof (rule ccontr)
    assume "b \<notin> set us"
    moreover have "b \<noteq> a"
    proof
      assume "b = a"
      then have "a \<in> set (rev vs)" using precedesD [OF assms(2), of "rev vs" "rev us"] xs by simp
      then show False using assms(1) xs by simp
    qed
    ultimately have "b \<in> set (rev vs)" using assms(3) xs by auto
    then obtain ws zs where "rev vs = ws @ b # zs" by (meson in_set_conv_decomp)
    then have "a \<in> set ws" using precedesD [OF assms(2), of ws "zs @ a # rev us"] xs by simp
    then show False using \<open>rev vs = ws @ b # zs\<close> assms(1) xs by auto
  qed
qed

lemma concat_split:
  "concat (map f ds) = us @ y # vs \<Longrightarrow>
     \<exists>ds1 d ds2 ws zs. ds = ds1 @ d # ds2 \<and> f d = ws @ y # zs \<and> us = concat (map f ds1) @ ws"
proof (induction ds arbitrary: us)
  case Nil
  then show ?case by simp
next
  case (Cons d ds)
  from Cons.prems consider
    zs where "f d = us @ y # zs"
    | us' where "us = f d @ us'" "concat (map f ds) = us' @ y # vs"
    by (auto simp: append_eq_append_conv2 append_eq_Cons_conv Cons_eq_append_conv)
  then show ?case
  proof cases
    case 1
    then show ?thesis by (intro exI [of _ "[]"] exI [of _ d] exI [of _ ds] exI [of _ us] exI [of _ zs]) simp
  next
    case 2
    from Cons.IH [OF 2(2)] obtain ds1 e ds2 ws zs where
      "ds = ds1 @ e # ds2" "f e = ws @ y # zs" "us' = concat (map f ds1) @ ws" by blast
    then show ?thesis
      by (intro exI [of _ "d # ds1"] exI [of _ e] exI [of _ ds2] exI [of _ ws] exI [of _ zs]) (simp add: 2(1))
  qed
qed

lemma precedes_concat:
  assumes "\<And>e. y \<in> set (f e) \<Longrightarrow> e = d" and "x \<in> set (f c)" and "precedes ds c d"
  shows "precedes (concat (map f ds)) x y"
proof (rule precedesI)
  fix us vs
  assume "concat (map f ds) = us @ y # vs"
  from concat_split [OF this] obtain ds1 e ds2 ws zs where
    *: "ds = ds1 @ e # ds2" "f e = ws @ y # zs" "us = concat (map f ds1) @ ws" by blast
  then have "e = d" using assms(1) [of e] by simp
  with * have "c \<in> set ds1" using precedesD [OF assms(3), of ds1 ds2] by simp
  then show "x \<in> set us" using assms(2) by (auto simp: *(3))
qed

lemma precedes_concat_within:
  assumes "\<And>e. y \<in> set (f e) \<Longrightarrow> precedes (f e) x y"
  shows "precedes (concat (map f ds)) x y"
proof (rule precedesI)
  fix us vs
  assume "concat (map f ds) = us @ y # vs"
  from concat_split [OF this] obtain ds1 e ds2 ws zs where
    *: "f e = ws @ y # zs" "us = concat (map f ds1) @ ws" by blast
  then have "x \<in> set ws" using precedesD [OF assms [of e]] by auto
  then show "x \<in> set us" by (simp add: *(2))
qed

section \<open>The calls of the hooks\<close>

fun stop_calls :: "hook \<Rightarrow> life_call list" where
  "stop_calls LoggerHook = [SyncCall]"
| "stop_calls (CloseHook r) = [CloseCall r]"
| "stop_calls PublisherHook = [CloseCall ''publisher channel'', CloseCall ''rabbitmq'']"
| "stop_calls RedisHook = [CloseCall ''redis'']"
| "stop_calls (WorkerHook w) = [CancelCall w, WaitCall w]"
| "stop_calls (GrpcHook port) = [StopCall ''grpc'']"
| "stop_calls (HealthHook port) = [StopCall ''health'']"
| "stop_calls ReadyHook = [SetReady False]"

fun start_calls :: "hook \<Rightarrow> life_call list" where
  "start_calls RedisHook = [CheckCall ''ping redis'']"
| "start_calls (WorkerHook w) = [SpawnCall w]"
| "start_calls (GrpcHook port) = [ListenCall ''grpc'' port, ServeCall ''grpc'']"
| "start_calls (HealthHook port) = [ListenCall ''health'' port, ServeCall ''health'']"
| "start_calls ReadyHook = [SetReady True]"
| "start_calls k = []"

lemma lcall_calls [simp]: "map fst (snd (lcall L c h)) = map fst h @ [c]"
  by (simp add: lcall_def)

lemma note_call_calls [simp]: "note_call c h = (None, h @ [(c, None)])"
  by (simp add: note_call_def)

lemma prefixed_snd [simp]: "snd (prefixed m f h) = snd (f h)"
  by (auto simp: prefixed_def split: prod.splits option.splits)

lemma hook_stop_calls: "map fst (snd (hook_stop L k h)) = map fst h @ stop_calls k"
  by (cases k)
     (auto simp: applogger_Sync_def close_publisher_def waitForDone_def lcall_def seq_def
       split: prod.splits option.splits)

lemma hook_start_calls: "hook_start L k h = (None, h') \<Longrightarrow> map fst h' = map fst h @ start_calls k"
  by (cases k) (auto simp: lcall_def seq_def split: prod.splits option.splits)

text \<open>A hook that fails has made one call, which started nothing.\<close>

definition quiet :: "life_call \<Rightarrow> bool" where
  "quiet c \<longleftrightarrow> (\<exists>r. c = CheckCall r) \<or> (\<exists>s p. c = ListenCall s p)"

lemma hook_start_fails:
  "hook_start L k h = (Some e, h') \<Longrightarrow> \<exists>c. quiet c \<and> map fst h' = map fst h @ [c]"
  by (cases k) (auto simp: lcall_def seq_def quiet_def split: prod.splits option.splits)

lemma run_stops_Cons: "run_stops (k # ks) h = snd (snd k (run_stops ks h))"
  by (simp add: run_stops_def)

lemma run_stops_Nil [simp]: "run_stops [] h = h"
  by (simp add: run_stops_def)

lemma run_stops_calls:
  "map fst (run_stops (hooks_of L hs) h) = map fst h @ concat (map stop_calls (rev hs))"
  by (induction hs) (simp_all add: hooks_of_def run_stops_Cons hook_stop_calls)

lemma starts_calls:
  "starts (hooks_of L hs) h = Some h' \<Longrightarrow> map fst h' = map fst h @ concat (map start_calls hs)"
proof (induction hs arbitrary: h)
  case Nil
  then show ?case by (simp add: hooks_of_def)
next
  case (Cons k hs)
  then obtain h1 where "hook_start L k h = (None, h1)" "starts (hooks_of L hs) h1 = Some h'"
    by (auto simp: hooks_of_def split: prod.splits option.splits)
  with Cons.IH [OF this(2)] show ?case by (simp add: hook_start_calls)
qed

lemma take_hooks_of: "take n (hooks_of L hs) = hooks_of L (take n hs)"
  by (simp add: hooks_of_def take_map)

lemma drop_hooks_of: "drop n (hooks_of L hs) = hooks_of L (drop n hs)"
  by (simp add: hooks_of_def drop_map)

lemma length_hooks_of [simp]: "length (hooks_of L hs) = length hs"
  by (simp add: hooks_of_def)

lemma nth_hooks_of: "n < length hs \<Longrightarrow> hooks_of L hs ! n = (hook_start L (hs ! n), hook_stop L (hs ! n))"
  by (simp add: hooks_of_def)

definition calls_since :: "life \<Rightarrow> life \<Rightarrow> life_call list" where
  "calls_since h h' = drop (length h) (map fst h')"

lemma calls_since_append: "map fst h' = map fst h @ cs \<Longrightarrow> calls_since h h' = cs"
  by (simp add: calls_since_def)

lemma fx_stop_calls:
  assumes F: "fx_laws F" and stop: "fx_stop F (hooks_of L hs) h = (e, h')"
  shows "prefix (calls_since h h') (concat (map stop_calls (rev hs)))"
    and "calls_since h h' = concat (map stop_calls (rev hs)) \<or> (\<exists>e'. e = Some e' \<and> expired e')"
proof -
  from F have "fx_stop_law (hooks_of L hs) h (e, h')" unfolding fx_laws_def stop [symmetric] by blast
  then obtain m where h': "h' = run_stops (drop m (hooks_of L hs)) h"
    and m: "m = 0 \<or> (\<exists>e'. e = Some e' \<and> expired e')"
    by (auto simp: fx_stop_law_def)
  have cs: "calls_since h h' = concat (map stop_calls (rev (drop m hs)))"
    by (rule calls_since_append) (simp add: h' drop_hooks_of run_stops_calls)
  have "rev hs = rev (drop m hs) @ rev (take m hs)" by (metis append_take_drop_id rev_append)
  then show "prefix (calls_since h h') (concat (map stop_calls (rev hs)))"
    unfolding cs by (metis concat_append map_append prefixI)
  from m show "calls_since h h' = concat (map stop_calls (rev hs)) \<or> (\<exists>e'. e = Some e' \<and> expired e')"
    by (auto simp: cs)
qed

lemma fx_start_calls:
  assumes F: "fx_laws F" and start: "fx_start F (hooks_of L hs) h = (r, h')"
  shows "(r = None \<and> map fst h' = map fst h @ concat (map start_calls hs)) \<or>
    (\<exists>e n m qs. r = Some e \<and> list_all quiet qs \<and> (m = 0 \<or> expired e) \<and> (n < length hs \<or> expired e \<and> n = length hs) \<and>
      map fst h' = map fst h @ concat (map start_calls (take n hs)) @ qs @ concat (map stop_calls (rev (drop m (take n hs)))))"
proof -
  from F have "fx_start_law (hooks_of L hs) h (r, h')" unfolding fx_laws_def start [symmetric] by blast
  then obtain n h1 where n: "n \<le> length hs"
    and s: "starts (hooks_of L (take n hs)) h = Some h1"
    and c: "n = length hs \<and> (r, h') = (None, h1) \<or>
         (\<exists>e h2 m. (h2 = h1 \<and> expired e \<or>
              n < length hs \<and> (\<exists>e'. fst (hooks_of L hs ! n) h1 = (Some e', h2))) \<and>
            (m = 0 \<or> expired e) \<and> (r, h') = (Some e, run_stops (drop m (hooks_of L (take n hs))) h2))"
    unfolding fx_start_law_def take_hooks_of length_hooks_of by blast
  have h1: "map fst h1 = map fst h @ concat (map start_calls (take n hs))"
    by (rule starts_calls [OF s])
  from c consider
    "n = length hs" "(r, h') = (None, h1)"
    | e h2 m where "h2 = h1" "expired e" "(r, h') = (Some e, run_stops (drop m (hooks_of L (take n hs))) h2)"
    | e h2 m e' where "n < length hs" "fst (hooks_of L hs ! n) h1 = (Some e', h2)" "m = 0 \<or> expired e"
        "(r, h') = (Some e, run_stops (drop m (hooks_of L (take n hs))) h2)"
    by blast
  then show ?thesis
  proof cases
    case 1
    with h1 show ?thesis by auto
  next
    case c: (2 e h2 m)
    have "map fst h' = map fst h @ concat (map start_calls (take n hs)) @ [] @ concat (map stop_calls (rev (drop m (take n hs))))"
      using c h1 by (simp add: drop_hooks_of run_stops_calls)
    moreover have "n < length hs \<or> n = length hs" using n by auto
    moreover have "r = Some e" using c by simp
    ultimately show ?thesis using \<open>expired e\<close>
      by (intro disjI2 exI [of _ e] exI [of _ n] exI [of _ m] exI [of _ "[]"]) auto
  next
    case c: (3 e h2 m e')
    have "hook_start L (hs ! n) h1 = (Some e', h2)" using c(1,2) by (simp add: nth_hooks_of)
    from hook_start_fails [OF this] obtain q where q: "quiet q" "map fst h2 = map fst h1 @ [q]" by blast
    have "map fst h' = map fst h @ concat (map start_calls (take n hs)) @ [q] @ concat (map stop_calls (rev (drop m (take n hs))))"
      using c h1 q by (simp add: drop_hooks_of run_stops_calls)
    moreover have "r = Some e" using c by simp
    ultimately show ?thesis using c(1,3) q(1)
      by (intro disjI2 exI [of _ e] exI [of _ n] exI [of _ m] exI [of _ "[q]"]) auto
  qed
qed

section \<open>Readiness and calls\<close>

lemma ready_after_append: "ready_after b (xs @ ys) = ready_after (ready_after b xs) ys"
  by (induction xs arbitrary: b) simp_all

lemma IsReady_last:
  assumes "map fst h' = cs @ [SetReady b]"
  shows "IsReady h' = b"
  by (simp add: IsReady_def assms ready_after_append)

lemma ready_after_kept: "SetReady True \<notin> set cs \<Longrightarrow> ready_after b cs \<Longrightarrow> b"
  by (induction cs arbitrary: b) (auto split: life_call.splits)

lemma IsReady_kept:
  assumes "map fst h' = map fst h @ cs" and "SetReady True \<notin> set cs" and "IsReady h'"
  shows "IsReady h"
  using assms(3) ready_after_kept [OF assms(2)] by (simp add: IsReady_def assms(1) ready_after_append)

end
