(* ===== verification/Service_Module.thy ===== *)
theory Service_Module
  imports Lifecycle_Calls
begin

text \<open>
  What holds of every service's module: the locale \<open>service_module\<close> over the parameters of its
  constructors, the functions it invokes and the hooks each appends, interpreted for the four
  services in the theories that model their \<open>app/module.go\<close>.
\<close>

section \<open>The order of construction, in full\<close>

lemma fx_order_split:
  assumes "fx_order needs (us @ i # vs) B cs" and "\<And>c. c \<in> R \<Longrightarrow> set (needs c) \<subseteq> R"
    and "set us \<union> {i} \<subseteq> R"
  shows "\<exists>cs1 cs2. cs = cs1 @ i # cs2 \<and> set cs1 \<subseteq> R"
  using assms(1,3)
proof (induction us arbitrary: B cs)
  case Nil
  then obtain ps cs' where "built needs B (set (needs i)) ps" "cs = ps @ i # cs'"
    by (auto elim: fx_order_ConsE)
  moreover have "set ps \<subseteq> R" by (rule built_within [OF calculation(1)]) (use assms(2) Nil in auto)
  ultimately show ?case by blast
next
  case (Cons u us)
  then obtain ps cs' where u: "built needs B (set (needs u)) ps" "cs = ps @ u # cs'"
    "fx_order needs (us @ i # vs) (B \<union> set ps \<union> {u}) cs'"
    by (auto elim: fx_order_ConsE)
  have "set ps \<subseteq> R" by (rule built_within [OF u(1)]) (use assms(2) Cons.prems(2) in auto)
  moreover from Cons.IH [OF u(3)] Cons.prems(2) obtain cs1 cs2 where
    "cs' = cs1 @ i # cs2" "set cs1 \<subseteq> R" by auto
  ultimately show ?case
    by (intro exI [of _ "ps @ u # cs1"] exI [of _ cs2]) (use u(2) Cons.prems(2) in auto)
qed

lemma fx_order_distinct:
  assumes "fx_order needs invs B cs" and "\<And>c. set (needs c) \<inter> I = {}" and "set invs \<subseteq> I" and "distinct invs"
    and "set invs \<inter> B = {}"
  shows "distinct cs \<and> set cs \<inter> B = {}"
  using assms(1,3-5)
proof (induction rule: fx_order.induct)
  case (finished B)
  then show ?case by simp
next
  case (invoke B i ps invs cs)
  have ps: "set ps \<subseteq> - I" by (rule built_within [OF invoke.hyps(1)]) (use assms(2) in blast)+
  have "distinct ps \<and> set ps \<inter> B = {}" by (rule built_distinct [OF invoke.hyps(1)])
  moreover have "distinct cs \<and> set cs \<inter> (B \<union> set ps \<union> {i}) = {}"
    by (rule invoke.IH) (use invoke.prems ps in auto)
  ultimately show ?case using invoke.prems ps by auto
qed

lemma fx_order_precedes:
  "fx_order needs invs {} cs \<Longrightarrow> d \<in> set (needs c) \<Longrightarrow> precedes cs d c"
  using fx_order_needs [of needs invs "{}" cs] by (auto intro!: precedesI)

text \<open>What a component needs, up to a number of steps, comes before it.\<close>

fun below :: "('c \<Rightarrow> 'c list) \<Rightarrow> nat \<Rightarrow> 'c \<Rightarrow> 'c list" where
  "below needs 0 c = []"
| "below needs (Suc n) c = concat (map (\<lambda>d. d # below needs n d) (needs c))"

lemma fx_order_below:
  "fx_order needs invs {} cs \<Longrightarrow> d \<in> set (below needs n c) \<Longrightarrow> precedes cs d c"
  by (induction n arbitrary: c) (auto intro: fx_order_precedes precedes_trans)

definition stops_of :: "hook list \<Rightarrow> life_call list" where
  "stops_of hs = concat (map stop_calls (rev hs))"

lemma stops_of_concat: "stops_of (concat (map f cs)) = concat (map (\<lambda>c. stops_of (f c)) (rev cs))"
  by (induction cs) (simp_all add: stops_of_def)

lemma stops_of_simps [simp]: "stops_of [] = []" "stops_of [k] = stop_calls k"
  by (simp_all add: stops_of_def)

section \<open>The locale\<close>

locale service_module =
  fixes needs :: "'c \<Rightarrow> 'c list"
    and invokes :: "'c list"
    and construct :: "outcomes \<Rightarrow> 'e \<Rightarrow> 'c \<Rightarrow> life \<Rightarrow> made"
    and hooks :: "'e \<Rightarrow> 'c \<Rightarrow> hook list"
    and readiness :: 'c
  assumes construct_hooks: "construct L E c h = ((None, hs), h') \<Longrightarrow> hs = hooks E c"
    and invokes_distinct: "distinct invokes"
    and invoked_only: "set (needs c) \<inter> set invokes = {}"
    and readiness_last: "\<exists>us. invokes = us @ [readiness]"
    and readiness_hook: "hooks E readiness = [ReadyHook]"
    and readiness_only: "ReadyHook \<in> set (hooks E c) \<Longrightarrow> c = readiness"
begin

lemma constructed:
  "construct_all (construct L E) cs h = ((None, hs), h') \<Longrightarrow> hs = concat (map (hooks E) cs)"
  by (induction cs arbitrary: h hs) (auto split: prod.splits option.splits dest!: construct_hooks)

lemma order_distinct: "fx_order needs invokes {} cs \<Longrightarrow> distinct cs"
  using fx_order_distinct [of needs invokes "{}" cs "set invokes"] invoked_only invokes_distinct by auto

lemma order_member: "fx_order needs invokes {} cs \<Longrightarrow> i \<in> set invokes \<Longrightarrow> i \<in> set cs"
  using fx_order_split [of needs _ i _ "{}" cs UNIV] by (fastforce dest!: split_list)

lemma order_needed: "fx_order needs invokes {} cs \<Longrightarrow> c \<in> set cs \<Longrightarrow> d \<in> set (needs c) \<Longrightarrow> d \<in> set cs"
  using fx_order_precedes precedes_mem by fastforce

lemma order_reached:
  assumes "fx_order needs invokes {} cs" and "c \<in> set (concat (map (\<lambda>i. i # below needs n i) invokes))"
  shows "c \<in> set cs"
  using assms(2) order_member [OF assms(1)] fx_order_below [OF assms(1)] precedes_mem by fastforce

text \<open>What only a later function needs is constructed after an earlier function was invoked.\<close>

lemma order_late:
  assumes "fx_order needs invokes {} cs" and "invokes = us @ i # vs"
    and "\<And>c. c \<in> R \<Longrightarrow> set (needs c) \<subseteq> R" and "set us \<union> {i} \<subseteq> R" and "d \<notin> R"
  shows "precedes cs i d"
proof -
  from fx_order_split [of needs us i vs "{}" cs R] assms(1-4) obtain cs1 cs2 where
    cs: "cs = cs1 @ i # cs2" "set cs1 \<subseteq> R" by auto
  have "precedes ((cs1 @ [i]) @ cs2) i d"
    by (rule precedes_append) (use cs(2) assms(4,5) in auto)
  then show ?thesis by (simp add: cs(1))
qed

lemma order_invoked:
  assumes "fx_order needs invokes {} cs" and "invokes = us @ i # vs" and "j \<in> set vs"
  shows "precedes cs i j"
proof (rule order_late [OF assms(1,2), where R = "- {j}"])
  show "set (needs c) \<subseteq> - {j}" for c using invoked_only [of c] assms(2,3) by auto
  show "set us \<union> {i} \<subseteq> - {j}" using invokes_distinct assms(2,3) by auto
qed simp

lemma order_readiness:
  assumes "fx_order needs invokes {} cs" and "c \<in> set cs"
  shows "\<exists>ds. cs = ds @ [readiness] \<and> readiness \<notin> set ds"
proof -
  obtain us where us: "invokes = us @ [readiness]" using readiness_last by blast
  have "fx_order needs (us @ [readiness]) B cs \<Longrightarrow> \<exists>ds. cs = ds @ [readiness]" for B
  proof (induction us arbitrary: B cs)
    case Nil
    then show ?case by (auto elim!: fx_order_ConsE fx_order_NilE)
  next
    case (Cons u us)
    then obtain ps cs' where "cs = ps @ u # cs'" "fx_order needs (us @ [readiness]) (B \<union> set ps \<union> {u}) cs'"
      by (auto elim: fx_order_ConsE)
    with Cons.IH [OF this(2)] show ?case by auto
  qed
  then obtain ds where "cs = ds @ [readiness]" using assms(1) unfolding us by blast
  with order_distinct [OF assms(1)] show ?thesis by auto
qed

text \<open>At the stop, the calls of what was constructed later come first.\<close>

lemma stop_before:
  assumes "fx_order needs invokes {} cs" and "construct_all (construct L E) cs h0 = ((None, hs), h1)"
    and "fx_laws F" and "fx_stop F (hooks_of L hs) h = (e, h')"
    and "c \<in> set cs" and "precedes cs d c" and "x \<in> set (stops_of (hooks E c))"
    and "\<And>e. y \<in> set (stops_of (hooks E e)) \<Longrightarrow> e = d"
  shows "precedes (calls_since h h') x y"
proof (rule precedes_prefix [OF _ fx_stop_calls(1) [OF assms(3,4)]])
  have "precedes (concat (map (\<lambda>c. stops_of (hooks E c)) (rev cs))) x y"
    by (rule precedes_concat [where c = c and d = d])
       (auto intro: precedes_rev assms(5-8) order_distinct [OF assms(1)])
  then show "precedes (concat (map stop_calls (rev hs))) x y"
    using stops_of_concat [of "hooks E" cs]
    by (simp add: constructed [OF assms(2)] stops_of_def)
qed

lemma stop_calls_full:
  assumes "fx_order needs invokes {} cs" and "construct_all (construct L E) cs h0 = ((None, hs), h1)"
    and "fx_laws F" and "fx_stop F (hooks_of L hs) h = (e, h')"
  shows "prefix (calls_since h h') (concat (map (\<lambda>c. stops_of (hooks E c)) (rev cs)))"
    and "(\<forall>e'. e = Some e' \<longrightarrow> \<not> expired e') \<Longrightarrow> c \<in> set cs \<Longrightarrow> x \<in> set (stops_of (hooks E c)) \<Longrightarrow>
      x \<in> set (calls_since h h')"
  using fx_stop_calls [OF assms(3,4)] stops_of_concat [of "hooks E" cs]
  by (auto simp: constructed [OF assms(2)] stops_of_def) blast

lemma stop_from:
  assumes "fx_order needs invokes {} cs" and "construct_all (construct L E) cs h0 = ((None, hs), h1)"
    and "fx_laws F" and "fx_stop F (hooks_of L hs) h = (e, h')" and "x \<in> set (calls_since h h')"
  shows "\<exists>c \<in> set cs. x \<in> set (stops_of (hooks E c))"
  using set_mono_prefix [OF stop_calls_full(1) [OF assms(1-4)]] assms(5) by auto

lemma stop_within:
  assumes "fx_order needs invokes {} cs" and "construct_all (construct L E) cs h0 = ((None, hs), h1)"
    and "fx_laws F" and "fx_stop F (hooks_of L hs) h = (e, h')"
    and "\<And>c. y \<in> set (stops_of (hooks E c)) \<Longrightarrow> precedes (stops_of (hooks E c)) x y"
  shows "precedes (calls_since h h') x y"
  by (rule precedes_prefix [OF precedes_concat_within stop_calls_full(1) [OF assms(1-4)]]) (rule assms(5))

text \<open>The readiness is withdrawn first, and what everything else needs is closed last.\<close>

lemma stop_readiness_first:
  assumes "fx_order needs invokes {} cs" and "construct_all (construct L E) cs h0 = ((None, hs), h1)"
    and "fx_laws F" and "fx_stop F (hooks_of L hs) h = (e, h')" and "x \<noteq> SetReady False"
  shows "precedes (calls_since h h') (SetReady False) x"
proof -
  have "readiness \<in> set cs" using order_member [OF assms(1)] readiness_last by auto
  with order_readiness [OF assms(1)] obtain ds where "cs = ds @ [readiness]" by blast
  then have "concat (map (\<lambda>c. stops_of (hooks E c)) (rev cs)) =
      SetReady False # concat (map (\<lambda>c. stops_of (hooks E c)) (rev ds))"
    by (simp add: readiness_hook)
  with stop_calls_full(1) [OF assms(1-4)] show ?thesis
    by (metis precedes_Cons precedes_prefix assms(5))
qed

lemma stop_last:
  assumes "fx_order needs invokes {} cs" and "construct_all (construct L E) cs h0 = ((None, hs), h1)"
    and "fx_laws F" and "fx_stop F (hooks_of L hs) h = (e, h')"
    and "\<And>c. hooks E c \<noteq> [] \<Longrightarrow> c = d \<or> precedes cs d c"
    and "stops_of (hooks E d) = [y]" and "\<And>c. y \<in> set (stops_of (hooks E c)) \<Longrightarrow> c = d"
    and "x \<in> set (calls_since h h')" and "x \<noteq> y"
  shows "precedes (calls_since h h') x y"
proof -
  from stop_from [OF assms(1-4,8)] obtain c where c: "c \<in> set cs" "x \<in> set (stops_of (hooks E c))" by blast
  with assms(6,9) have "c \<noteq> d" by auto
  moreover have "hooks E c \<noteq> []" using c(2) by auto
  ultimately have "precedes cs d c" using assms(5) [of c] by simp
  from stop_before [OF assms(1-4) c(1) this c(2) assms(7)] show ?thesis .
qed

text \<open>
  A start that succeeds has started everything, and sets the readiness last; one that fails never
  sets it, and stops what it has started unless its deadline has passed.
\<close>

lemma order_last_hook:
  assumes "fx_order needs invokes {} cs"
  shows "\<exists>ks. concat (map (hooks E) cs) = ks @ [ReadyHook] \<and> ReadyHook \<notin> set ks"
proof -
  have "readiness \<in> set cs" using order_member [OF assms(1)] readiness_last by auto
  with order_readiness [OF assms(1)] obtain ds where "cs = ds @ [readiness]" "readiness \<notin> set ds" by blast
  then show ?thesis
    by (intro exI [of _ "concat (map (hooks E) ds)"]) (auto simp: readiness_hook dest: readiness_only)
qed

lemma ready_start_calls: "SetReady b \<in> set (start_calls k) \<Longrightarrow> k = ReadyHook"
  by (cases k) auto

lemma start_ready:
  assumes "fx_order needs invokes {} cs" and "construct_all (construct L E) cs h0 = ((None, hs), h1)"
    and "fx_laws F" and "fx_start F (hooks_of L hs) h = (None, h')"
  shows "\<exists>xs. calls_since h h' = xs @ [SetReady True] \<and> SetReady True \<notin> set xs \<and>
    map fst h' = map fst h @ calls_since h h' \<and>
    (\<forall>c \<in> set cs. \<forall>k \<in> set (hooks E c). set (start_calls k) \<subseteq> set (calls_since h h'))"
proof -
  from fx_start_calls [OF assms(3,4)] have h': "map fst h' = map fst h @ concat (map start_calls hs)" by auto
  have hs: "hs = concat (map (hooks E) cs)" by (rule constructed [OF assms(2)])
  from order_last_hook [OF assms(1)] obtain ks where ks: "hs = ks @ [ReadyHook]" "ReadyHook \<notin> set ks"
    unfolding hs by blast
  have "SetReady True \<notin> set (concat (map start_calls ks))" using ks(2) by (auto dest: ready_start_calls)
  moreover have "calls_since h h' = concat (map start_calls ks) @ [SetReady True]"
    using calls_since_append [OF h'] by (simp add: ks(1))
  moreover have "\<forall>c \<in> set cs. \<forall>k \<in> set (hooks E c). set (start_calls k) \<subseteq> set (calls_since h h')"
    unfolding calls_since_append [OF h'] hs by auto
  ultimately show ?thesis using h' calls_since_append [OF h'] by auto
qed

lemma start_failed:
  assumes "fx_order needs invokes {} cs" and "construct_all (construct L E) cs h0 = ((None, hs), h1)"
    and "fx_laws F" and "fx_start F (hooks_of L hs) h = (Some e, h')"
  shows "\<exists>xs qs ys ks. map fst h' = map fst h @ xs @ qs @ ys \<and> list_all quiet qs \<and>
    xs = concat (map start_calls ks) \<and> (ReadyHook \<in> set ks \<longrightarrow> expired e) \<and>
    prefix ys (concat (map stop_calls (rev ks))) \<and> (ys = concat (map stop_calls (rev ks)) \<or> expired e)"
proof -
  from fx_start_calls [OF assms(3,4)] obtain n m qs where
    *: "list_all quiet qs" "m = 0 \<or> expired e" "n < length hs \<or> expired e"
      "map fst h' = map fst h @ concat (map start_calls (take n hs)) @ qs @ concat (map stop_calls (rev (drop m (take n hs))))"
    by auto
  have hs: "hs = concat (map (hooks E) cs)" by (rule constructed [OF assms(2)])
  from order_last_hook [OF assms(1)] obtain ks where ks: "hs = ks @ [ReadyHook]" "ReadyHook \<notin> set ks"
    unfolding hs by blast
  have "ReadyHook \<in> set (take n hs) \<longrightarrow> expired e"
  proof (rule impI, rule ccontr)
    assume "ReadyHook \<in> set (take n hs)" "\<not> expired e"
    then have "n \<le> length ks" using *(3) by (simp add: ks(1))
    then have "set (take n hs) \<subseteq> set ks" by (auto simp: ks(1) dest: in_set_takeD)
    with \<open>ReadyHook \<in> set (take n hs)\<close> ks(2) show False by blast
  qed
  moreover have "prefix (concat (map stop_calls (rev (drop m (take n hs))))) (concat (map stop_calls (rev (take n hs))))"
    by (metis append_take_drop_id concat_append map_append prefixI rev_append)
  moreover have "concat (map stop_calls (rev (drop m (take n hs)))) = concat (map stop_calls (rev (take n hs))) \<or> expired e"
    using *(2) by auto
  ultimately show ?thesis using *(1,4)
    by (intro exI [of _ "concat (map start_calls (take n hs))"] exI [of _ qs]
        exI [of _ "concat (map stop_calls (rev (drop m (take n hs))))"] exI [of _ "take n hs"]) auto
qed

lemma start_succeeded:
  assumes "fx_order needs invokes {} cs" and "construct_all (construct L E) cs h0 = ((None, hs), h1)"
    and "fx_laws F" and "fx_start F (hooks_of L hs) h = (None, h')"
  shows "IsReady h'" and "c \<in> set cs \<Longrightarrow> k \<in> set (hooks E c) \<Longrightarrow> set (start_calls k) \<subseteq> set (calls_since h h')"
    and "x \<in> set (calls_since h h') \<Longrightarrow> x \<noteq> SetReady True \<Longrightarrow> precedes (calls_since h h') x (SetReady True)"
proof -
  from start_ready [OF assms] obtain xs where
    *: "calls_since h h' = xs @ [SetReady True]" "SetReady True \<notin> set xs"
      "map fst h' = map fst h @ calls_since h h'"
      "\<forall>c \<in> set cs. \<forall>k \<in> set (hooks E c). set (start_calls k) \<subseteq> set (calls_since h h')" by blast
  have "map fst h' = (map fst h @ xs) @ [SetReady True]" using *(3) unfolding *(1) by simp
  then show "IsReady h'" using IsReady_last by blast
  show "c \<in> set cs \<Longrightarrow> k \<in> set (hooks E c) \<Longrightarrow> set (start_calls k) \<subseteq> set (calls_since h h')"
    using *(4) by blast
  show "x \<in> set (calls_since h h') \<Longrightarrow> x \<noteq> SetReady True \<Longrightarrow> precedes (calls_since h h') x (SetReady True)"
    unfolding *(1) by (rule precedes_append) (use *(2) in auto)
qed

lemma start_rolled_back:
  assumes "fx_order needs invokes {} cs" and "construct_all (construct L E) cs h0 = ((None, hs), h1)"
    and "fx_laws F" and "fx_start F (hooks_of L hs) h = (Some e, h')" and "\<not> expired e"
  shows "IsReady h' \<Longrightarrow> IsReady h"
    and "SpawnCall w \<in> set (calls_since h h') \<Longrightarrow>
      WaitCall w \<in> set (calls_since h h') \<and> precedes (calls_since h h') (SpawnCall w) (WaitCall w)"
    and "ServeCall s \<in> set (calls_since h h') \<Longrightarrow>
      StopCall s \<in> set (calls_since h h') \<and> precedes (calls_since h h') (ServeCall s) (StopCall s)"
    and "SetReady True \<notin> set (calls_since h h')"
proof -
  from start_failed [OF assms(1-4)] assms(5) obtain xs qs ys ks where
    h': "map fst h' = map fst h @ xs @ qs @ ys" and qs: "list_all quiet qs"
    and xs: "xs = concat (map start_calls ks)" and ready: "ReadyHook \<notin> set ks"
    and ys: "ys = concat (map stop_calls (rev ks))" by blast
  have calls: "calls_since h h' = (xs @ qs) @ ys" using calls_since_append [OF h'] by simp
  have not_quiet: "\<not> quiet (SetReady b)" "\<not> quiet (SpawnCall w)" "\<not> quiet (ServeCall s)"
    "\<not> quiet (WaitCall w)" "\<not> quiet (StopCall s)" for b by (auto simp: quiet_def)
  have in_qs: "c \<notin> set qs" if "\<not> quiet c" for c using qs that by (auto simp: list_all_iff)
  have "SetReady True \<notin> set (stop_calls k)" for k by (cases k) auto
  then have never: "SetReady True \<notin> set (xs @ qs @ ys)"
    using in_qs [OF not_quiet(1)] ready unfolding xs ys by (auto dest: ready_start_calls)
  then show "SetReady True \<notin> set (calls_since h h')" unfolding calls by simp
  from IsReady_kept [OF h' never] show "IsReady h' \<Longrightarrow> IsReady h" .
  {
    assume "SpawnCall w \<in> set (calls_since h h')"
    moreover have "SpawnCall w \<notin> set (stop_calls k)" for k by (cases k) auto
    ultimately have in_xs: "SpawnCall w \<in> set xs" using in_qs [OF not_quiet(2)] unfolding calls ys by auto
    moreover have "SpawnCall w \<in> set (start_calls k) \<Longrightarrow> k = WorkerHook w" for k by (cases k) auto
    ultimately have "WorkerHook w \<in> set ks" unfolding xs by auto
    then have "WaitCall w \<in> set ys" unfolding ys by force
    moreover have "WaitCall w \<notin> set (start_calls k)" for k by (cases k) auto
    then have "WaitCall w \<notin> set (xs @ qs)" using in_qs [OF not_quiet(4)] unfolding xs by auto
    ultimately show "WaitCall w \<in> set (calls_since h h') \<and> precedes (calls_since h h') (SpawnCall w) (WaitCall w)"
      unfolding calls using in_xs by (auto intro: precedes_append)
  }
  {
    assume "ServeCall s \<in> set (calls_since h h')"
    moreover have "ServeCall s \<notin> set (stop_calls k)" for k by (cases k) auto
    ultimately have in_xs: "ServeCall s \<in> set xs" using in_qs [OF not_quiet(3)] unfolding calls ys by auto
    moreover have "ServeCall s \<in> set (start_calls k) \<Longrightarrow> StopCall s \<in> set (stop_calls k)" for k by (cases k) auto
    ultimately have "StopCall s \<in> set ys" unfolding xs ys by auto
    moreover have "StopCall s \<notin> set (start_calls k)" for k by (cases k) auto
    then have "StopCall s \<notin> set (xs @ qs)" using in_qs [OF not_quiet(5)] unfolding xs by auto
    ultimately show "StopCall s \<in> set (calls_since h h') \<and> precedes (calls_since h h') (ServeCall s) (StopCall s)"
      unfolding calls using in_xs by (auto intro: precedes_append)
  }
qed

end

end
