(* ===== verification/Module_Parts.thy ===== *)
theory Module_Parts
  imports Service_Module
begin

text \<open>
  What the four \<open>app/module.go\<close> share: the shapes of a constructor, the connection to PostgreSQL,
  and a computing instance of the order in which the framework constructs components.
\<close>

section \<open>Constructors\<close>

definition appended :: "hook list \<Rightarrow> life \<Rightarrow> made" where
  "appended hs h = ((None, hs), h)"

text \<open>A constructor that makes calls, and appends hooks when they have succeeded.\<close>

definition opened :: "life act \<Rightarrow> hook list \<Rightarrow> life \<Rightarrow> made" where
  "opened f hs h = (case f h of (Some e, h') \<Rightarrow> ((Some e, []), h') | (None, h') \<Rightarrow> ((None, hs), h'))"

text \<open>A constructor that takes options; without them it would not be called.\<close>

definition given :: "err + 'o \<Rightarrow> ('o \<Rightarrow> life \<Rightarrow> made) \<Rightarrow> life \<Rightarrow> made" where
  "given options f h = (case options of Inl err \<Rightarrow> ((Some err, []), h) | Inr o' \<Rightarrow> f o' h)"

lemma appended_hooks: "appended ks h = ((None, hs), h') \<longleftrightarrow> hs = ks \<and> h' = h"
  by (auto simp: appended_def)

lemma opened_hooks: "opened f ks h = ((None, hs), h') \<longleftrightarrow> f h = (None, h') \<and> hs = ks"
  by (auto simp: opened_def split: prod.splits option.splits)

lemma given_hooks: "given options f h = ((None, hs), h') \<longleftrightarrow> (\<exists>o'. options = Inr o' \<and> f o' h = ((None, hs), h'))"
  by (auto simp: given_def split: sum.splits)

lemmas made_hooks = appended_hooks opened_hooks given_hooks

section \<open>Options and logger\<close>

text \<open>
  What loading the options has given, and the error of \<open>applogger_New\<close> for a level and the name of
  the service. The services with a database have these; the type of the options is theirs.
\<close>

record ('a, 'r) service_env =
  se_app :: "err + 'a"
  se_postgres :: "err + PostgresOptions"
  se_rabbit :: "err + 'r"
  se_log :: "err + string"
  se_logger :: "string \<Rightarrow> string \<Rightarrow> err option"

section \<open>PostgreSQL\<close>

definition postgres_dsn :: "PostgresOptions \<Rightarrow> string" where
  "postgres_dsn options =
     ''host='' @ pgo_Host options @ '' port='' @ pgo_Port options @ '' user='' @ pgo_User options @
     '' password='' @ pgo_Password options @ '' dbname='' @ pgo_Database options @
     '' sslmode='' @ pgo_SSLMode options @ '' TimeZone=UTC''"

definition ConnectPostgres :: "outcomes \<Rightarrow> PostgresOptions \<Rightarrow> life act" where
  "ConnectPostgres L options =
     seq (prefixed ''failed to connect to postgres: '' (lcall L (OpenCall ''postgres'' (postgres_dsn options))))
       (seq (prefixed ''failed to get sql db: '' (lcall L (CheckCall ''sql db'')))
         (prefixed ''failed to ping postgres: '' (lcall L (CheckCall ''ping postgres''))))"

definition connect_db :: "outcomes \<Rightarrow> PostgresOptions \<Rightarrow> life act" where
  "connect_db L options = seq (ConnectPostgres L options) (lcall L (CheckCall ''sql db''))"

text \<open>\<open>NewRabbitMQPublisher\<close> declares the exchange and puts the channel into confirm mode.\<close>

definition new_publisher :: "outcomes \<Rightarrow> life act" where
  "new_publisher L = seq (lcall L (CheckCall ''declare exchange'')) (lcall L (CheckCall ''confirm mode''))"

section \<open>An order of construction, computed\<close>

text \<open>Depth first in the order of the parameters, as the framework's container does it.\<close>

fun dig :: "('c \<Rightarrow> 'c list) \<Rightarrow> nat \<Rightarrow> 'c list \<Rightarrow> 'c list \<Rightarrow> 'c list option" where
  "dig needs 0 B ds = None"
| "dig needs (Suc n) B [] = Some []"
| "dig needs (Suc n) B (d # ds) =
     (if d \<in> set B then dig needs n B ds
      else (case dig needs n B (needs d) of
              None \<Rightarrow> None
            | Some ps \<Rightarrow>
                (if d \<in> set ps then None
                 else (case dig needs n (d # ps @ B) ds of None \<Rightarrow> None | Some qs \<Rightarrow> Some (ps @ d # qs)))))"

fun dig_all :: "('c \<Rightarrow> 'c list) \<Rightarrow> nat \<Rightarrow> 'c list \<Rightarrow> 'c list \<Rightarrow> 'c list option" where
  "dig_all needs n B [] = Some []"
| "dig_all needs n B (i # invs) =
     (case dig needs n B (needs i) of
        None \<Rightarrow> None
      | Some ps \<Rightarrow>
          (case dig_all needs n (i # ps @ B) invs of None \<Rightarrow> None | Some cs \<Rightarrow> Some (ps @ i # cs)))"

lemma dig_built:
  "dig needs n B ds = Some cs \<Longrightarrow> D \<subseteq> set B \<union> set ds \<Longrightarrow> set ds \<subseteq> D \<Longrightarrow> built needs (set B) D cs"
proof (induction needs n B ds arbitrary: cs D rule: dig.induct)
  case (1 needs B ds)
  then show ?case by simp
next
  case (2 needs n B)
  then show ?case by (auto intro: built.complete)
next
  case (3 needs n B d ds)
  show ?case
  proof (cases "d \<in> set B")
    case True
    with 3 show ?thesis by auto
  next
    case False
    with 3 obtain ps qs where
      ps: "dig needs n B (needs d) = Some ps" "d \<notin> set ps"
      and qs: "dig needs n (d # ps @ B) ds = Some qs" "cs = ps @ d # qs"
      by (auto split: option.splits if_splits)
    have "built needs (set B) (set (needs d)) ps" by (rule 3(2) [OF False ps(1)]) auto
    moreover have "built needs (set B \<union> set ps \<union> {d}) D qs"
    proof -
      have "D \<subseteq> set (d # ps @ B) \<union> set ds" using 3(5) by auto
      moreover have "set ds \<subseteq> D" using 3(6) by simp
      ultimately have "built needs (set (d # ps @ B)) D qs" by (rule 3(3) [OF False ps(1,2) qs(1)])
      then show ?thesis by (simp add: Un_ac insert_commute)
    qed
    ultimately show ?thesis
      unfolding qs(2) using 3(6) False ps(2) by (auto intro: built.construct)
  qed
qed

lemma dig_all_order: "dig_all needs n B invs = Some cs \<Longrightarrow> fx_order needs invs (set B) cs"
proof (induction invs arbitrary: B cs)
  case Nil
  then show ?case by (auto intro: fx_order.finished)
next
  case (Cons i invs)
  then obtain ps cs' where *: "dig needs n B (needs i) = Some ps"
    "dig_all needs n (i # ps @ B) invs = Some cs'" "cs = ps @ i # cs'"
    by (auto split: option.splits)
  have "built needs (set B) (set (needs i)) ps" by (rule dig_built [OF *(1)]) auto
  moreover have "fx_order needs invs (set B \<union> set ps \<union> {i}) cs'"
    using Cons.IH [OF *(2)] by (simp add: Un_ac)
  ultimately show ?case unfolding *(3) by (rule fx_order.invoke)
qed

lemma dig_all_ends:
  "dig_all needs n [] invs \<noteq> None \<Longrightarrow> \<exists>cs. dig_all needs n [] invs = Some cs \<and> fx_order needs invs {} cs"
  using dig_all_order [of needs n "[]" invs] by auto

section \<open>A framework that runs every hook\<close>

fun start_all :: "acts \<Rightarrow> acts \<Rightarrow> life act" where
  "start_all done' [] h = (None, h)"
| "start_all done' (k # ks) h =
     (case fst k h of
        (Some e, h') \<Rightarrow> (Some e, run_stops done' h')
      | (None, h') \<Rightarrow> start_all (done' @ [k]) ks h')"

definition ref_fx :: fx where
  "ref_fx = \<lparr>fx_start = start_all [], fx_stop = \<lambda>ks h. (None, run_stops ks h)\<rparr>"

lemma starts_snoc: "starts (ks @ [k]) h = (case starts ks h of None \<Rightarrow> None | Some h1 \<Rightarrow>
    (case fst k h1 of (Some e, h') \<Rightarrow> None | (None, h') \<Rightarrow> Some h'))"
  by (induction ks arbitrary: h) (auto split: prod.splits option.splits)

lemma start_all_law:
  "starts ds h = Some h1 \<Longrightarrow> fx_start_law (ds @ ks) h (start_all ds ks h1)"
proof (induction ks arbitrary: ds h1)
  case Nil
  then show ?case by (auto simp: fx_start_law_def intro!: exI [of _ "length ds"])
next
  case (Cons k ks)
  show ?case
  proof (cases "fst k h1")
    case (Pair r h2)
    show ?thesis
    proof (cases r)
      case None
      with Pair Cons.prems have "starts (ds @ [k]) h = Some h2" by (simp add: starts_snoc)
      from Cons.IH [OF this] show ?thesis by (simp add: Pair None)
    next
      case (Some e)
      then have "start_all ds (k # ks) h1 = (Some e, run_stops (drop 0 (take (length ds) (ds @ k # ks))) h2)"
        by (simp add: Pair)
      have n: "starts (take (length ds) (ds @ k # ks)) h = Some h1" using Cons.prems by simp
      have m: "(h2 = h1 \<and> expired e \<or> length ds < length (ds @ k # ks) \<and>
            (\<exists>e'. fst ((ds @ k # ks) ! length ds) h1 = (Some e', h2))) \<and>
          ((0::nat) = 0 \<or> expired e) \<and>
          start_all ds (k # ks) h1 = (Some e, run_stops (drop 0 (take (length ds) (ds @ k # ks))) h2)"
        using Pair Some \<open>start_all ds (k # ks) h1 = _\<close> by simp
      have "length ds \<le> length (ds @ k # ks)" by simp
      with n m show ?thesis unfolding fx_start_law_def by blast
    qed
  qed
qed

lemma ref_fx_laws: "fx_laws ref_fx"
  using start_all_law [of "[]"] by (auto simp: fx_laws_def ref_fx_def fx_stop_law_def)

section \<open>Calls that succeed\<close>

text \<open>No call fails, or only listening for health checks does.\<close>

definition health_port :: "bool \<Rightarrow> outcomes" where
  "health_port taken h c =
     (if taken \<and> (\<exists>p. c = ListenCall ''health'' p) then Some (Ext ''address already in use'') else None)"

lemma lcall_succeeds [simp]:
  "\<forall>p. c \<noteq> ListenCall ''health'' p \<Longrightarrow> lcall (health_port b) c h = (None, h @ [(c, None)])"
  by (simp add: lcall_def health_port_def)

lemma construct_all_succeeds:
  assumes "\<And>c h. fst (f c h) = (None, g c)"
  shows "fst (construct_all f cs h) = (None, concat (map g cs))"
proof (induction cs arbitrary: h)
  case (Cons c cs)
  from assms [of c h] obtain h' where "f c h = ((None, g c), h')" by (cases "f c h") auto
  then show ?case using Cons.IH [of h'] by (auto split: prod.splits)
qed simp

lemma connect_db_succeeds: "\<exists>h'. connect_db (health_port b) options h = (None, h')"
  by (simp add: connect_db_def ConnectPostgres_def seq_def prefixed_def)

lemma start_all_outcome:
  "fst (start_all ds (hooks_of (health_port b) hs) h) =
     (if b \<and> (\<exists>p. HealthHook p \<in> set hs) then Some (Ext ''address already in use'') else None)"
proof (induction hs arbitrary: ds h)
  case Nil
  then show ?case by (simp add: hooks_of_def)
next
  case (Cons k hs)
  have hs: "hooks_of L (k # hs) = (hook_start L k, hook_stop L k) # hooks_of L hs" for L
    by (simp add: hooks_of_def)
  show ?case
  proof (cases "b \<and> (\<exists>p. k = HealthHook p)")
    case True
    then show ?thesis by (auto simp: hs seq_def lcall_def health_port_def)
  next
    case False
    then have "\<exists>h'. hook_start (health_port b) k h = (None, h')"
      by (cases k) (auto simp: seq_def lcall_def health_port_def)
    with False Cons.IH show ?thesis by (auto simp: hs)
  qed
qed

end
