(* ===== verification/Order_Module.thy ===== *)
theory Order_Module
  imports Module_Parts
begin

text \<open>
  The order service's \<open>app/module.go\<close>: its constructors with the parameters each takes, the
  functions it invokes, and the hooks they append. \<open>fx.Lifecycle\<close> and \<open>fx.Shutdowner\<close> are the
  framework's own and are left out of the parameters.
\<close>

section \<open>The components\<close>

datatype order_component =
    OAppOptions | OPostgresOptions | ORabbitMQOptions | OLogger | ODB
  | OOrderRepository | OOutboxRepository | OInboxRepository | OOrderService
  | OConnection | OPublisherChannel | OConsumerChannel1 | OConsumerChannel2
  | OPublisher | OOutboxWorker | OStockReservedConsumer | OStockNotReservedConsumer | OHealthHandler
  | OStartOutboxWorker | OStartConsumers | OStartGRPCServer | OStartHealthServer | OManageReadiness

fun order_needs :: "order_component \<Rightarrow> order_component list" where
  "order_needs OAppOptions = []"
| "order_needs OPostgresOptions = []"
| "order_needs ORabbitMQOptions = []"
| "order_needs OLogger = []"
| "order_needs ODB = [OPostgresOptions, OLogger]"
| "order_needs OOrderRepository = [ODB]"
| "order_needs OOutboxRepository = [ODB]"
| "order_needs OInboxRepository = [ODB]"
| "order_needs OOrderService = [OOrderRepository, OInboxRepository]"
| "order_needs OConnection = [ORabbitMQOptions, OLogger]"
| "order_needs OPublisherChannel = [OConnection]"
| "order_needs OConsumerChannel1 = [OConnection]"
| "order_needs OConsumerChannel2 = [OConnection]"
| "order_needs OPublisher = [OPublisherChannel, ORabbitMQOptions]"
| "order_needs OOutboxWorker = [OOutboxRepository, OPublisher, ORabbitMQOptions, OLogger]"
| "order_needs OStockReservedConsumer = [OConsumerChannel1, ORabbitMQOptions, OOrderService, OLogger]"
| "order_needs OStockNotReservedConsumer = [OConsumerChannel2, ORabbitMQOptions, OOrderService, OLogger]"
| "order_needs OHealthHandler = []"
| "order_needs OStartOutboxWorker = [OOutboxWorker, OLogger]"
| "order_needs OStartConsumers = [OStockReservedConsumer, OStockNotReservedConsumer, OLogger]"
| "order_needs OStartGRPCServer = [OAppOptions, OOrderService, OLogger]"
| "order_needs OStartHealthServer = [OAppOptions, OHealthHandler, OLogger]"
| "order_needs OManageReadiness = [OHealthHandler, OLogger]"

definition order_invokes :: "order_component list" where
  "order_invokes = [OStartOutboxWorker, OStartConsumers, OStartGRPCServer, OStartHealthServer, OManageReadiness]"

section \<open>The constructors\<close>

type_synonym order_env = "(AppOptions, OrderRabbitMQOptions) service_env"

definition order_provideAppOptions :: "order_env \<Rightarrow> err + AppOptions" where
  "order_provideAppOptions E = provide_options AppOptions_Validate (se_app E)"

definition order_providePostgresOptions :: "order_env \<Rightarrow> err + PostgresOptions" where
  "order_providePostgresOptions E = provide_options PostgresOptions_Validate (se_postgres E)"

definition order_provideRabbitMQOptions :: "order_env \<Rightarrow> err + OrderRabbitMQOptions" where
  "order_provideRabbitMQOptions E = provide_options OrderRabbitMQOptions_Validate (se_rabbit E)"

text \<open>The hook of the logger is appended even when building the logger has failed.\<close>

definition order_provideLogger :: "order_env \<Rightarrow> life \<Rightarrow> made" where
  "order_provideLogger E =
     given (provide_options LogOptions_Validate (se_log E))
       (\<lambda>level h. ((se_logger E level ''order-service'', [LoggerHook]), h))"

definition order_provideDB :: "outcomes \<Rightarrow> order_env \<Rightarrow> life \<Rightarrow> made" where
  "order_provideDB L E =
     given (order_providePostgresOptions E) (\<lambda>options. opened (connect_db L options) [CloseHook ''postgres''])"

definition order_provideRabbitMQConnection :: "outcomes \<Rightarrow> order_env \<Rightarrow> life \<Rightarrow> made" where
  "order_provideRabbitMQConnection L E =
     given (order_provideRabbitMQOptions E)
       (\<lambda>options. opened (lcall L (OpenCall ''rabbitmq'' (orb_URL options))) [CloseHook ''rabbitmq''])"

definition order_providePublisherChannel :: "outcomes \<Rightarrow> life \<Rightarrow> made" where
  "order_providePublisherChannel L =
     opened (lcall L (OpenCall ''publisher channel'' [])) [CloseHook ''publisher channel'']"

definition provideConsumerChannel1 :: "outcomes \<Rightarrow> life \<Rightarrow> made" where
  "provideConsumerChannel1 L =
     opened (lcall L (OpenCall ''stock reserved channel'' [])) [CloseHook ''stock reserved channel'']"

definition provideConsumerChannel2 :: "outcomes \<Rightarrow> life \<Rightarrow> made" where
  "provideConsumerChannel2 L =
     opened (lcall L (OpenCall ''stock not reserved channel'' [])) [CloseHook ''stock not reserved channel'']"

definition order_providePublisher :: "outcomes \<Rightarrow> life \<Rightarrow> made" where
  "order_providePublisher L = opened (new_publisher L) []"

definition order_StartOutboxWorker :: "life \<Rightarrow> made" where
  "order_StartOutboxWorker = appended [WorkerHook ''outbox worker'']"

definition order_StartConsumers :: "life \<Rightarrow> made" where
  "order_StartConsumers = appended [WorkerHook ''order consumers'']"

definition order_StartGRPCServer :: "order_env \<Rightarrow> life \<Rightarrow> made" where
  "order_StartGRPCServer E =
     given (order_provideAppOptions E) (\<lambda>options. appended [GrpcHook ('':'' @ apo_GRPCPort options)])"

definition order_StartHealthServer :: "order_env \<Rightarrow> life \<Rightarrow> made" where
  "order_StartHealthServer E =
     given (order_provideAppOptions E) (\<lambda>options. appended [HealthHook ('':'' @ apo_HealthPort options)])"

definition order_ManageReadiness :: "life \<Rightarrow> made" where
  "order_ManageReadiness = appended [ReadyHook]"

text \<open>The other constructors only put their parameters together.\<close>

fun order_construct :: "outcomes \<Rightarrow> order_env \<Rightarrow> order_component \<Rightarrow> life \<Rightarrow> made" where
  "order_construct L E OAppOptions = given (order_provideAppOptions E) (\<lambda>_. appended [])"
| "order_construct L E OPostgresOptions = given (order_providePostgresOptions E) (\<lambda>_. appended [])"
| "order_construct L E ORabbitMQOptions = given (order_provideRabbitMQOptions E) (\<lambda>_. appended [])"
| "order_construct L E OLogger = order_provideLogger E"
| "order_construct L E ODB = order_provideDB L E"
| "order_construct L E OConnection = order_provideRabbitMQConnection L E"
| "order_construct L E OPublisherChannel = order_providePublisherChannel L"
| "order_construct L E OConsumerChannel1 = provideConsumerChannel1 L"
| "order_construct L E OConsumerChannel2 = provideConsumerChannel2 L"
| "order_construct L E OPublisher = order_providePublisher L"
| "order_construct L E OStartOutboxWorker = order_StartOutboxWorker"
| "order_construct L E OStartConsumers = order_StartConsumers"
| "order_construct L E OStartGRPCServer = order_StartGRPCServer E"
| "order_construct L E OStartHealthServer = order_StartHealthServer E"
| "order_construct L E OManageReadiness = order_ManageReadiness"
| "order_construct L E c = appended []"

text \<open>What the goroutines of the consumers and of the servers do when they end.\<close>

definition order_consumers_end :: "err option \<Rightarrow> life \<Rightarrow> life" where
  "order_consumers_end = goroutine_end ''order consumers''"

section \<open>The hooks\<close>

fun order_hooks :: "order_env \<Rightarrow> order_component \<Rightarrow> hook list" where
  "order_hooks E OLogger = [LoggerHook]"
| "order_hooks E ODB = [CloseHook ''postgres'']"
| "order_hooks E OConnection = [CloseHook ''rabbitmq'']"
| "order_hooks E OPublisherChannel = [CloseHook ''publisher channel'']"
| "order_hooks E OConsumerChannel1 = [CloseHook ''stock reserved channel'']"
| "order_hooks E OConsumerChannel2 = [CloseHook ''stock not reserved channel'']"
| "order_hooks E OStartOutboxWorker = [WorkerHook ''outbox worker'']"
| "order_hooks E OStartConsumers = [WorkerHook ''order consumers'']"
| "order_hooks E OStartGRPCServer =
     (case order_provideAppOptions E of Inl _ \<Rightarrow> [GrpcHook []] | Inr options \<Rightarrow> [GrpcHook ('':'' @ apo_GRPCPort options)])"
| "order_hooks E OStartHealthServer =
     (case order_provideAppOptions E of Inl _ \<Rightarrow> [HealthHook []] | Inr options \<Rightarrow> [HealthHook ('':'' @ apo_HealthPort options)])"
| "order_hooks E OManageReadiness = [ReadyHook]"
| "order_hooks E c = []"

lemmas order_construct_defs =
  order_provideLogger_def order_provideDB_def order_provideRabbitMQConnection_def
  order_providePublisherChannel_def provideConsumerChannel1_def provideConsumerChannel2_def
  order_providePublisher_def order_StartOutboxWorker_def order_StartConsumers_def
  order_StartGRPCServer_def order_StartHealthServer_def order_ManageReadiness_def

lemma order_construct_hooks:
  "order_construct L E c h = ((None, hs), h') \<Longrightarrow> hs = order_hooks E c"
  by (cases c) (auto simp: order_construct_defs made_hooks)

interpretation order_module: service_module order_needs order_invokes order_construct order_hooks OManageReadiness
proof unfold_locales
  show "hs = order_hooks E c" if "order_construct L E c h = ((None, hs), h')" for L E c h hs h'
    using that by (rule order_construct_hooks)
  show "distinct order_invokes" by (simp add: order_invokes_def)
  show "set (order_needs c) \<inter> set order_invokes = {}" for c by (cases c) (simp_all add: order_invokes_def)
  show "\<exists>us. order_invokes = us @ [OManageReadiness]" by (simp add: order_invokes_def)
  show "order_hooks E OManageReadiness = [ReadyHook]" for E by simp
  show "c = OManageReadiness" if "ReadyHook \<in> set (order_hooks E c)" for E c
    using that by (cases c) (auto split: sum.splits)
qed

end
