(* ===== verification/Inventory_Module.thy ===== *)
theory Inventory_Module
  imports Module_Parts
begin

text \<open>The inventory's \<open>app/module.go\<close>, as \<open>Order_Module\<close> has the order service's.\<close>

section \<open>The components\<close>

datatype inventory_component =
    IAppOptions | IPostgresOptions | IRabbitMQOptions | ILogger | IDB
  | IInventoryRepository | IOutboxRepository | IInventoryService
  | IConnection | IPublisherChannel | IConsumerChannel
  | IPublisher | IOutboxWorker | IReserveStockRequestedConsumer | IHealthHandler
  | IStartOutboxWorker | IStartConsumer | IStartHealthServer | IManageReadiness

fun inventory_needs :: "inventory_component \<Rightarrow> inventory_component list" where
  "inventory_needs IDB = [IPostgresOptions, ILogger]"
| "inventory_needs IInventoryRepository = [IDB]"
| "inventory_needs IOutboxRepository = [IDB]"
| "inventory_needs IInventoryService = [IInventoryRepository]"
| "inventory_needs IConnection = [IRabbitMQOptions, ILogger]"
| "inventory_needs IPublisherChannel = [IConnection]"
| "inventory_needs IConsumerChannel = [IConnection]"
| "inventory_needs IPublisher = [IPublisherChannel, IRabbitMQOptions]"
| "inventory_needs IOutboxWorker = [IOutboxRepository, IPublisher, IRabbitMQOptions, ILogger]"
| "inventory_needs IReserveStockRequestedConsumer = [IConsumerChannel, IRabbitMQOptions, IInventoryService, ILogger]"
| "inventory_needs IStartOutboxWorker = [IOutboxWorker, ILogger]"
| "inventory_needs IStartConsumer = [IReserveStockRequestedConsumer, ILogger]"
| "inventory_needs IStartHealthServer = [IAppOptions, IHealthHandler, ILogger]"
| "inventory_needs IManageReadiness = [IHealthHandler, ILogger]"
| "inventory_needs c = []"

definition inventory_invokes :: "inventory_component list" where
  "inventory_invokes = [IStartOutboxWorker, IStartConsumer, IStartHealthServer, IManageReadiness]"

section \<open>The constructors\<close>

type_synonym inventory_env = "(InventoryAppOptions, InventoryRabbitMQOptions) service_env"

definition inventory_provideAppOptions :: "inventory_env \<Rightarrow> err + InventoryAppOptions" where
  "inventory_provideAppOptions E = provide_options InventoryAppOptions_Validate (se_app E)"

definition inventory_providePostgresOptions :: "inventory_env \<Rightarrow> err + PostgresOptions" where
  "inventory_providePostgresOptions E = provide_options inventory_PostgresOptions_Validate (se_postgres E)"

definition inventory_provideRabbitMQOptions :: "inventory_env \<Rightarrow> err + InventoryRabbitMQOptions" where
  "inventory_provideRabbitMQOptions E = provide_options InventoryRabbitMQOptions_Validate (se_rabbit E)"

definition inventory_provideLogger :: "inventory_env \<Rightarrow> life \<Rightarrow> made" where
  "inventory_provideLogger E =
     given (provide_options LogOptions_Validate (se_log E))
       (\<lambda>level. opened (\<lambda>h. (se_logger E level ''inventory-service'', h)) [LoggerHook])"

definition inventory_provideDB :: "outcomes \<Rightarrow> inventory_env \<Rightarrow> life \<Rightarrow> made" where
  "inventory_provideDB L E =
     given (inventory_providePostgresOptions E) (\<lambda>options. opened (connect_db L options) [CloseHook ''postgres''])"

definition inventory_provideRabbitMQConnection :: "outcomes \<Rightarrow> inventory_env \<Rightarrow> life \<Rightarrow> made" where
  "inventory_provideRabbitMQConnection L E =
     given (inventory_provideRabbitMQOptions E)
       (\<lambda>options. opened (lcall L (OpenCall ''rabbitmq'' (irb_URL options))) [CloseHook ''rabbitmq''])"

definition inventory_providePublisherChannel :: "outcomes \<Rightarrow> life \<Rightarrow> made" where
  "inventory_providePublisherChannel L =
     opened (lcall L (OpenCall ''publisher channel'' [])) [CloseHook ''publisher channel'']"

definition inventory_provideConsumerChannel :: "outcomes \<Rightarrow> life \<Rightarrow> made" where
  "inventory_provideConsumerChannel L =
     opened (lcall L (OpenCall ''consumer channel'' [])) [CloseHook ''consumer channel'']"

definition inventory_providePublisher :: "outcomes \<Rightarrow> life \<Rightarrow> made" where
  "inventory_providePublisher L = opened (new_publisher L) []"

definition inventory_StartOutboxWorker :: "life \<Rightarrow> made" where
  "inventory_StartOutboxWorker = appended [WorkerHook ''outbox worker'']"

definition inventory_StartConsumer :: "life \<Rightarrow> made" where
  "inventory_StartConsumer = appended [WorkerHook ''reserve stock requested consumer'']"

definition inventory_StartHealthServer :: "inventory_env \<Rightarrow> life \<Rightarrow> made" where
  "inventory_StartHealthServer E =
     given (inventory_provideAppOptions E) (\<lambda>options. appended [HealthHook ('':'' @ iao_HealthPort options)])"

definition inventory_ManageReadiness :: "life \<Rightarrow> made" where
  "inventory_ManageReadiness = appended [ReadyHook]"

fun inventory_construct :: "outcomes \<Rightarrow> inventory_env \<Rightarrow> inventory_component \<Rightarrow> life \<Rightarrow> made" where
  "inventory_construct L E IAppOptions = given (inventory_provideAppOptions E) (\<lambda>_. appended [])"
| "inventory_construct L E IPostgresOptions = given (inventory_providePostgresOptions E) (\<lambda>_. appended [])"
| "inventory_construct L E IRabbitMQOptions = given (inventory_provideRabbitMQOptions E) (\<lambda>_. appended [])"
| "inventory_construct L E ILogger = inventory_provideLogger E"
| "inventory_construct L E IDB = inventory_provideDB L E"
| "inventory_construct L E IConnection = inventory_provideRabbitMQConnection L E"
| "inventory_construct L E IPublisherChannel = inventory_providePublisherChannel L"
| "inventory_construct L E IConsumerChannel = inventory_provideConsumerChannel L"
| "inventory_construct L E IPublisher = inventory_providePublisher L"
| "inventory_construct L E IStartOutboxWorker = inventory_StartOutboxWorker"
| "inventory_construct L E IStartConsumer = inventory_StartConsumer"
| "inventory_construct L E IStartHealthServer = inventory_StartHealthServer E"
| "inventory_construct L E IManageReadiness = inventory_ManageReadiness"
| "inventory_construct L E c = appended []"

definition inventory_consumer_end :: "err option \<Rightarrow> life \<Rightarrow> life" where
  "inventory_consumer_end = goroutine_end ''reserve stock requested consumer''"

section \<open>The hooks\<close>

fun inventory_hooks :: "inventory_env \<Rightarrow> inventory_component \<Rightarrow> hook list" where
  "inventory_hooks E ILogger = [LoggerHook]"
| "inventory_hooks E IDB = [CloseHook ''postgres'']"
| "inventory_hooks E IConnection = [CloseHook ''rabbitmq'']"
| "inventory_hooks E IPublisherChannel = [CloseHook ''publisher channel'']"
| "inventory_hooks E IConsumerChannel = [CloseHook ''consumer channel'']"
| "inventory_hooks E IStartOutboxWorker = [WorkerHook ''outbox worker'']"
| "inventory_hooks E IStartConsumer = [WorkerHook ''reserve stock requested consumer'']"
| "inventory_hooks E IStartHealthServer =
     (case inventory_provideAppOptions E of Inl _ \<Rightarrow> [HealthHook []] | Inr options \<Rightarrow> [HealthHook ('':'' @ iao_HealthPort options)])"
| "inventory_hooks E IManageReadiness = [ReadyHook]"
| "inventory_hooks E c = []"

lemmas inventory_construct_defs =
  inventory_provideLogger_def inventory_provideDB_def inventory_provideRabbitMQConnection_def
  inventory_providePublisherChannel_def inventory_provideConsumerChannel_def
  inventory_providePublisher_def inventory_StartOutboxWorker_def inventory_StartConsumer_def
  inventory_StartHealthServer_def inventory_ManageReadiness_def

lemma inventory_construct_hooks:
  "inventory_construct L E c h = ((None, hs), h') \<Longrightarrow> hs = inventory_hooks E c"
  by (cases c) (auto simp: inventory_construct_defs made_hooks)

interpretation inventory_module:
  service_module inventory_needs inventory_invokes inventory_construct inventory_hooks IManageReadiness
proof unfold_locales
  show "hs = inventory_hooks E c" if "inventory_construct L E c h = ((None, hs), h')" for L E c h hs h'
    using that by (rule inventory_construct_hooks)
  show "distinct inventory_invokes" by (simp add: inventory_invokes_def)
  show "set (inventory_needs c) \<inter> set inventory_invokes = {}" for c by (cases c) (simp_all add: inventory_invokes_def)
  show "\<exists>us. inventory_invokes = us @ [IManageReadiness]" by (simp add: inventory_invokes_def)
  show "inventory_hooks E IManageReadiness = [ReadyHook]" for E by simp
  show "c = IManageReadiness" if "ReadyHook \<in> set (inventory_hooks E c)" for E c
    using that by (cases c) (auto split: sum.splits)
qed

end
