(* ===== verification/Catalog_Write_Module.thy ===== *)
theory Catalog_Write_Module
  imports Module_Parts
begin

text \<open>
  The \<open>app/module.go\<close> of the catalog's write side. Here the publisher's constructor opens the
  connection and the channel, and its one hook closes both.
\<close>

section \<open>The components\<close>

datatype write_component =
    WAppOptions | WPostgresOptions | WRabbitMQOptions | WLogger | WDB
  | WProductRepository | WOutboxRepository | WProductService
  | WPublisher | WOutboxWorker | WHealthHandler
  | WStartOutboxWorker | WStartGRPCServer | WStartHealthServer | WManageReadiness

fun write_needs :: "write_component \<Rightarrow> write_component list" where
  "write_needs WDB = [WPostgresOptions, WLogger]"
| "write_needs WProductRepository = [WDB]"
| "write_needs WOutboxRepository = [WDB]"
| "write_needs WProductService = [WProductRepository]"
| "write_needs WPublisher = [WRabbitMQOptions, WLogger]"
| "write_needs WOutboxWorker = [WOutboxRepository, WPublisher, WRabbitMQOptions, WLogger]"
| "write_needs WStartOutboxWorker = [WOutboxWorker, WLogger]"
| "write_needs WStartGRPCServer = [WAppOptions, WProductService, WLogger]"
| "write_needs WStartHealthServer = [WAppOptions, WHealthHandler, WLogger]"
| "write_needs WManageReadiness = [WHealthHandler, WLogger]"
| "write_needs c = []"

definition write_invokes :: "write_component list" where
  "write_invokes = [WStartOutboxWorker, WStartGRPCServer, WStartHealthServer, WManageReadiness]"

section \<open>The constructors\<close>

type_synonym write_env = "(AppOptions, CatalogWriteRabbitMQOptions) service_env"

definition write_provideAppOptions :: "write_env \<Rightarrow> err + AppOptions" where
  "write_provideAppOptions E = provide_options catalog_write_AppOptions_Validate (se_app E)"

definition write_providePostgresOptions :: "write_env \<Rightarrow> err + PostgresOptions" where
  "write_providePostgresOptions E = provide_options catalog_PostgresOptions_Validate (se_postgres E)"

definition write_provideRabbitMQOptions :: "write_env \<Rightarrow> err + CatalogWriteRabbitMQOptions" where
  "write_provideRabbitMQOptions E = provide_options CatalogWriteRabbitMQOptions_Validate (se_rabbit E)"

definition write_provideLogger :: "write_env \<Rightarrow> life \<Rightarrow> made" where
  "write_provideLogger E =
     given (provide_options LogOptions_Validate (se_log E))
       (\<lambda>level h. ((se_logger E level ''catalog-write-service'', [LoggerHook]), h))"

definition write_provideDB :: "outcomes \<Rightarrow> write_env \<Rightarrow> life \<Rightarrow> made" where
  "write_provideDB L E =
     given (write_providePostgresOptions E) (\<lambda>options. opened (connect_db L options) [CloseHook ''postgres''])"

text \<open>The hook is appended before the publisher is set up, whose error is the constructor's.\<close>

definition write_providePublisher :: "outcomes \<Rightarrow> write_env \<Rightarrow> life \<Rightarrow> made" where
  "write_providePublisher L E =
     given (write_provideRabbitMQOptions E)
       (\<lambda>options h.
          (case seq (lcall L (OpenCall ''rabbitmq'' (wrb_URL options)))
                  (lcall L (OpenCall ''publisher channel'' [])) h of
             (Some err, h') \<Rightarrow> ((Some err, []), h')
           | (None, h') \<Rightarrow> (case new_publisher L h' of (e, h'') \<Rightarrow> ((e, [PublisherHook]), h''))))"

definition write_StartOutboxWorker :: "life \<Rightarrow> made" where
  "write_StartOutboxWorker = appended [WorkerHook ''outbox worker'']"

definition write_StartGRPCServer :: "write_env \<Rightarrow> life \<Rightarrow> made" where
  "write_StartGRPCServer E =
     given (write_provideAppOptions E) (\<lambda>options. appended [GrpcHook ('':'' @ apo_GRPCPort options)])"

definition write_StartHealthServer :: "write_env \<Rightarrow> life \<Rightarrow> made" where
  "write_StartHealthServer E =
     given (write_provideAppOptions E) (\<lambda>options. appended [HealthHook ('':'' @ apo_HealthPort options)])"

definition write_ManageReadiness :: "life \<Rightarrow> made" where
  "write_ManageReadiness = appended [ReadyHook]"

fun write_construct :: "outcomes \<Rightarrow> write_env \<Rightarrow> write_component \<Rightarrow> life \<Rightarrow> made" where
  "write_construct L E WAppOptions = given (write_provideAppOptions E) (\<lambda>_. appended [])"
| "write_construct L E WPostgresOptions = given (write_providePostgresOptions E) (\<lambda>_. appended [])"
| "write_construct L E WRabbitMQOptions = given (write_provideRabbitMQOptions E) (\<lambda>_. appended [])"
| "write_construct L E WLogger = write_provideLogger E"
| "write_construct L E WDB = write_provideDB L E"
| "write_construct L E WPublisher = write_providePublisher L E"
| "write_construct L E WStartOutboxWorker = write_StartOutboxWorker"
| "write_construct L E WStartGRPCServer = write_StartGRPCServer E"
| "write_construct L E WStartHealthServer = write_StartHealthServer E"
| "write_construct L E WManageReadiness = write_ManageReadiness"
| "write_construct L E c = appended []"

section \<open>The hooks\<close>

fun write_hooks :: "write_env \<Rightarrow> write_component \<Rightarrow> hook list" where
  "write_hooks E WLogger = [LoggerHook]"
| "write_hooks E WDB = [CloseHook ''postgres'']"
| "write_hooks E WPublisher = [PublisherHook]"
| "write_hooks E WStartOutboxWorker = [WorkerHook ''outbox worker'']"
| "write_hooks E WStartGRPCServer =
     (case write_provideAppOptions E of Inl _ \<Rightarrow> [GrpcHook []] | Inr options \<Rightarrow> [GrpcHook ('':'' @ apo_GRPCPort options)])"
| "write_hooks E WStartHealthServer =
     (case write_provideAppOptions E of Inl _ \<Rightarrow> [HealthHook []] | Inr options \<Rightarrow> [HealthHook ('':'' @ apo_HealthPort options)])"
| "write_hooks E WManageReadiness = [ReadyHook]"
| "write_hooks E c = []"

lemmas write_construct_defs =
  write_provideLogger_def write_provideDB_def write_StartOutboxWorker_def
  write_StartGRPCServer_def write_StartHealthServer_def write_ManageReadiness_def

lemma write_providePublisher_hooks:
  assumes "write_providePublisher L E h = ((None, hs), h')"
  shows "hs = [PublisherHook]"
proof -
  from assms obtain options :: CatalogWriteRabbitMQOptions where *: "(case seq (lcall L (OpenCall ''rabbitmq'' (wrb_URL options)))
        (lcall L (OpenCall ''publisher channel'' [])) h of
      (Some err, h') \<Rightarrow> ((Some err, []), h')
    | (None, h') \<Rightarrow> (case new_publisher L h' of (e, h'') \<Rightarrow> ((e, [PublisherHook]), h''))) = ((None, hs), h')"
    unfolding write_providePublisher_def given_hooks by blast
  obtain r h1 where seq: "seq (lcall L (OpenCall ''rabbitmq'' (wrb_URL options)))
      (lcall L (OpenCall ''publisher channel'' [])) h = (r, h1)" by force
  obtain e h2 where "new_publisher L h1 = (e, h2)" by force
  with * show ?thesis unfolding seq by (cases r) auto
qed

lemma write_construct_hooks:
  "write_construct L E c h = ((None, hs), h') \<Longrightarrow> hs = write_hooks E c"
  by (cases c) (auto simp: write_construct_defs made_hooks dest: write_providePublisher_hooks)

interpretation write_module: service_module write_needs write_invokes write_construct write_hooks WManageReadiness
proof unfold_locales
  show "hs = write_hooks E c" if "write_construct L E c h = ((None, hs), h')" for L E c h hs h'
    using that by (rule write_construct_hooks)
  show "distinct write_invokes" by (simp add: write_invokes_def)
  show "set (write_needs c) \<inter> set write_invokes = {}" for c by (cases c) (simp_all add: write_invokes_def)
  show "\<exists>us. write_invokes = us @ [WManageReadiness]" by (simp add: write_invokes_def)
  show "write_hooks E WManageReadiness = [ReadyHook]" for E by simp
  show "c = WManageReadiness" if "ReadyHook \<in> set (write_hooks E c)" for E c
    using that by (cases c) (auto split: sum.splits)
qed

end
