(* ===== verification/Catalog_Read_Module.thy ===== *)
theory Catalog_Read_Module
  imports Module_Parts
begin

text \<open>
  The \<open>app/module.go\<close> of the catalog's read side, and the connections of its
  \<open>internal/database\<close>.
\<close>

section \<open>The components\<close>

datatype read_component =
    RAppOptions | RMongoOptions | RRedisOptions | RElasticsearchOptions | RRabbitMQOptions | RLogger
  | RMongoClient | RMongoDatabase | RRedisClient | RElasticsearchClient
  | RProductRepository | RInboxRepository | RCacheRepository | RSearchRepository
  | RGettingProducts | RHandlingProductCreated | RIndexingProduct | RSearchingProducts
  | RConnection | RChannel | RSearchChannel | RProductCreatedConsumer | RSearchIndexConsumer
  | RHealthHandler
  | RStartConsumer | RStartGRPCServer | RRegisterMediatorHandlers | RStartHealthServer | RManageReadiness

fun read_needs :: "read_component \<Rightarrow> read_component list" where
  "read_needs RMongoClient = [RMongoOptions, RLogger]"
| "read_needs RMongoDatabase = [RMongoClient, RMongoOptions]"
| "read_needs RRedisClient = [RRedisOptions, RLogger]"
| "read_needs RElasticsearchClient = [RElasticsearchOptions]"
| "read_needs RProductRepository = [RMongoDatabase]"
| "read_needs RInboxRepository = [RMongoDatabase, RMongoOptions]"
| "read_needs RCacheRepository = [RRedisClient]"
| "read_needs RSearchRepository = [RElasticsearchClient, RElasticsearchOptions]"
| "read_needs RGettingProducts = [RProductRepository, RCacheRepository]"
| "read_needs RHandlingProductCreated = [RProductRepository, RInboxRepository, RCacheRepository]"
| "read_needs RIndexingProduct = [RSearchRepository]"
| "read_needs RSearchingProducts = [RSearchRepository]"
| "read_needs RConnection = [RRabbitMQOptions, RLogger]"
| "read_needs RChannel = [RConnection]"
| "read_needs RSearchChannel = [RConnection]"
| "read_needs RProductCreatedConsumer = [RChannel, RRabbitMQOptions, RLogger]"
| "read_needs RSearchIndexConsumer = [RSearchChannel, RRabbitMQOptions, RLogger]"
| "read_needs RStartConsumer = [RProductCreatedConsumer, RSearchIndexConsumer, RLogger]"
| "read_needs RStartGRPCServer = [RAppOptions, RLogger]"
| "read_needs RRegisterMediatorHandlers =
     [RGettingProducts, RHandlingProductCreated, RIndexingProduct, RSearchingProducts]"
| "read_needs RStartHealthServer = [RAppOptions, RHealthHandler, RLogger]"
| "read_needs RManageReadiness = [RHealthHandler, RLogger]"
| "read_needs c = []"

definition read_invokes :: "read_component list" where
  "read_invokes = [RStartConsumer, RStartGRPCServer, RRegisterMediatorHandlers, RStartHealthServer, RManageReadiness]"

section \<open>The constructors\<close>

record read_env =
  re_app :: "err + AppOptions"
  re_mongo :: "err + MongoOptions"
  re_redis :: "err + RedisOptions"
  re_elasticsearch :: "err + ElasticsearchOptions"
  re_rabbit :: "err + CatalogReadRabbitMQOptions"
  re_log :: "err + string"
  re_logger :: "string \<Rightarrow> string \<Rightarrow> err option"

definition read_provideAppOptions :: "read_env \<Rightarrow> err + AppOptions" where
  "read_provideAppOptions E = provide_options catalog_read_AppOptions_Validate (re_app E)"

definition read_provideMongoOptions :: "read_env \<Rightarrow> err + MongoOptions" where
  "read_provideMongoOptions E = provide_options MongoOptions_Validate (re_mongo E)"

definition read_provideElasticsearchOptions :: "read_env \<Rightarrow> err + ElasticsearchOptions" where
  "read_provideElasticsearchOptions E = provide_options ElasticsearchOptions_Validate (re_elasticsearch E)"

definition read_provideRabbitMQOptions :: "read_env \<Rightarrow> err + CatalogReadRabbitMQOptions" where
  "read_provideRabbitMQOptions E = provide_options CatalogReadRabbitMQOptions_Validate (re_rabbit E)"

definition read_provideLogger :: "read_env \<Rightarrow> life \<Rightarrow> made" where
  "read_provideLogger E =
     given (provide_options LogOptions_Validate (re_log E))
       (\<lambda>level. opened (\<lambda>h. (re_logger E level ''catalog-read-service'', h)) [LoggerHook])"

definition ConnectMongo :: "outcomes \<Rightarrow> MongoOptions \<Rightarrow> life act" where
  "ConnectMongo L config =
     seq (prefixed ''failed to connect mongo: '' (lcall L (OpenCall ''mongo'' (mgo_URI config))))
       (prefixed ''failed to ping mongo: '' (lcall L (CheckCall ''ping mongo'')))"

definition read_provideMongoClient :: "outcomes \<Rightarrow> read_env \<Rightarrow> life \<Rightarrow> made" where
  "read_provideMongoClient L E =
     given (read_provideMongoOptions E) (\<lambda>options. opened (ConnectMongo L options) [CloseHook ''mongo''])"

text \<open>The client of Redis connects when it is used; its hook pings it at the start.\<close>

definition NewRedisClient :: "read_env \<Rightarrow> life \<Rightarrow> made" where
  "NewRedisClient E = given (LoadRedisOptions (re_redis E)) (\<lambda>_. appended [RedisHook])"

text \<open>An error of the request for the cluster's information is also an answer with an error status.\<close>

definition NewElasticsearchClient :: "outcomes \<Rightarrow> ElasticsearchOptions \<Rightarrow> life act" where
  "NewElasticsearchClient L options =
     seq (prefixed ''create Elasticsearch client: '' (lcall L (OpenCall ''elasticsearch'' (eso_URL options))))
       (prefixed ''connect to Elasticsearch: '' (lcall L (CheckCall ''elasticsearch info'')))"

definition read_provideRabbitMQConnection :: "outcomes \<Rightarrow> read_env \<Rightarrow> life \<Rightarrow> made" where
  "read_provideRabbitMQConnection L E =
     given (read_provideRabbitMQOptions E)
       (\<lambda>options. opened (lcall L (OpenCall ''rabbitmq'' (rrb_URL options))) [CloseHook ''rabbitmq''])"

definition provideRabbitMQChannel :: "outcomes \<Rightarrow> life \<Rightarrow> made" where
  "provideRabbitMQChannel L =
     opened (lcall L (OpenCall ''product created channel'' [])) [CloseHook ''product created channel'']"

definition provideProductSearchChannel :: "outcomes \<Rightarrow> life \<Rightarrow> made" where
  "provideProductSearchChannel L =
     opened (lcall L (OpenCall ''product search channel'' [])) [CloseHook ''product search channel'']"

definition read_StartConsumer :: "life \<Rightarrow> made" where
  "read_StartConsumer = appended [WorkerHook ''catalog projection consumers'']"

definition read_StartGRPCServer :: "read_env \<Rightarrow> life \<Rightarrow> made" where
  "read_StartGRPCServer E =
     given (read_provideAppOptions E) (\<lambda>options. appended [GrpcHook ('':'' @ apo_GRPCPort options)])"

definition read_StartHealthServer :: "read_env \<Rightarrow> life \<Rightarrow> made" where
  "read_StartHealthServer E =
     given (read_provideAppOptions E) (\<lambda>options. appended [HealthHook ('':'' @ apo_HealthPort options)])"

definition read_ManageReadiness :: "life \<Rightarrow> made" where
  "read_ManageReadiness = appended [ReadyHook]"

definition RegisterMediatorHandlers :: "outcomes \<Rightarrow> life act" where
  "RegisterMediatorHandlers L =
     seq (lcall L (CheckCall ''register getting_products''))
       (seq (lcall L (CheckCall ''register handling_product_created''))
         (seq (lcall L (CheckCall ''register indexing_product''))
           (lcall L (CheckCall ''register searching_products''))))"

text \<open>
  Two repositories make a call when they are constructed: the inbox creates its unique index, and
  the search repository its index (\<open>ensureIndex\<close> of \<open>Catalog_Search\<close>).
\<close>

fun read_construct :: "outcomes \<Rightarrow> read_env \<Rightarrow> read_component \<Rightarrow> life \<Rightarrow> made" where
  "read_construct L E RAppOptions = given (read_provideAppOptions E) (\<lambda>_. appended [])"
| "read_construct L E RMongoOptions = given (read_provideMongoOptions E) (\<lambda>_. appended [])"
| "read_construct L E RRedisOptions = given (LoadRedisOptions (re_redis E)) (\<lambda>_. appended [])"
| "read_construct L E RElasticsearchOptions = given (read_provideElasticsearchOptions E) (\<lambda>_. appended [])"
| "read_construct L E RRabbitMQOptions = given (read_provideRabbitMQOptions E) (\<lambda>_. appended [])"
| "read_construct L E RLogger = read_provideLogger E"
| "read_construct L E RMongoClient = read_provideMongoClient L E"
| "read_construct L E RRedisClient = NewRedisClient E"
| "read_construct L E RElasticsearchClient =
     given (read_provideElasticsearchOptions E) (\<lambda>options. opened (NewElasticsearchClient L options) [])"
| "read_construct L E RInboxRepository = opened (lcall L (CheckCall ''create inbox index'')) []"
| "read_construct L E RSearchRepository = opened (lcall L (CheckCall ''ensure products index'')) []"
| "read_construct L E RConnection = read_provideRabbitMQConnection L E"
| "read_construct L E RChannel = provideRabbitMQChannel L"
| "read_construct L E RSearchChannel = provideProductSearchChannel L"
| "read_construct L E RStartConsumer = read_StartConsumer"
| "read_construct L E RStartGRPCServer = read_StartGRPCServer E"
| "read_construct L E RRegisterMediatorHandlers = opened (RegisterMediatorHandlers L) []"
| "read_construct L E RStartHealthServer = read_StartHealthServer E"
| "read_construct L E RManageReadiness = read_ManageReadiness"
| "read_construct L E c = appended []"

section \<open>The hooks\<close>

fun read_hooks :: "read_env \<Rightarrow> read_component \<Rightarrow> hook list" where
  "read_hooks E RLogger = [LoggerHook]"
| "read_hooks E RMongoClient = [CloseHook ''mongo'']"
| "read_hooks E RRedisClient = [RedisHook]"
| "read_hooks E RConnection = [CloseHook ''rabbitmq'']"
| "read_hooks E RChannel = [CloseHook ''product created channel'']"
| "read_hooks E RSearchChannel = [CloseHook ''product search channel'']"
| "read_hooks E RStartConsumer = [WorkerHook ''catalog projection consumers'']"
| "read_hooks E RStartGRPCServer =
     (case read_provideAppOptions E of Inl _ \<Rightarrow> [GrpcHook []] | Inr options \<Rightarrow> [GrpcHook ('':'' @ apo_GRPCPort options)])"
| "read_hooks E RStartHealthServer =
     (case read_provideAppOptions E of Inl _ \<Rightarrow> [HealthHook []] | Inr options \<Rightarrow> [HealthHook ('':'' @ apo_HealthPort options)])"
| "read_hooks E RManageReadiness = [ReadyHook]"
| "read_hooks E c = []"

lemmas read_construct_defs =
  read_provideLogger_def read_provideMongoClient_def NewRedisClient_def
  read_provideRabbitMQConnection_def provideRabbitMQChannel_def provideProductSearchChannel_def
  read_StartConsumer_def read_StartGRPCServer_def read_StartHealthServer_def read_ManageReadiness_def

lemma read_construct_hooks:
  "read_construct L E c h = ((None, hs), h') \<Longrightarrow> hs = read_hooks E c"
  by (cases c) (auto simp: read_construct_defs made_hooks)

interpretation read_module: service_module read_needs read_invokes read_construct read_hooks RManageReadiness
proof unfold_locales
  show "hs = read_hooks E c" if "read_construct L E c h = ((None, hs), h')" for L E c h hs h'
    using that by (rule read_construct_hooks)
  show "distinct read_invokes" by (simp add: read_invokes_def)
  show "set (read_needs c) \<inter> set read_invokes = {}" for c by (cases c) (simp_all add: read_invokes_def)
  show "\<exists>us. read_invokes = us @ [RManageReadiness]" by (simp add: read_invokes_def)
  show "read_hooks E RManageReadiness = [ReadyHook]" for E by simp
  show "c = RManageReadiness" if "ReadyHook \<in> set (read_hooks E c)" for E c
    using that by (cases c) (auto split: sum.splits)
qed

end
