(* ===== verification/Module_Types.thy ===== *)
theory Module_Types
  imports Order_Module Inventory_Module Catalog_Write_Module Catalog_Read_Module "HOL-Library.Multiset"
begin

text \<open>
  How \<open>fx\<close> finds the parameters of a constructor: by their types, and by the name in the tag
  when a struct of parameters has one. For each module, the types its constructors take and
  give, and the check that they determine \<open>order_needs\<close> and its counterparts: for every parameter
  exactly one constructor is provided, and it is the one the module's dependency list names.
\<close>

section \<open>Resolving a parameter\<close>

text \<open>A key is a type with the name of its tag, empty when there is none. The type \<open>error\<close> of a last
  result is not a key.\<close>

type_synonym fx_key = "string \<times> string"

definition untagged :: "string \<Rightarrow> fx_key" where "untagged t = (t, [])"

definition fx_supplied :: "fx_key list" where
  "fx_supplied = map untagged [''fx.Lifecycle'', ''fx.Shutdowner'']"

definition providers :: "('c \<Rightarrow> fx_key list) \<Rightarrow> 'c list \<Rightarrow> fx_key \<Rightarrow> 'c list" where
  "providers gives provides k = filter (\<lambda>c. k \<in> set (gives c)) provides"

text \<open>The parameters that the framework does not supply itself.\<close>

definition fx_asked :: "fx_key list \<Rightarrow> fx_key list" where
  "fx_asked ks = filter (\<lambda>k. k \<notin> set fx_supplied) ks"

definition resolves ::
  "('c \<Rightarrow> fx_key list) \<Rightarrow> ('c \<Rightarrow> fx_key list) \<Rightarrow> 'c list \<Rightarrow> 'c \<Rightarrow> 'c list \<Rightarrow> bool" where
  "resolves takes gives provides c cs \<longleftrightarrow>
     map (providers gives provides) (fx_asked (takes c)) = map (\<lambda>d. [d]) cs"

text \<open>Then no parameter lacks a provider and none has two.\<close>

lemma resolves_unique:
  assumes "resolves takes gives provides c cs" and "k \<in> set (takes c)" and "k \<notin> set fx_supplied"
  shows "\<exists>d\<in>set cs. providers gives provides k = [d]"
proof -
  have "providers gives provides k \<in> set (map (providers gives provides) (fx_asked (takes c)))"
    using assms(2,3) by (simp add: fx_asked_def)
  with assms(1) have "providers gives provides k \<in> set (map (\<lambda>d. [d]) cs)" unfolding resolves_def by simp
  then show ?thesis by auto
qed

lemma resolves_functional:
  assumes "resolves takes gives provides c cs" and "resolves takes gives provides c ds"
  shows "cs = ds"
proof -
  have "map (\<lambda>d. [d]) cs = map (\<lambda>d. [d]) ds" using assms by (simp add: resolves_def)
  then show ?thesis by (induction cs arbitrary: ds) auto
qed

section \<open>Construction from a list of constructors\<close>

text \<open>
  What a component needs, when only the constructors of \<open>ps\<close> are provided: for every parameter the
  one constructor that gives it. When a parameter has no provider, or more than one, the
  construction fails. Otherwise it goes depth first, as in \<open>dig\<close>.
\<close>

definition fx_needs :: "('c \<Rightarrow> fx_key list) \<Rightarrow> ('c \<Rightarrow> fx_key list) \<Rightarrow> 'c list \<Rightarrow> 'c \<Rightarrow> 'c list option" where
  "fx_needs takes gives ps c =
     (let found = map (providers gives ps) (fx_asked (takes c))
      in if list_all (\<lambda>ds. length ds = 1) found then Some (concat found) else None)"

fun fx_dig :: "('c \<Rightarrow> 'c list option) \<Rightarrow> nat \<Rightarrow> 'c list \<Rightarrow> 'c list \<Rightarrow> 'c list option" where
  "fx_dig look 0 B ds = None"
| "fx_dig look (Suc n) B [] = Some []"
| "fx_dig look (Suc n) B (d # ds) =
     (if d \<in> set B then fx_dig look n B ds
      else (case look d of
              None \<Rightarrow> None
            | Some ns \<Rightarrow>
                (case fx_dig look n B ns of
                   None \<Rightarrow> None
                 | Some ps \<Rightarrow>
                     (if d \<in> set ps then None
                      else (case fx_dig look n (d # ps @ B) ds of None \<Rightarrow> None | Some qs \<Rightarrow> Some (ps @ d # qs))))))"

fun fx_dig_all :: "('c \<Rightarrow> 'c list option) \<Rightarrow> nat \<Rightarrow> 'c list \<Rightarrow> 'c list \<Rightarrow> 'c list option" where
  "fx_dig_all look n B [] = Some []"
| "fx_dig_all look n B (i # invs) =
     (case look i of
        None \<Rightarrow> None
      | Some ns \<Rightarrow>
          (case fx_dig look n B ns of
             None \<Rightarrow> None
           | Some ps \<Rightarrow>
               (case fx_dig_all look n (i # ps @ B) invs of None \<Rightarrow> None | Some cs \<Rightarrow> Some (ps @ i # cs))))"

text \<open>Twelve levels are enough for the chains of parameters of the four modules.\<close>

definition fx_construct ::
  "('c \<Rightarrow> fx_key list) \<Rightarrow> ('c \<Rightarrow> fx_key list) \<Rightarrow> 'c list \<Rightarrow> 'c list \<Rightarrow> 'c list option" where
  "fx_construct takes gives ps invs = fx_dig_all (fx_needs takes gives ps) 12 [] invs"

lemma fx_dig_total: "(\<And>c. look c = Some (needs c)) \<Longrightarrow> fx_dig look n B ds = dig needs n B ds"
  by (induction look n B ds rule: fx_dig.induct) (auto split: option.splits)

lemma fx_dig_all_total: "(\<And>c. look c = Some (needs c)) \<Longrightarrow> fx_dig_all look n B invs = dig_all needs n B invs"
  by (induction invs arbitrary: B) (auto simp: fx_dig_total split: option.splits)

lemma fx_dig_sound:
  assumes "\<And>c ns. look c = Some ns \<Longrightarrow> ns = needs c \<and> set ns \<subseteq> P"
    and "fx_dig look n B ds = Some cs" and "set ds \<subseteq> P"
  shows "dig needs n B ds = Some cs \<and> set cs \<subseteq> {c \<in> P. look c = Some (needs c)}"
  using assms
proof (induction look n B ds arbitrary: cs rule: fx_dig.induct)
  case (3 look n B d ds)
  show ?case
  proof (cases "d \<in> set B")
    case True
    with 3 show ?thesis by auto
  next
    case False
    with 3(5) obtain ns ps qs where
      f: "look d = Some ns" and ps: "fx_dig look n B ns = Some ps" "d \<notin> set ps"
      and qs: "fx_dig look n (d # ps @ B) ds = Some qs" "cs = ps @ d # qs"
      by (auto split: option.splits if_splits)
    have ns: "ns = needs d" "set ns \<subseteq> P" using 3(4) [OF f] by auto
    have "dig needs n B ns = Some ps \<and> set ps \<subseteq> {c \<in> P. look c = Some (needs c)}"
      by (rule 3(2) [OF False f 3(4) ps(1) ns(2)])
    moreover have "dig needs n (d # ps @ B) ds = Some qs \<and> set qs \<subseteq> {c \<in> P. look c = Some (needs c)}"
      by (rule 3(3) [OF False f ps(1,2) 3(4) qs(1)]) (use 3(6) in auto)
    ultimately show ?thesis using False ps(2) qs(2) f ns 3(6) by auto
  qed
qed auto

lemma fx_dig_all_sound:
  assumes "\<And>c ns. look c = Some ns \<Longrightarrow> ns = needs c \<and> set ns \<subseteq> P" and "fx_dig_all look n B invs = Some cs"
  shows "dig_all needs n B invs = Some cs \<and> set cs \<subseteq> {c \<in> P \<union> set invs. look c = Some (needs c)}"
  using assms(2)
proof (induction invs arbitrary: B cs)
  case (Cons i invs)
  then obtain ns ps cs' where f: "look i = Some ns" and ps: "fx_dig look n B ns = Some ps"
    and cs': "fx_dig_all look n (i # ps @ B) invs = Some cs'" "cs = ps @ i # cs'"
    by (auto split: option.splits)
  have ns: "ns = needs i" "set ns \<subseteq> P" using assms(1) [OF f] by auto
  have "dig needs n B ns = Some ps \<and> set ps \<subseteq> {c \<in> P. look c = Some (needs c)}"
    by (rule fx_dig_sound [OF assms(1) ps ns(2)])
  with Cons.IH [OF cs'(1)] cs'(2) f ns(1) show ?case by auto
qed simp

lemma map_singletons:
  "map f xs = map (\<lambda>d. [d]) ds \<Longrightarrow> list_all (\<lambda>ys. length ys = 1) (map f xs) \<and> concat (map f xs) = ds"
  by (induction xs arbitrary: ds) (auto simp: Cons_eq_map_conv)

lemma fx_needs_full:
  assumes "resolves takes gives provides c ns" and "mset ps = mset provides"
  shows "fx_needs takes gives ps c = Some ns"
proof -
  have "providers gives ps k = [d]" if "providers gives provides k = [d]" for k d
  proof -
    have "mset (providers gives ps k) = mset (providers gives provides k)"
      using assms(2) by (simp add: providers_def)
    then show ?thesis using that by simp
  qed
  moreover from assms(1) have r: "map (providers gives provides) (fx_asked (takes c)) = map (\<lambda>d. [d]) ns"
    by (simp add: resolves_def)
  ultimately have "map (providers gives ps) (fx_asked (takes c)) = map (\<lambda>d. [d]) ns"
    by (auto simp: list_eq_iff_nth_eq)
  from map_singletons [OF this] show ?thesis by (simp add: fx_needs_def)
qed

lemma fx_needs_some:
  assumes "resolves takes gives provides c ns" and "set ps \<subseteq> set provides" and "fx_needs takes gives ps c = Some ms"
  shows "ms = ns \<and> set ms \<subseteq> {d. \<exists>k. providers gives ps k = [d]}"
proof -
  let ?ks = "fx_asked (takes c)"
  have r: "map (providers gives provides) ?ks = map (\<lambda>d. [d]) ns" using assms(1) by (simp add: resolves_def)
  then have len: "length ?ks = length ns" using map_eq_imp_length_eq by blast
  have one: "length (providers gives ps (?ks ! i)) = 1" if "i < length ns" for i
    using assms(3) that len by (auto simp: fx_needs_def Let_def list_all_length split: if_splits)
  have at: "providers gives ps (?ks ! i) = [ns ! i]" if i: "i < length ns" for i
  proof -
    obtain d where d: "providers gives ps (?ks ! i) = [d]" using one [OF i] by (auto simp: length_Suc_conv)
    have "set (providers gives ps (?ks ! i)) \<subseteq> set (providers gives provides (?ks ! i))"
      using assms(2) by (auto simp: providers_def)
    moreover have "providers gives provides (?ks ! i) = [ns ! i]" using r i len by (metis nth_map)
    ultimately show ?thesis using d by simp
  qed
  then have found: "map (providers gives ps) ?ks = map (\<lambda>d. [d]) ns" using len by (simp add: list_eq_iff_nth_eq)
  then have "ms = ns" using assms(3) map_singletons [OF found] by (simp add: fx_needs_def)
  moreover have "d \<in> {d. \<exists>k. providers gives ps k = [d]}" if "d \<in> set ns" for d
    using that at by (simp only: in_set_conv_nth mem_Collect_eq) blast
  ultimately show ?thesis by blast
qed

text \<open>
  \<open>module_wired\<close>: from the constructors of a module, however listed, the container constructs the
  process exactly when each is provided once. Then every component of the module is
  constructed, once, after what \<open>needs\<close> names, which is what its parameters resolve to.
\<close>

definition module_wired ::
  "('c \<Rightarrow> fx_key list) \<Rightarrow> ('c \<Rightarrow> fx_key list) \<Rightarrow> 'c list \<Rightarrow> ('c \<Rightarrow> 'c list) \<Rightarrow> 'c list \<Rightarrow> bool" where
  "module_wired takes gives provides needs invs \<longleftrightarrow>
     (\<forall>ps. set ps \<subseteq> set provides \<longrightarrow>
        (case fx_construct takes gives ps invs of
           None \<Rightarrow> mset ps \<noteq> mset provides
         | Some cs \<Rightarrow> mset ps = mset provides \<and> fx_order needs invs {} cs \<and> distinct cs
             \<and> (\<forall>c. c \<in> set cs \<and> fx_needs takes gives ps c = Some (needs c) \<and> (\<forall>d\<in>set (needs c). precedes cs d c))))"

lemma module_wiredI:
  assumes resolved: "\<And>c. resolves takes gives provides c (needs c)"
    and ends: "dig_all needs 12 [] invs \<noteq> None"
    and all: "\<And>cs c. fx_order needs invs {} cs \<Longrightarrow> c \<in> set cs"
    and dist: "\<And>cs. fx_order needs invs {} cs \<Longrightarrow> distinct cs"
    and listed: "distinct provides" "set provides \<inter> set invs = {}"
  shows "module_wired takes gives provides needs invs"
  unfolding module_wired_def
proof (intro allI impI)
  fix ps assume sub: "set ps \<subseteq> set provides"
  show "case fx_construct takes gives ps invs of
           None \<Rightarrow> mset ps \<noteq> mset provides
         | Some cs \<Rightarrow> mset ps = mset provides \<and> fx_order needs invs {} cs \<and> distinct cs
             \<and> (\<forall>c. c \<in> set cs \<and> fx_needs takes gives ps c = Some (needs c) \<and> (\<forall>d\<in>set (needs c). precedes cs d c))"
  proof (cases "fx_construct takes gives ps invs")
    case None
    have "mset ps \<noteq> mset provides"
    proof
      assume "mset ps = mset provides"
      then have "fx_needs takes gives ps c = Some (needs c)" for c by (rule fx_needs_full [OF resolved])
      then show False using None ends by (simp add: fx_construct_def fx_dig_all_total)
    qed
    with None show ?thesis by simp
  next
    case (Some cs)
    let ?P = "{d. \<exists>k. providers gives ps k = [d]}"
    have run: "dig_all needs 12 [] invs = Some cs"
      and within: "set cs \<subseteq> {c \<in> ?P \<union> set invs. fx_needs takes gives ps c = Some (needs c)}"
      using fx_dig_all_sound [OF fx_needs_some [OF resolved sub] Some [unfolded fx_construct_def]] by auto
    have ord: "fx_order needs invs {} cs" using dig_all_order [OF run] by simp
    have "count (mset ps) d = 1" if "d \<in> set provides" for d
    proof -
      have "d \<in> ?P" using all [OF ord, of d] within that listed(2) by auto
      then obtain k where k: "filter (\<lambda>c. k \<in> set (gives c)) ps = [d]" by (auto simp: providers_def)
      then have "d \<in> set (filter (\<lambda>c. k \<in> set (gives c)) ps)" by simp
      then have "count (mset ps) d = count (mset (filter (\<lambda>c. k \<in> set (gives c)) ps)) d" by simp
      then show ?thesis by (simp add: k)
    qed
    moreover have "count (mset ps) d = 0" if "d \<notin> set provides" for d
      using that sub by (auto simp: count_eq_zero_iff)
    ultimately have "mset ps = mset provides"
      using listed(1) by (auto intro!: multiset_eqI simp: distinct_count_atmost_1)
    moreover have "\<forall>c. c \<in> set cs \<and> fx_needs takes gives ps c = Some (needs c) \<and> (\<forall>d\<in>set (needs c). precedes cs d c)"
      using all [OF ord] within fx_order_precedes [OF ord] by blast
    ultimately show ?thesis using Some ord dist [OF ord] by simp
  qed
qed

section \<open>The order service\<close>

definition order_PublisherChannelOut :: "fx_key list" where
  "order_PublisherChannelOut = [(''*amqp.Channel'', ''publisher_channel'')]"

definition StockReservedChannelOut :: "fx_key list" where
  "StockReservedChannelOut = [(''*amqp.Channel'', ''stock_reserved_channel'')]"

definition StockNotReservedChannelOut :: "fx_key list" where
  "StockNotReservedChannelOut = [(''*amqp.Channel'', ''stock_not_reserved_channel'')]"

definition order_PublisherParams :: "fx_key list" where
  "order_PublisherParams = [(''*amqp.Channel'', ''publisher_channel''), untagged ''*messaging.RabbitMQOptions'']"

definition StockReservedConsumerParams :: "fx_key list" where
  "StockReservedConsumerParams = (''*amqp.Channel'', ''stock_reserved_channel'')
     # map untagged [''*messaging.RabbitMQOptions'', ''port.OrderService'', ''*zap.Logger'']"

definition StockNotReservedConsumerParams :: "fx_key list" where
  "StockNotReservedConsumerParams = (''*amqp.Channel'', ''stock_not_reserved_channel'')
     # map untagged [''*messaging.RabbitMQOptions'', ''port.OrderService'', ''*zap.Logger'']"

definition order_provides :: "order_component list" where
  "order_provides =
     [OAppOptions, OPostgresOptions, ORabbitMQOptions, OLogger, ODB, OOrderRepository, OOutboxRepository,
      OInboxRepository, OOrderService, OConnection, OPublisherChannel, OConsumerChannel1, OConsumerChannel2,
      OPublisher, OOutboxWorker, OStockReservedConsumer, OStockNotReservedConsumer, OHealthHandler]"

fun order_gives :: "order_component \<Rightarrow> fx_key list" where
  "order_gives OAppOptions = map untagged [''*config.AppOptions'']"
| "order_gives OPostgresOptions = map untagged [''*database.PostgresOptions'']"
| "order_gives ORabbitMQOptions = map untagged [''*messaging.RabbitMQOptions'']"
| "order_gives OLogger = map untagged [''*zap.Logger'']"
| "order_gives ODB = map untagged [''*gorm.DB'']"
| "order_gives OOrderRepository = map untagged [''port.OrderRespository'']"
| "order_gives OOutboxRepository = map untagged [''port.OutboxRepository'']"
| "order_gives OInboxRepository = map untagged [''port.InboxRepository'']"
| "order_gives OOrderService = map untagged [''port.OrderService'']"
| "order_gives OConnection = map untagged [''*amqp.Connection'']"
| "order_gives OPublisherChannel = order_PublisherChannelOut"
| "order_gives OConsumerChannel1 = StockReservedChannelOut"
| "order_gives OConsumerChannel2 = StockNotReservedChannelOut"
| "order_gives OPublisher = map untagged [''port.EventPublisher'']"
| "order_gives OOutboxWorker = map untagged [''*worker.OutboxWorker'']"
| "order_gives OStockReservedConsumer = map untagged [''*messaging.StockReservedConsumer'']"
| "order_gives OStockNotReservedConsumer = map untagged [''*messaging.StockNotReservedConsumer'']"
| "order_gives OHealthHandler = map untagged [''*health.Handler'']"
| "order_gives c = []"

fun order_takes :: "order_component \<Rightarrow> fx_key list" where
  "order_takes OLogger = map untagged [''fx.Lifecycle'']"
| "order_takes ODB = map untagged [''*database.PostgresOptions'', ''fx.Lifecycle'', ''*zap.Logger'']"
| "order_takes OOrderRepository = map untagged [''*gorm.DB'']"
| "order_takes OOutboxRepository = map untagged [''*gorm.DB'']"
| "order_takes OInboxRepository = map untagged [''*gorm.DB'']"
| "order_takes OOrderService = map untagged [''port.OrderRespository'', ''port.InboxRepository'']"
| "order_takes OConnection = map untagged [''*messaging.RabbitMQOptions'', ''fx.Lifecycle'', ''*zap.Logger'']"
| "order_takes OPublisherChannel = map untagged [''*amqp.Connection'', ''fx.Lifecycle'']"
| "order_takes OConsumerChannel1 = map untagged [''*amqp.Connection'', ''fx.Lifecycle'']"
| "order_takes OConsumerChannel2 = map untagged [''*amqp.Connection'', ''fx.Lifecycle'']"
| "order_takes OPublisher = order_PublisherParams"
| "order_takes OOutboxWorker = map untagged
     [''port.OutboxRepository'', ''port.EventPublisher'', ''*messaging.RabbitMQOptions'', ''*zap.Logger'']"
| "order_takes OStockReservedConsumer = StockReservedConsumerParams"
| "order_takes OStockNotReservedConsumer = StockNotReservedConsumerParams"
| "order_takes OStartOutboxWorker = map untagged [''fx.Lifecycle'', ''*worker.OutboxWorker'', ''*zap.Logger'']"
| "order_takes OStartConsumers = map untagged
     [''fx.Lifecycle'', ''*messaging.StockReservedConsumer'', ''*messaging.StockNotReservedConsumer'',
      ''fx.Shutdowner'', ''*zap.Logger'']"
| "order_takes OStartGRPCServer = map untagged
     [''fx.Lifecycle'', ''*config.AppOptions'', ''port.OrderService'', ''fx.Shutdowner'', ''*zap.Logger'']"
| "order_takes OStartHealthServer = map untagged
     [''fx.Lifecycle'', ''*config.AppOptions'', ''*health.Handler'', ''fx.Shutdowner'', ''*zap.Logger'']"
| "order_takes OManageReadiness = map untagged [''fx.Lifecycle'', ''*health.Handler'', ''*zap.Logger'']"
| "order_takes c = []"

lemma order_resolves: "resolves order_takes order_gives order_provides c (order_needs c)"
  by (cases c; hypsubst; code_simp)

text \<open>Without the names in the tags three constructors would give the publisher its channel.\<close>

lemma order_channels_need_names:
  "providers (\<lambda>c. map (untagged \<circ> fst) (order_gives c)) order_provides (untagged ''*amqp.Channel'')
     = [OPublisherChannel, OConsumerChannel1, OConsumerChannel2]"
  by code_simp

section \<open>The inventory service\<close>

definition inventory_PublisherChannelOut :: "fx_key list" where
  "inventory_PublisherChannelOut = [(''*amqp.Channel'', ''publisher_channel'')]"

definition ConsumerChannelOut :: "fx_key list" where
  "ConsumerChannelOut = [(''*amqp.Channel'', ''consumer_channel'')]"

definition inventory_PublisherParams :: "fx_key list" where
  "inventory_PublisherParams = [(''*amqp.Channel'', ''publisher_channel''), untagged ''*messaging.RabbitMQOptions'']"

definition ConsumerParams :: "fx_key list" where
  "ConsumerParams = (''*amqp.Channel'', ''consumer_channel'')
     # map untagged [''*messaging.RabbitMQOptions'', ''port.InventoryService'', ''*zap.Logger'']"

definition inventory_provides :: "inventory_component list" where
  "inventory_provides =
     [IAppOptions, IPostgresOptions, IRabbitMQOptions, ILogger, IDB, IInventoryRepository, IOutboxRepository,
      IInventoryService, IConnection, IPublisherChannel, IConsumerChannel, IPublisher, IOutboxWorker,
      IReserveStockRequestedConsumer, IHealthHandler]"

fun inventory_gives :: "inventory_component \<Rightarrow> fx_key list" where
  "inventory_gives IAppOptions = map untagged [''*config.AppOptions'']"
| "inventory_gives IPostgresOptions = map untagged [''*database.PostgresOptions'']"
| "inventory_gives IRabbitMQOptions = map untagged [''*messaging.RabbitMQOptions'']"
| "inventory_gives ILogger = map untagged [''*zap.Logger'']"
| "inventory_gives IDB = map untagged [''*gorm.DB'']"
| "inventory_gives IInventoryRepository = map untagged [''port.InventoryRepository'']"
| "inventory_gives IOutboxRepository = map untagged [''port.OutboxRepository'']"
| "inventory_gives IInventoryService = map untagged [''port.InventoryService'']"
| "inventory_gives IConnection = map untagged [''*amqp.Connection'']"
| "inventory_gives IPublisherChannel = inventory_PublisherChannelOut"
| "inventory_gives IConsumerChannel = ConsumerChannelOut"
| "inventory_gives IPublisher = map untagged [''port.EventPublisher'']"
| "inventory_gives IOutboxWorker = map untagged [''*worker.OutboxWorker'']"
| "inventory_gives IReserveStockRequestedConsumer = map untagged [''*messaging.ReserveStockRequestedConsumer'']"
| "inventory_gives IHealthHandler = map untagged [''*health.Handler'']"
| "inventory_gives c = []"

fun inventory_takes :: "inventory_component \<Rightarrow> fx_key list" where
  "inventory_takes ILogger = map untagged [''fx.Lifecycle'']"
| "inventory_takes IDB = map untagged [''*database.PostgresOptions'', ''fx.Lifecycle'', ''*zap.Logger'']"
| "inventory_takes IInventoryRepository = map untagged [''*gorm.DB'']"
| "inventory_takes IOutboxRepository = map untagged [''*gorm.DB'']"
| "inventory_takes IInventoryService = map untagged [''port.InventoryRepository'']"
| "inventory_takes IConnection = map untagged [''*messaging.RabbitMQOptions'', ''fx.Lifecycle'', ''*zap.Logger'']"
| "inventory_takes IPublisherChannel = map untagged [''*amqp.Connection'', ''fx.Lifecycle'']"
| "inventory_takes IConsumerChannel = map untagged [''*amqp.Connection'', ''fx.Lifecycle'']"
| "inventory_takes IPublisher = inventory_PublisherParams"
| "inventory_takes IOutboxWorker = map untagged
     [''port.OutboxRepository'', ''port.EventPublisher'', ''*messaging.RabbitMQOptions'', ''*zap.Logger'']"
| "inventory_takes IReserveStockRequestedConsumer = ConsumerParams"
| "inventory_takes IStartOutboxWorker = map untagged [''fx.Lifecycle'', ''*worker.OutboxWorker'', ''*zap.Logger'']"
| "inventory_takes IStartConsumer = map untagged
     [''fx.Lifecycle'', ''*messaging.ReserveStockRequestedConsumer'', ''fx.Shutdowner'', ''*zap.Logger'']"
| "inventory_takes IStartHealthServer = map untagged
     [''fx.Lifecycle'', ''*config.AppOptions'', ''*health.Handler'', ''fx.Shutdowner'', ''*zap.Logger'']"
| "inventory_takes IManageReadiness = map untagged [''fx.Lifecycle'', ''*health.Handler'', ''*zap.Logger'']"
| "inventory_takes c = []"

lemma inventory_resolves: "resolves inventory_takes inventory_gives inventory_provides c (inventory_needs c)"
  by (cases c; hypsubst; code_simp)

section \<open>The catalog's write side\<close>

definition write_provides :: "write_component list" where
  "write_provides =
     [WAppOptions, WPostgresOptions, WRabbitMQOptions, WLogger, WDB, WProductRepository, WOutboxRepository,
      WProductService, WPublisher, WOutboxWorker, WHealthHandler]"

fun write_gives :: "write_component \<Rightarrow> fx_key list" where
  "write_gives WAppOptions = map untagged [''*config.AppOptions'']"
| "write_gives WPostgresOptions = map untagged [''*database.PostgresOptions'']"
| "write_gives WRabbitMQOptions = map untagged [''*messaging.RabbitMQOptions'']"
| "write_gives WLogger = map untagged [''*zap.Logger'']"
| "write_gives WDB = map untagged [''*gorm.DB'']"
| "write_gives WProductRepository = map untagged [''port.ProductRepository'']"
| "write_gives WOutboxRepository = map untagged [''port.OutboxRepository'']"
| "write_gives WProductService = map untagged [''port.ProductService'']"
| "write_gives WPublisher = map untagged [''port.EventPublisher'']"
| "write_gives WOutboxWorker = map untagged [''*worker.OutboxWorker'']"
| "write_gives WHealthHandler = map untagged [''*health.Handler'']"
| "write_gives c = []"

fun write_takes :: "write_component \<Rightarrow> fx_key list" where
  "write_takes WLogger = map untagged [''fx.Lifecycle'']"
| "write_takes WDB = map untagged [''*database.PostgresOptions'', ''fx.Lifecycle'', ''*zap.Logger'']"
| "write_takes WProductRepository = map untagged [''*gorm.DB'']"
| "write_takes WOutboxRepository = map untagged [''*gorm.DB'']"
| "write_takes WProductService = map untagged [''port.ProductRepository'']"
| "write_takes WPublisher = map untagged [''*messaging.RabbitMQOptions'', ''fx.Lifecycle'', ''*zap.Logger'']"
| "write_takes WOutboxWorker = map untagged
     [''port.OutboxRepository'', ''port.EventPublisher'', ''*messaging.RabbitMQOptions'', ''*zap.Logger'']"
| "write_takes WStartOutboxWorker = map untagged [''fx.Lifecycle'', ''*worker.OutboxWorker'', ''*zap.Logger'']"
| "write_takes WStartGRPCServer = map untagged
     [''*config.AppOptions'', ''fx.Lifecycle'', ''port.ProductService'', ''fx.Shutdowner'', ''*zap.Logger'']"
| "write_takes WStartHealthServer = map untagged
     [''fx.Lifecycle'', ''*config.AppOptions'', ''*health.Handler'', ''fx.Shutdowner'', ''*zap.Logger'']"
| "write_takes WManageReadiness = map untagged [''fx.Lifecycle'', ''*health.Handler'', ''*zap.Logger'']"
| "write_takes c = []"

lemma write_resolves: "resolves write_takes write_gives write_provides c (write_needs c)"
  by (cases c; hypsubst; code_simp)

section \<open>The catalog's read side\<close>

text \<open>Its second channel is told from the first by a type of its own, \<open>productSearchChannel\<close>.\<close>

definition read_provides :: "read_component list" where
  "read_provides =
     [RAppOptions, RMongoOptions, RRedisOptions, RElasticsearchOptions, RRabbitMQOptions, RLogger,
      RMongoClient, RMongoDatabase, RRedisClient, RElasticsearchClient, RProductRepository, RInboxRepository,
      RCacheRepository, RSearchRepository, RGettingProducts, RHandlingProductCreated, RIndexingProduct,
      RSearchingProducts, RConnection, RChannel, RSearchChannel, RProductCreatedConsumer,
      RSearchIndexConsumer, RHealthHandler]"

fun read_gives :: "read_component \<Rightarrow> fx_key list" where
  "read_gives RAppOptions = map untagged [''*config.AppOptions'']"
| "read_gives RMongoOptions = map untagged [''*database.MongoOptions'']"
| "read_gives RRedisOptions = map untagged [''*database.RedisOptions'']"
| "read_gives RElasticsearchOptions = map untagged [''*database.ElasticsearchOptions'']"
| "read_gives RRabbitMQOptions = map untagged [''*messaging.RabbitMQOptions'']"
| "read_gives RLogger = map untagged [''*zap.Logger'']"
| "read_gives RMongoClient = map untagged [''*mongo.Client'']"
| "read_gives RMongoDatabase = map untagged [''*mongo.Database'']"
| "read_gives RRedisClient = map untagged [''*redis.Client'']"
| "read_gives RElasticsearchClient = map untagged [''*elasticsearch.Client'']"
| "read_gives RProductRepository = map untagged [''port.ProductRepository'']"
| "read_gives RInboxRepository = map untagged [''port.InboxRepository'']"
| "read_gives RCacheRepository = map untagged [''port.ProductCacheRepository'']"
| "read_gives RSearchRepository = map untagged [''port.ProductSearchRepository'']"
| "read_gives RGettingProducts = map untagged [''*gettingproducts.Handler'']"
| "read_gives RHandlingProductCreated = map untagged [''*handlingproductcreated.Handler'']"
| "read_gives RIndexingProduct = map untagged [''*indexingproduct.Handler'']"
| "read_gives RSearchingProducts = map untagged [''*searchingproducts.Handler'']"
| "read_gives RConnection = map untagged [''*amqp.Connection'']"
| "read_gives RChannel = map untagged [''*amqp.Channel'']"
| "read_gives RSearchChannel = map untagged [''*productSearchChannel'']"
| "read_gives RProductCreatedConsumer = map untagged [''*messaging.ProductCreatedConsumer'']"
| "read_gives RSearchIndexConsumer = map untagged [''*messaging.ProductSearchIndexConsumer'']"
| "read_gives RHealthHandler = map untagged [''*health.Handler'']"
| "read_gives c = []"

fun read_takes :: "read_component \<Rightarrow> fx_key list" where
  "read_takes RLogger = map untagged [''fx.Lifecycle'']"
| "read_takes RMongoClient = map untagged [''*database.MongoOptions'', ''fx.Lifecycle'', ''*zap.Logger'']"
| "read_takes RMongoDatabase = map untagged [''*mongo.Client'', ''*database.MongoOptions'']"
| "read_takes RRedisClient = map untagged [''*database.RedisOptions'', ''fx.Lifecycle'', ''*zap.Logger'']"
| "read_takes RElasticsearchClient = map untagged [''*database.ElasticsearchOptions'']"
| "read_takes RProductRepository = map untagged [''*mongo.Database'']"
| "read_takes RInboxRepository = map untagged [''*mongo.Database'', ''*database.MongoOptions'']"
| "read_takes RCacheRepository = map untagged [''*redis.Client'']"
| "read_takes RSearchRepository = map untagged [''*elasticsearch.Client'', ''*database.ElasticsearchOptions'']"
| "read_takes RGettingProducts = map untagged [''port.ProductRepository'', ''port.ProductCacheRepository'']"
| "read_takes RHandlingProductCreated = map untagged
     [''port.ProductRepository'', ''port.InboxRepository'', ''port.ProductCacheRepository'']"
| "read_takes RIndexingProduct = map untagged [''port.ProductSearchRepository'']"
| "read_takes RSearchingProducts = map untagged [''port.ProductSearchRepository'']"
| "read_takes RConnection = map untagged [''*messaging.RabbitMQOptions'', ''fx.Lifecycle'', ''*zap.Logger'']"
| "read_takes RChannel = map untagged [''*amqp.Connection'', ''fx.Lifecycle'']"
| "read_takes RSearchChannel = map untagged [''*amqp.Connection'', ''fx.Lifecycle'']"
| "read_takes RProductCreatedConsumer = map untagged [''*amqp.Channel'', ''*messaging.RabbitMQOptions'', ''*zap.Logger'']"
| "read_takes RSearchIndexConsumer = map untagged
     [''*productSearchChannel'', ''*messaging.RabbitMQOptions'', ''*zap.Logger'']"
| "read_takes RStartConsumer = map untagged
     [''fx.Lifecycle'', ''*messaging.ProductCreatedConsumer'', ''*messaging.ProductSearchIndexConsumer'',
      ''fx.Shutdowner'', ''*zap.Logger'']"
| "read_takes RStartGRPCServer = map untagged
     [''fx.Lifecycle'', ''*config.AppOptions'', ''fx.Shutdowner'', ''*zap.Logger'']"
| "read_takes RRegisterMediatorHandlers = map untagged
     [''*gettingproducts.Handler'', ''*handlingproductcreated.Handler'', ''*indexingproduct.Handler'',
      ''*searchingproducts.Handler'']"
| "read_takes RStartHealthServer = map untagged
     [''fx.Lifecycle'', ''*config.AppOptions'', ''*health.Handler'', ''fx.Shutdowner'', ''*zap.Logger'']"
| "read_takes RManageReadiness = map untagged [''fx.Lifecycle'', ''*health.Handler'', ''*zap.Logger'']"
| "read_takes c = []"

lemma read_resolves: "resolves read_takes read_gives read_provides c (read_needs c)"
  by (cases c; hypsubst; code_simp)

end
