(* ===== verification/Lifecycle_Properties.thy ===== *)
theory Lifecycle_Properties
  imports Module_Types
begin

text \<open>
  Properties of the start and the stop of the services: what is constructed, in which order a stop
  releases it, and what a failed start leaves.
\<close>

section \<open>Construction\<close>

lemma order_all:
  assumes "fx_order order_needs order_invokes {} cs"
  shows "c \<in> set cs"
  by (rule order_module.order_reached [OF assms, of _ 6])
     (cases c; simp add: order_invokes_def eval_nat_numeral)

lemma inventory_all:
  assumes "fx_order inventory_needs inventory_invokes {} cs"
  shows "c \<in> set cs"
  by (rule inventory_module.order_reached [OF assms, of _ 7])
     (cases c; simp add: inventory_invokes_def eval_nat_numeral)

lemma write_all:
  assumes "fx_order write_needs write_invokes {} cs"
  shows "c \<in> set cs"
  by (rule write_module.order_reached [OF assms, of _ 7])
     (cases c; simp add: write_invokes_def eval_nat_numeral)

lemma read_all:
  assumes "fx_order read_needs read_invokes {} cs"
  shows "c \<in> set cs"
  by (rule read_module.order_reached [OF assms, of _ 7])
     (cases c; simp add: read_invokes_def eval_nat_numeral)

lemma order_wired: "module_wired order_takes order_gives order_provides order_needs order_invokes"
  by (rule module_wiredI [OF order_resolves _ order_all order_module.order_distinct])
     (simp_all add: eval_nat_numeral order_invokes_def order_provides_def)

lemma inventory_wired: "module_wired inventory_takes inventory_gives inventory_provides inventory_needs inventory_invokes"
  by (rule module_wiredI [OF inventory_resolves _ inventory_all inventory_module.order_distinct])
     (simp_all add: eval_nat_numeral inventory_invokes_def inventory_provides_def)

lemma write_wired: "module_wired write_takes write_gives write_provides write_needs write_invokes"
  by (rule module_wiredI [OF write_resolves _ write_all write_module.order_distinct])
     (simp_all add: eval_nat_numeral write_invokes_def write_provides_def)

lemma read_wired: "module_wired read_takes read_gives read_provides read_needs read_invokes"
  by (rule module_wiredI [OF read_resolves _ read_all read_module.order_distinct])
     (simp_all add: eval_nat_numeral read_invokes_def read_provides_def)

text \<open>
  C35: The constructors of each service are complete, and none is superfluous. Take any list of a
  module's constructors, and let the framework resolve every parameter by its type and tag among
  them, which fails when a parameter has no provider or more than one. The construction of the
  invoked functions succeeds exactly when the list has every constructor of \<open>fx.Provide\<close> once.
  Then every component of the module is constructed, once, after the components its parameters
  resolve to, which are those of the module's dependency lists.
\<close>

theorem modules_construct:
  "module_wired order_takes order_gives order_provides order_needs order_invokes
   \<and> module_wired inventory_takes inventory_gives inventory_provides inventory_needs inventory_invokes
   \<and> module_wired write_takes write_gives write_provides write_needs write_invokes
   \<and> module_wired read_takes read_gives read_provides read_needs read_invokes"
  by (intro conjI order_wired inventory_wired write_wired read_wired)

text \<open>Without its inbox repository the order service could not be constructed; with it, it can.\<close>

theorem modules_construct_witness:
  "fx_construct order_takes order_gives (remove1 OInboxRepository order_provides) order_invokes = None
   \<and> (\<exists>cs. fx_construct order_takes order_gives order_provides order_invokes = Some cs
       \<and> precedes cs OInboxRepository OOrderService)"
proof -
  note wired = conjunct1 [OF modules_construct, unfolded module_wired_def, rule_format]
  have "mset (remove1 OInboxRepository order_provides) \<noteq> mset order_provides"
    by (simp add: order_provides_def)
  moreover have "set (remove1 OInboxRepository order_provides) \<subseteq> set order_provides" by (rule set_remove1_subset)
  ultimately have "fx_construct order_takes order_gives (remove1 OInboxRepository order_provides) order_invokes = None"
    using wired [of "remove1 OInboxRepository order_provides"] by (auto split: option.splits)
  moreover have "\<exists>cs. fx_construct order_takes order_gives order_provides order_invokes = Some cs
       \<and> precedes cs OInboxRepository OOrderService"
    using wired [OF subset_refl] by (fastforce split: option.splits)
  ultimately show ?thesis ..
qed

lemma modules_construct_order: "\<exists>cs. fx_order order_needs order_invokes {} cs"
  using dig_all_ends [of order_needs 12 order_invokes] by (auto simp: eval_nat_numeral order_invokes_def)

section \<open>The order service's stop\<close>

text \<open>The component whose hook makes a call at the stop.\<close>

definition order_owner :: "life_call \<Rightarrow> order_component" where
  "order_owner y =
     (if y = SyncCall then OLogger
      else if y = CloseCall ''postgres'' then ODB
      else if y = CloseCall ''rabbitmq'' then OConnection
      else if y = CloseCall ''publisher channel'' then OPublisherChannel
      else if y = CloseCall ''stock reserved channel'' then OConsumerChannel1
      else if y = CloseCall ''stock not reserved channel'' then OConsumerChannel2
      else if y = CancelCall ''outbox worker'' \<or> y = WaitCall ''outbox worker'' then OStartOutboxWorker
      else if y = CancelCall ''order consumers'' \<or> y = WaitCall ''order consumers'' then OStartConsumers
      else if y = StopCall ''grpc'' then OStartGRPCServer
      else if y = StopCall ''health'' then OStartHealthServer
      else OManageReadiness)"

lemma order_owner: "y \<in> set (stops_of (order_hooks E c)) \<Longrightarrow> c = order_owner y"
  by (cases c) (auto simp: order_owner_def split: sum.splits)

lemma order_server_hooks:
  "\<exists>p. order_hooks E OStartGRPCServer = [GrpcHook p]"
  "\<exists>p. order_hooks E OStartHealthServer = [HealthHook p]"
  by (auto split: sum.splits)

lemma order_logger_first:
  assumes "fx_order order_needs order_invokes {} cs" and "order_hooks E c \<noteq> []" and "c \<noteq> OLogger"
  shows "precedes cs OLogger c"
  by (rule fx_order_below [OF assms(1), of _ 6])
     (use assms(2,3) in \<open>cases c; simp add: eval_nat_numeral\<close>)

text \<open>A call of a later component comes before one of what it needs.\<close>

lemma order_stop_before:
  assumes "fx_laws F" and "fx_order order_needs order_invokes {} cs"
    and "construct_all (order_construct L E) cs h0 = ((None, hs), h1)"
    and "fx_stop F (hooks_of L hs) h = (e, h')"
    and "order_owner y \<in> set (below order_needs 6 c)" and "x \<in> set (stops_of (order_hooks E c))"
  shows "precedes (calls_since h h') x y"
  by (rule order_module.stop_before [OF assms(2,3,1,4) order_all [OF assms(2)]
        fx_order_below [OF assms(2,5)] assms(6)])
     (rule order_owner)

text \<open>
  C36: The order service stops in a safe order. Whatever order the framework has constructed the
  components in, a stop withdraws the readiness first; each worker is cancelled, and waited for,
  before the channels it uses and the database are closed; the gRPC server has finished its
  requests before the database is closed; the channels are closed before their connection; and
  the log is flushed last. When the stop's deadline does not pass, all of it happens, whichever
  calls fail.
\<close>
theorem order_stop_order:
  assumes "fx_laws F" and "fx_order order_needs order_invokes {} cs"
    and "construct_all (order_construct L E) cs h0 = ((None, hs), h1)"
    and "fx_stop F (hooks_of L hs) h = (e, h')"
  shows "let calls = calls_since h h' in
     (\<forall>c. c \<noteq> SetReady False \<longrightarrow> precedes calls (SetReady False) c) \<and>
     (\<forall>w. precedes calls (CancelCall w) (WaitCall w)) \<and>
     (\<forall>r \<in> {''publisher channel'', ''postgres''}. precedes calls (WaitCall ''outbox worker'') (CloseCall r)) \<and>
     (\<forall>r \<in> {''stock reserved channel'', ''stock not reserved channel'', ''postgres''}.
        precedes calls (WaitCall ''order consumers'') (CloseCall r)) \<and>
     precedes calls (StopCall ''grpc'') (CloseCall ''postgres'') \<and>
     (\<forall>r \<in> {''publisher channel'', ''stock reserved channel'', ''stock not reserved channel''}.
        precedes calls (CloseCall r) (CloseCall ''rabbitmq'')) \<and>
     (\<forall>c \<in> set calls. c \<noteq> SyncCall \<longrightarrow> precedes calls c SyncCall) \<and>
     ((\<forall>e'. e = Some e' \<longrightarrow> \<not> expired e') \<longrightarrow>
        (\<forall>c k. k \<in> set (order_hooks E c) \<longrightarrow> set (stop_calls k) \<subseteq> set calls))"
proof -
  note sb = order_stop_before [OF assms]
  have ready: "c \<noteq> SetReady False \<Longrightarrow> precedes (calls_since h h') (SetReady False) c" for c
    by (rule order_module.stop_readiness_first [OF assms(2,3,1,4)])
  have cancel: "precedes (calls_since h h') (CancelCall w) (WaitCall w)" for w
    by (rule order_module.stop_within [OF assms(2,3,1,4)], case_tac c)
       (auto intro: precedes_Cons split: sum.splits)
  have worker: "\<forall>r \<in> {''publisher channel'', ''postgres''}.
      precedes (calls_since h h') (WaitCall ''outbox worker'') (CloseCall r)"
    by (auto intro!: sb [where c = OStartOutboxWorker] simp: order_owner_def eval_nat_numeral)
  have consumers: "\<forall>r \<in> {''stock reserved channel'', ''stock not reserved channel'', ''postgres''}.
      precedes (calls_since h h') (WaitCall ''order consumers'') (CloseCall r)"
    by (auto intro!: sb [where c = OStartConsumers] simp: order_owner_def eval_nat_numeral)
  have grpc: "precedes (calls_since h h') (StopCall ''grpc'') (CloseCall ''postgres'')"
    by (rule sb [where c = OStartGRPCServer]) (auto simp: order_owner_def eval_nat_numeral split: sum.splits)
  have channels: "\<forall>r \<in> {''publisher channel'', ''stock reserved channel'', ''stock not reserved channel''}.
      precedes (calls_since h h') (CloseCall r) (CloseCall ''rabbitmq'')"
  proof (intro ballI, elim insertE emptyE)
    show "r = ''publisher channel'' \<Longrightarrow> precedes (calls_since h h') (CloseCall r) (CloseCall ''rabbitmq'')" for r
      by (rule sb [where c = OPublisherChannel]) (auto simp: order_owner_def eval_nat_numeral)
    show "r = ''stock reserved channel'' \<Longrightarrow> precedes (calls_since h h') (CloseCall r) (CloseCall ''rabbitmq'')" for r
      by (rule sb [where c = OConsumerChannel1]) (auto simp: order_owner_def eval_nat_numeral)
    show "r = ''stock not reserved channel'' \<Longrightarrow> precedes (calls_since h h') (CloseCall r) (CloseCall ''rabbitmq'')" for r
      by (rule sb [where c = OConsumerChannel2]) (auto simp: order_owner_def eval_nat_numeral)
  qed
  have sync: "precedes (calls_since h h') c SyncCall" if "c \<in> set (calls_since h h')" "c \<noteq> SyncCall" for c
    by (rule order_module.stop_last [OF assms(2,3,1,4) _ _ _ that, where d = OLogger])
       (auto intro: order_logger_first [OF assms(2)] dest: order_owner simp: order_owner_def)
  have full: "set (stop_calls k) \<subseteq> set (calls_since h h')"
    if "\<forall>e'. e = Some e' \<longrightarrow> \<not> expired e'" "k \<in> set (order_hooks E c)" for k c
    using order_module.stop_calls_full(2) [OF assms(2,3,1,4) that(1) order_all [OF assms(2)], of _ c] that(2)
    by (auto simp: stops_of_def)
  show ?thesis unfolding Let_def
    using ready cancel worker consumers grpc channels sync full by (intro conjI allI impI ballI) blast+
qed

definition sample_order_env :: order_env where
  "sample_order_env =
     \<lparr>se_app = Inr \<lparr>apo_GRPCPort = ''6005'', apo_HealthPort = ''8085''\<rparr>,
      se_postgres = Inr \<lparr>pgo_Host = ''localhost'', pgo_Port = ''5432'', pgo_User = ''order'',
        pgo_Password = ''secret'', pgo_Database = ''orders'', pgo_SSLMode = ''disable'',
        pgo_ConnectionTimeout = 5\<rparr>,
      se_rabbit = Inr \<lparr>orb_URL = ''amqp://localhost'', orb_PublisherExchange = ''order'',
        orb_ConsumerExchange = ''inventory'', orb_StockReservedQueue = ''reserved'',
        orb_StockNotReservedQueue = ''not-reserved'', orb_OutboxIntervalSeconds = 5,
        orb_ConnectionTimeout = 5, orb_PublishTimeout = 5, orb_OutboxProcessingTimeout = 5,
        orb_ConsumerProcessingTimeout = 5, orb_ConsumerRetryDelay = 5, orb_ConsumerMaxAttempts = 3\<rparr>,
      se_log = Inr ''info'', se_logger = \<lambda>level name. None\<rparr>"

lemma sample_order_options:
  "\<exists>o'. order_provideAppOptions sample_order_env = Inr o'"
  "\<exists>o'. order_providePostgresOptions sample_order_env = Inr o'"
  "\<exists>o'. order_provideRabbitMQOptions sample_order_env = Inr o'"
  by (simp_all add: order_provideAppOptions_def order_providePostgresOptions_def
      order_provideRabbitMQOptions_def sample_order_env_def provide_options_Inr AppOptions_Validate_def
      PostgresOptions_Validate_def OrderRabbitMQOptions_Validate_def)

lemma sample_order_constructs:
  "fst (order_construct (health_port b) sample_order_env c h) = (None, order_hooks sample_order_env c)"
proof -
  obtain ao po ro where options: "order_provideAppOptions sample_order_env = Inr ao"
    "order_providePostgresOptions sample_order_env = Inr po"
    "order_provideRabbitMQOptions sample_order_env = Inr ro"
    using sample_order_options by blast
  obtain h' where db: "connect_db (health_port b) po h = (None, h')" using connect_db_succeeds by blast
  have logger: "order_provideLogger sample_order_env h = ((None, [LoggerHook]), h)"
    by (simp add: order_provideLogger_def given_def provide_options_def sample_order_env_def LogOptions_Validate_def)
  show ?thesis
    by (cases c) (simp_all add: logger order_provideDB_def order_provideRabbitMQConnection_def
      order_providePublisherChannel_def provideConsumerChannel1_def provideConsumerChannel2_def
      order_providePublisher_def order_StartOutboxWorker_def order_StartConsumers_def
      order_StartGRPCServer_def order_StartHealthServer_def order_ManageReadiness_def
      given_def options opened_def db appended_def new_publisher_def seq_def)
qed

text \<open>A process of the order service in which no call fails, or only one when it starts.\<close>

lemma sample_order_process:
  "\<exists>cs hs h1. fx_order order_needs order_invokes {} cs \<and>
     construct_all (order_construct (health_port b) sample_order_env) cs [] = ((None, hs), h1) \<and>
     (\<exists>p. HealthHook p \<in> set hs)"
proof -
  from modules_construct_order obtain cs where cs: "fx_order order_needs order_invokes {} cs" by blast
  have "fst (construct_all (order_construct (health_port b) sample_order_env) cs []) =
      (None, concat (map (order_hooks sample_order_env) cs))"
    by (rule construct_all_succeeds) (rule sample_order_constructs)
  then obtain h1 where h1: "construct_all (order_construct (health_port b) sample_order_env) cs [] =
      ((None, concat (map (order_hooks sample_order_env) cs)), h1)" by (metis prod.collapse)
  obtain p where "order_hooks sample_order_env OStartHealthServer = [HealthHook p]"
    using order_server_hooks(2) by blast
  then have "HealthHook p \<in> set (concat (map (order_hooks sample_order_env) cs))"
    using order_all [OF cs, of OStartHealthServer] by force
  with cs h1 show ?thesis by blast
qed

theorem order_stop_order_witness:
  "\<exists>h1 h'. precedes (calls_since h1 h') (WaitCall ''order consumers'') (CloseCall ''postgres'') \<and>
     {WaitCall ''order consumers'', StopCall ''grpc'', CloseCall ''postgres'', SyncCall} \<subseteq> set (calls_since h1 h')"
proof -
  from sample_order_process [of False] obtain cs hs h1 where
    *: "fx_order order_needs order_invokes {} cs"
      "construct_all (order_construct (health_port False) sample_order_env) cs [] = ((None, hs), h1)" by blast
  obtain h' where stop: "fx_stop ref_fx (hooks_of (health_port False) hs) h1 = (None, h')"
    by (simp add: ref_fx_def)
  note t = order_stop_order [OF ref_fx_laws * stop, unfolded Let_def]
  from t have "precedes (calls_since h1 h') (WaitCall ''order consumers'') (CloseCall ''postgres'')" by blast
  moreover have calls: "k \<in> set (order_hooks sample_order_env c) \<Longrightarrow> set (stop_calls k) \<subseteq> set (calls_since h1 h')" for k c
    using t by blast
  have "WaitCall ''order consumers'' \<in> set (calls_since h1 h')"
    using calls [of "WorkerHook ''order consumers''" OStartConsumers] by simp
  moreover obtain p where "order_hooks sample_order_env OStartGRPCServer = [GrpcHook p]"
    using order_server_hooks(1) by blast
  then have "StopCall ''grpc'' \<in> set (calls_since h1 h')"
    using calls [of "GrpcHook p" OStartGRPCServer] by simp
  moreover have "CloseCall ''postgres'' \<in> set (calls_since h1 h')"
    using calls [of "CloseHook ''postgres''" ODB] by simp
  moreover have "SyncCall \<in> set (calls_since h1 h')"
    using calls [of LoggerHook OLogger] by simp
  ultimately show ?thesis by blast
qed

section \<open>The order service's start\<close>

text \<open>
  C37: The order service is ready only when all of it runs. A start that returns no error has
  started both workers and both servers before it sets the readiness, which is on. A start that
  fails before its deadline (a port is taken, say) at no moment sets the readiness, has waited for
  every worker it had started, and has stopped every server it had started. A start that fails
  because its deadline has passed is not covered: the framework may then have run every hook, and
  may have no time left for the stops.
\<close>
theorem order_start_outcome:
  assumes "fx_laws F" and "fx_order order_needs order_invokes {} cs"
    and "construct_all (order_construct L E) cs h0 = ((None, hs), h1)"
    and "fx_start F (hooks_of L hs) h = (r, h')"
  shows "let calls = calls_since h h' in
     (r = None \<longrightarrow> IsReady h' \<and>
        {SpawnCall ''outbox worker'', SpawnCall ''order consumers'', ServeCall ''grpc'', ServeCall ''health''} \<subseteq> set calls \<and>
        (\<forall>c \<in> set calls. c \<noteq> SetReady True \<longrightarrow> precedes calls c (SetReady True))) \<and>
     (\<forall>e. r = Some e \<and> \<not> expired e \<longrightarrow> SetReady True \<notin> set calls \<and> (IsReady h' \<longrightarrow> IsReady h) \<and>
        (\<forall>w. SpawnCall w \<in> set calls \<longrightarrow> WaitCall w \<in> set calls \<and> precedes calls (SpawnCall w) (WaitCall w)) \<and>
        (\<forall>s. ServeCall s \<in> set calls \<longrightarrow> StopCall s \<in> set calls \<and> precedes calls (ServeCall s) (StopCall s)))"
proof (cases r)
  case None
  note start = order_module.start_succeeded [OF assms(2,3,1,4) [unfolded None]]
  obtain p q where "order_hooks E OStartGRPCServer = [GrpcHook p]" "order_hooks E OStartHealthServer = [HealthHook q]"
    using order_server_hooks by blast
  then have "{SpawnCall ''outbox worker'', SpawnCall ''order consumers'', ServeCall ''grpc'', ServeCall ''health''}
      \<subseteq> set (calls_since h h')"
    using start(2) [OF order_all [OF assms(2)], of "WorkerHook ''outbox worker''" OStartOutboxWorker]
      start(2) [OF order_all [OF assms(2)], of "WorkerHook ''order consumers''" OStartConsumers]
      start(2) [OF order_all [OF assms(2)], of "GrpcHook p" OStartGRPCServer]
      start(2) [OF order_all [OF assms(2)], of "HealthHook q" OStartHealthServer]
    by simp
  then show ?thesis using start(1,3) None by (simp add: Let_def)
next
  case (Some e)
  note start = order_module.start_rolled_back [OF assms(2,3,1,4) [unfolded Some]]
  show ?thesis unfolding Let_def Some using start by blast
qed

theorem order_start_outcome_witness:
  "(\<exists>h h'. IsReady h' \<and> SpawnCall ''order consumers'' \<in> set (calls_since h h')) \<and>
   (\<exists>hs h'. fx_start ref_fx (hooks_of (health_port True) hs) [] = (Some (Ext ''address already in use''), h') \<and>
      \<not> IsReady h' \<and> SetReady True \<notin> set (calls_since [] h'))"
proof (rule conjI)
  from sample_order_process [of False] obtain cs hs h1 where
    *: "fx_order order_needs order_invokes {} cs"
      "construct_all (order_construct (health_port False) sample_order_env) cs [] = ((None, hs), h1)" by blast
  obtain h' where start: "fx_start ref_fx (hooks_of (health_port False) hs) h1 = (None, h')"
    using start_all_outcome [of "[]" False hs h1] by (cases "start_all [] (hooks_of (health_port False) hs) h1") (auto simp: ref_fx_def)
  note t = order_start_outcome [OF ref_fx_laws * start, unfolded Let_def, THEN conjunct1, rule_format, OF refl]
  have "IsReady h'" by (rule conjunct1 [OF t])
  moreover have "SpawnCall ''order consumers'' \<in> set (calls_since h1 h')"
    by (rule subsetD [OF conjunct1 [OF conjunct2 [OF t]]]) simp
  ultimately show "\<exists>h h'. IsReady h' \<and> SpawnCall ''order consumers'' \<in> set (calls_since h h')" by blast
next
  from sample_order_process [of True] obtain cs hs h1 where
    *: "fx_order order_needs order_invokes {} cs"
      "construct_all (order_construct (health_port True) sample_order_env) cs [] = ((None, hs), h1)"
      "\<exists>p. HealthHook p \<in> set hs" by blast
  obtain h' where start: "fx_start ref_fx (hooks_of (health_port True) hs) [] = (Some (Ext ''address already in use''), h')"
    using start_all_outcome [of "[]" True hs "[]"] *(3)
    by (cases "start_all [] (hooks_of (health_port True) hs) []") (auto simp: ref_fx_def)
  have ex: "\<not> expired (Ext ''address already in use'')" by (simp add: expired_def)
  have never: "SetReady True \<notin> set (calls_since [] h')" and "IsReady h' \<longrightarrow> IsReady []"
    using order_start_outcome [OF ref_fx_laws *(1,2) start, unfolded Let_def, THEN conjunct2] ex by blast+
  then have "\<not> IsReady h'" by (simp add: IsReady_def)
  with start never show "\<exists>hs h'. fx_start ref_fx (hooks_of (health_port True) hs) [] =
      (Some (Ext ''address already in use''), h') \<and> \<not> IsReady h' \<and> SetReady True \<notin> set (calls_since [] h')"
    by blast
qed

section \<open>The stop of the catalog's read side\<close>

definition read_owner :: "life_call \<Rightarrow> read_component" where
  "read_owner y =
     (if y = SyncCall then RLogger
      else if y = CloseCall ''mongo'' then RMongoClient
      else if y = CloseCall ''redis'' then RRedisClient
      else if y = CloseCall ''rabbitmq'' then RConnection
      else if y = CloseCall ''product created channel'' then RChannel
      else if y = CloseCall ''product search channel'' then RSearchChannel
      else if y = StopCall ''grpc'' then RStartGRPCServer
      else if y = StopCall ''health'' then RStartHealthServer
      else if y = SetReady False then RManageReadiness
      else RStartConsumer)"

lemma read_owner: "y \<in> set (stops_of (read_hooks E c)) \<Longrightarrow> c = read_owner y"
  by (cases c) (auto simp: read_owner_def split: sum.splits)

lemma read_logger_first:
  assumes "fx_order read_needs read_invokes {} cs" and "read_hooks E c \<noteq> []" and "c \<noteq> RLogger"
  shows "precedes cs RLogger c"
  by (rule fx_order_below [OF assms(1), of _ 6])
     (use assms(2,3) in \<open>cases c; simp add: eval_nat_numeral\<close>)

text \<open>Nothing the first two invoked functions need leads to a store.\<close>

lemma read_stores_late:
  assumes "fx_order read_needs read_invokes {} cs" and "d \<in> {RMongoClient, RRedisClient}"
  shows "precedes cs RStartGRPCServer d" and "precedes cs RStartConsumer d"
proof -
  let ?R = "{RStartConsumer, RStartGRPCServer, RProductCreatedConsumer, RSearchIndexConsumer, RLogger,
    RAppOptions, RChannel, RSearchChannel, RConnection, RRabbitMQOptions}"
  show grpc: "precedes cs RStartGRPCServer d"
    by (rule read_module.order_late [OF assms(1), of "[RStartConsumer]" _
          "[RRegisterMediatorHandlers, RStartHealthServer, RManageReadiness]" ?R])
       (use assms(2) in \<open>auto simp: read_invokes_def\<close>)
  have "precedes cs RStartConsumer RStartGRPCServer"
    by (rule read_module.order_invoked [OF assms(1), of "[]" _
          "[RStartGRPCServer, RRegisterMediatorHandlers, RStartHealthServer, RManageReadiness]"])
       (simp_all add: read_invokes_def)
  then show "precedes cs RStartConsumer d" using grpc by (rule precedes_trans)
qed

lemma read_stop_before:
  assumes "fx_laws F" and "fx_order read_needs read_invokes {} cs"
    and "construct_all (read_construct L E) cs h0 = ((None, hs), h1)"
    and "fx_stop F (hooks_of L hs) h = (e, h')"
    and "precedes cs (read_owner y) c" and "x \<in> set (stops_of (read_hooks E c))"
  shows "precedes (calls_since h h') x y"
  by (rule read_module.stop_before [OF assms(2,3,1,4) read_all [OF assms(2)] assms(5,6)]) (rule read_owner)

text \<open>What owns a call that is made with a store or a channel.\<close>

lemma read_owners:
  "read_owner (CloseCall ''rabbitmq'') = RConnection"
  "read_owner (CloseCall ''product created channel'') = RChannel"
  "read_owner (CloseCall ''product search channel'') = RSearchChannel"
  "read_owner (StopCall ''grpc'') = RStartGRPCServer"
  "read_owner (CancelCall ''catalog projection consumers'') = RStartConsumer"
  by (simp_all add: read_owner_def)

text \<open>
  C38: The catalog's read side closes its stores too early. The handlers, and with them MongoDB and
  Redis, are constructed only for \<open>RegisterMediatorHandlers\<close>, which is invoked after the consumers
  and the gRPC server have appended their hooks. So in every order of construction a stop
  disconnects MongoDB and closes Redis before the gRPC server finishes its requests and before the
  consumers are cancelled, both of which still use the stores. The rest is in order: readiness
  first, consumers before their channels, channels before the connection, the log last.
\<close>
theorem read_stop_order:
  assumes "fx_laws F" and "fx_order read_needs read_invokes {} cs"
    and "construct_all (read_construct L E) cs h0 = ((None, hs), h1)"
    and "fx_stop F (hooks_of L hs) h = (e, h')"
  shows "let calls = calls_since h h' in
     (\<forall>r \<in> {''mongo'', ''redis''}. precedes calls (CloseCall r) (StopCall ''grpc'') \<and>
        precedes calls (CloseCall r) (CancelCall ''catalog projection consumers'')) \<and>
     (\<forall>c. c \<noteq> SetReady False \<longrightarrow> precedes calls (SetReady False) c) \<and>
     (\<forall>r \<in> {''product created channel'', ''product search channel''}.
        precedes calls (WaitCall ''catalog projection consumers'') (CloseCall r) \<and>
        precedes calls (CloseCall r) (CloseCall ''rabbitmq'')) \<and>
     (\<forall>c \<in> set calls. c \<noteq> SyncCall \<longrightarrow> precedes calls c SyncCall) \<and>
     ((\<forall>e'. e = Some e' \<longrightarrow> \<not> expired e') \<longrightarrow>
        (\<forall>c k. k \<in> set (read_hooks E c) \<longrightarrow> set (stop_calls k) \<subseteq> set calls))"
proof -
  note sb = read_stop_before [OF assms, unfolded read_owners]
  note late = read_stores_late [OF assms(2)]
  have mongo: "precedes (calls_since h h') (CloseCall ''mongo'') (StopCall ''grpc'')"
    "precedes (calls_since h h') (CloseCall ''mongo'') (CancelCall ''catalog projection consumers'')"
    by (rule sb(1) [where c = RMongoClient], simp_all add: late read_owners)+
  have redis: "precedes (calls_since h h') (CloseCall ''redis'') (StopCall ''grpc'')"
    "precedes (calls_since h h') (CloseCall ''redis'') (CancelCall ''catalog projection consumers'')"
    by (rule sb(1) [where c = RRedisClient], simp_all add: late read_owners)+
  have ready: "c \<noteq> SetReady False \<Longrightarrow> precedes (calls_since h h') (SetReady False) c" for c
    by (rule read_module.stop_readiness_first [OF assms(2,3,1,4)])
  have waits: "precedes (calls_since h h') (WaitCall ''catalog projection consumers'') (CloseCall ''product created channel'')"
    "precedes (calls_since h h') (WaitCall ''catalog projection consumers'') (CloseCall ''product search channel'')"
    by (rule sb(1) [where c = RStartConsumer],
        auto simp: read_owners eval_nat_numeral intro: fx_order_below [OF assms(2), of _ 3])+
  have channels: "precedes (calls_since h h') (CloseCall ''product created channel'') (CloseCall ''rabbitmq'')"
    "precedes (calls_since h h') (CloseCall ''product search channel'') (CloseCall ''rabbitmq'')"
    by (rule sb(1) [where c = RChannel], simp_all add: read_owners fx_order_precedes [OF assms(2)])
       (rule sb(1) [where c = RSearchChannel], simp_all add: read_owners fx_order_precedes [OF assms(2)])
  have sync: "precedes (calls_since h h') c SyncCall" if "c \<in> set (calls_since h h')" "c \<noteq> SyncCall" for c
    by (rule read_module.stop_last [OF assms(2,3,1,4) _ _ _ that, where d = RLogger])
       (auto intro: read_logger_first [OF assms(2)] dest: read_owner simp: read_owner_def)
  have full: "set (stop_calls k) \<subseteq> set (calls_since h h')"
    if "\<forall>e'. e = Some e' \<longrightarrow> \<not> expired e'" "k \<in> set (read_hooks E c)" for k c
    using read_module.stop_calls_full(2) [OF assms(2,3,1,4) that(1) read_all [OF assms(2)], of _ c] that(2)
    by (auto simp: stops_of_def)
  show ?thesis unfolding Let_def
    using mongo redis ready waits channels sync full by (intro conjI allI impI ballI) blast+
qed

definition sample_read_env :: read_env where
  "sample_read_env =
     \<lparr>re_app = Inr \<lparr>apo_GRPCPort = ''6001'', apo_HealthPort = ''8081''\<rparr>,
      re_mongo = Inr \<lparr>mgo_URI = ''mongodb://localhost'', mgo_Database = ''catalog'', mgo_ConnectionTimeout = 5\<rparr>,
      re_redis = Inr \<lparr>rdo_Addr = ''localhost:6379'', rdo_Password = [], rdo_DB = 0, rdo_ConnectionTimeout = 5\<rparr>,
      re_elasticsearch = Inr \<lparr>eso_URL = ''http://localhost:9200'', eso_ProductsIndex = ''products'',
        eso_ConnectionTimeout = 5\<rparr>,
      re_rabbit = Inr \<lparr>rrb_URL = ''amqp://localhost'', rrb_Exchange = ''catalog'', rrb_ProductCreatedQueue = ''created'',
        rrb_ProductSearchQueue = ''search'', rrb_ConnectionTimeout = 5, rrb_ConsumerProcessingTimeout = 5\<rparr>,
      re_log = Inr ''info'', re_logger = \<lambda>level name. None\<rparr>"

lemma sample_read_options:
  "\<exists>o'. read_provideAppOptions sample_read_env = Inr o'"
  "\<exists>o'. read_provideMongoOptions sample_read_env = Inr o'"
  "\<exists>o'. LoadRedisOptions (re_redis sample_read_env) = Inr o'"
  "\<exists>o'. read_provideElasticsearchOptions sample_read_env = Inr o'"
  "\<exists>o'. read_provideRabbitMQOptions sample_read_env = Inr o'"
  by (simp_all add: read_provideAppOptions_def read_provideMongoOptions_def
      read_provideElasticsearchOptions_def read_provideRabbitMQOptions_def sample_read_env_def
      provide_options_Inr catalog_read_AppOptions_Validate_def catalog_AppOptions_same AppOptions_Validate_def
      MongoOptions_Validate_def ElasticsearchOptions_Validate_def CatalogReadRabbitMQOptions_Validate_def
      LoadRedisOptions_def split: option.splits)

lemma sample_read_constructs:
  "fst (read_construct (health_port b) sample_read_env c h) = (None, read_hooks sample_read_env c)"
proof -
  obtain ao mo rd eo ro where options: "read_provideAppOptions sample_read_env = Inr ao"
    "read_provideMongoOptions sample_read_env = Inr mo" "LoadRedisOptions (re_redis sample_read_env) = Inr rd"
    "read_provideElasticsearchOptions sample_read_env = Inr eo"
    "read_provideRabbitMQOptions sample_read_env = Inr ro"
    using sample_read_options by blast
  have logger: "read_provideLogger sample_read_env h = ((None, [LoggerHook]), h)"
    by (simp add: read_provideLogger_def given_def provide_options_def sample_read_env_def LogOptions_Validate_def
        opened_def)
  show ?thesis
    by (cases c) (simp_all add: logger read_provideMongoClient_def NewRedisClient_def
      read_provideRabbitMQConnection_def provideRabbitMQChannel_def provideProductSearchChannel_def
      read_StartConsumer_def read_StartGRPCServer_def read_StartHealthServer_def read_ManageReadiness_def
      ConnectMongo_def NewElasticsearchClient_def RegisterMediatorHandlers_def prefixed_def
      given_def options opened_def appended_def seq_def)
qed

theorem read_stop_order_witness:
  "\<exists>h1 h'. precedes (calls_since h1 h') (CloseCall ''mongo'') (StopCall ''grpc'') \<and>
     {CloseCall ''mongo'', StopCall ''grpc''} \<subseteq> set (calls_since h1 h')"
proof -
  obtain cs where cs: "fx_order read_needs read_invokes {} cs"
    using dig_all_ends [of read_needs 12 read_invokes] by (auto simp: eval_nat_numeral read_invokes_def)
  have "fst (construct_all (read_construct (health_port False) sample_read_env) cs []) =
      (None, concat (map (read_hooks sample_read_env) cs))"
    by (rule construct_all_succeeds) (rule sample_read_constructs)
  then obtain hs h1 where made: "construct_all (read_construct (health_port False) sample_read_env) cs [] = ((None, hs), h1)"
    by (metis prod.collapse)
  obtain h' where stop: "fx_stop ref_fx (hooks_of (health_port False) hs) h1 = (None, h')"
    by (simp add: ref_fx_def)
  note t = read_stop_order [OF ref_fx_laws cs made stop, unfolded Let_def]
  from t have "precedes (calls_since h1 h') (CloseCall ''mongo'') (StopCall ''grpc'')" by blast
  moreover have calls: "k \<in> set (read_hooks sample_read_env c) \<Longrightarrow> set (stop_calls k) \<subseteq> set (calls_since h1 h')" for k c
    using t by blast
  have "CloseCall ''mongo'' \<in> set (calls_since h1 h')"
    using calls [of "CloseHook ''mongo''" RMongoClient] by simp
  moreover obtain p where "read_hooks sample_read_env RStartGRPCServer = [GrpcHook p]"
    by (cases "read_provideAppOptions sample_read_env") auto
  then have "StopCall ''grpc'' \<in> set (calls_since h1 h')"
    using calls [of "GrpcHook p" RStartGRPCServer] by simp
  ultimately show ?thesis by blast
qed

end
