(* ===== verification/Gateway_Lifecycle.thy ===== *)
theory Gateway_Lifecycle
  imports Gateway_App Lifecycle_Calls
begin

text \<open>
  The gateway's \<open>app/application.go\<close> and \<open>cmd/main.go\<close>: opening the clients and the listeners,
  serving, and shutting down. The calls are those of \<open>Lifecycle\<close>; the listeners are named after
  their servers.
\<close>

section \<open>Closing\<close>

text \<open>\<open>errors.Join\<close> of a list of errors: none of an empty one.\<close>

definition errors_Join :: "err list \<Rightarrow> err option" where
  "errors_Join es = (case es of [] \<Rightarrow> None | e # es' \<Rightarrow> Some (foldl Join e es'))"

fun close_each :: "outcomes \<Rightarrow> string list \<Rightarrow> life \<Rightarrow> err list \<times> life" where
  "close_each L [] h = ([], h)"
| "close_each L (r # rs) h =
     (case lcall L (CloseCall r) h of
        (e, h1) \<Rightarrow>
          (case close_each L rs h1 of
             (es, h2) \<Rightarrow> (case e of None \<Rightarrow> (es, h2) | Some err \<Rightarrow> (err # es, h2))))"

definition closeAll :: "outcomes \<Rightarrow> string list \<Rightarrow> life act" where
  "closeAll L closers h = (case close_each L (rev closers) h of (es, h') \<Rightarrow> (errors_Join es, h'))"

section \<open>The application\<close>

record http_server =
  srv_Addr :: string
  srv_ReadHeaderTimeout :: goint
  srv_ReadTimeout :: goint
  srv_WriteTimeout :: goint
  srv_IdleTimeout :: goint

record application =
  ap_HTTPServer :: http_server
  ap_ManagementServer :: http_server
  ap_closers :: "string list"

definition new_server :: "GatewayOptions \<Rightarrow> string \<Rightarrow> http_server" where
  "new_server options port =
     \<lparr>srv_Addr = '':'' @ port, srv_ReadHeaderTimeout = gwo_ReadHeaderTimeout options,
      srv_ReadTimeout = gwo_ReadTimeout options, srv_WriteTimeout = gwo_WriteTimeout options,
      srv_IdleTimeout = gwo_IdleTimeout options\<rparr>"

definition newApplication :: "outcomes \<Rightarrow> GatewayOptions option \<Rightarrow> life \<Rightarrow> (err + application) \<times> life" where
  "newApplication L opts h =
     (case opts of
        None \<Rightarrow> (Inl (Msg ''app options are required''), h)
      | Some options \<Rightarrow>
     (case GatewayOptions_Validate options of
        Some err \<Rightarrow> (Inl (Wrap ''validate app options: '' err), h)
      | None \<Rightarrow>
     (case lcall L (OpenCall ''catalog read client'' (gwo_CatalogReadGrpcAddr options)) h of
        (Some err, h1) \<Rightarrow> (Inl (Wrap ''create catalog read client: '' err), h1)
      | (None, h1) \<Rightarrow>
     (let closers = [''catalog read client''] in
      case lcall L (OpenCall ''catalog write client'' (gwo_CatalogWriteGrpcAddr options)) h1 of
        (Some err, h2) \<Rightarrow> (Inl (Wrap ''create catalog write client: '' err), snd (closeAll L closers h2))
      | (None, h2) \<Rightarrow>
     (let closers = closers @ [''catalog write client''] in
      case lcall L (OpenCall ''order client'' (gwo_OrderGrpcUrl options)) h2 of
        (Some err, h3) \<Rightarrow> (Inl (Wrap ''create order client: '' err), snd (closeAll L closers h3))
      | (None, h3) \<Rightarrow>
     (let closers = closers @ [''order client''] in
      case lcall L (ListenCall ''http'' ('':'' @ gwo_AppPort options)) h3 of
        (Some err, h4) \<Rightarrow>
          (Inl (Wrap (''listen on port '' @ gwo_AppPort options @ '': '') err), snd (closeAll L closers h4))
      | (None, h4) \<Rightarrow>
     (case lcall L (ListenCall ''management'' ('':'' @ gwo_ManagementPort options)) h4 of
        (Some err, h5) \<Rightarrow>
          (Inl (Wrap (''listen on management port '' @ gwo_ManagementPort options @ '': '') err),
           snd (closeAll L closers (snd (lcall L (CloseCall ''http'') h5))))
      | (None, h5) \<Rightarrow>
          (Inr \<lparr>ap_HTTPServer = new_server options (gwo_AppPort options),
                ap_ManagementServer = new_server options (gwo_ManagementPort options),
                ap_closers = closers\<rparr>, h5))))))))"

definition Run :: "application \<Rightarrow> life \<Rightarrow> life" where
  "Run a h = h @ [(SetReady True, None), (ServeCall ''http'', None), (ServeCall ''management'', None)]"

text \<open>How a server's goroutine ends: an error is sent to the channel, after the readiness is off.\<close>

definition ErrServerClosed :: err where "ErrServerClosed = Ext ''http: Server closed''"

definition serve_end :: "string \<Rightarrow> err option \<Rightarrow> life act" where
  "serve_end name r h =
     (case r of
        None \<Rightarrow> (None, h)
      | Some err \<Rightarrow>
          if errors_Is err ErrServerClosed then (None, h)
          else (Some (Wrap (name @ '': '') err), h @ [(SetReady False, None)]))"

definition errs_of :: "string \<Rightarrow> err option \<Rightarrow> err list" where
  "errs_of m r = (case r of None \<Rightarrow> [] | Some err \<Rightarrow> [Wrap m err])"

definition Shutdown :: "outcomes \<Rightarrow> application \<Rightarrow> life act" where
  "Shutdown L a h =
     (case lcall L (StopCall ''http'') (h @ [(SetReady False, None)]) of
        (e1, h1) \<Rightarrow>
     (case lcall L (StopCall ''management'') h1 of
        (e2, h2) \<Rightarrow>
     (case closeAll L (ap_closers a) h2 of
        (e3, h3) \<Rightarrow>
          (errors_Join (errs_of ''http server shutdown: '' e1 @ errs_of ''management server shutdown: '' e2 @
             (case e3 of None \<Rightarrow> [] | Some err \<Rightarrow> [err])), h3))))"

text \<open>
  \<open>main\<close>: without options or without an application it ends; else it runs until a signal comes or a
  server has ended with an error, and shuts down. \<open>ends\<close> are the servers that end meanwhile.
\<close>

definition gateway_main ::
  "outcomes \<Rightarrow> err + GatewayOptions \<Rightarrow> (string \<times> err option) list \<Rightarrow> life \<Rightarrow> life" where
  "gateway_main L loaded ends h =
     (case loaded of
        Inl err \<Rightarrow> h
      | Inr options \<Rightarrow>
          (case newApplication L (Some options) h of
             (Inl err, h') \<Rightarrow> h'
           | (Inr a, h') \<Rightarrow>
               snd (Shutdown L a (fold (\<lambda>(name, r) h. snd (serve_end name r h)) ends (Run a h')))))"

section \<open>What is held open\<close>

fun held_after :: "string set \<Rightarrow> life \<Rightarrow> string set" where
  "held_after H [] = H"
| "held_after H ((c, e) # h) =
     held_after
       (case c of
          OpenCall r a \<Rightarrow> if e = None then insert r H else H
        | ListenCall r a \<Rightarrow> if e = None then insert r H else H
        | CloseCall r \<Rightarrow> H - {r}
        | StopCall r \<Rightarrow> H - {r}
        | _ \<Rightarrow> H) h"

definition held :: "life \<Rightarrow> string set" where "held h = held_after {} h"

lemma held_after_append: "held_after H (xs @ ys) = held_after (held_after H xs) ys"
  by (induction H xs rule: held_after.induct) simp_all

lemma held_append: "held (h @ xs) = held_after (held h) xs"
  by (simp add: held_def held_after_append)

lemma held_snoc:
  "held (h @ [(c, e)]) =
     (case c of
        OpenCall r a \<Rightarrow> if e = None then insert r (held h) else held h
      | ListenCall r a \<Rightarrow> if e = None then insert r (held h) else held h
      | CloseCall r \<Rightarrow> held h - {r}
      | StopCall r \<Rightarrow> held h - {r}
      | _ \<Rightarrow> held h)"
  by (cases c) (simp_all add: held_def held_after_append)

lemma held_stops:
  "held (h @ [(SetReady False, None)]) = held h"
  "held (snd (lcall L (StopCall s) h)) = held h - {s}"
  by (simp_all add: lcall_def held_snoc)

lemma close_each_snd:
  "snd (close_each L (r # rs) h) = snd (close_each L rs (snd (lcall L (CloseCall r) h)))"
  by (auto split: prod.split option.split)

lemma closed_snd: "held (snd (lcall L (CloseCall r) h)) = held h - {r}"
  by (simp add: lcall_def held_snoc)

lemma close_each_held: "held (snd (close_each L rs h)) = held h - set rs"
proof (induction rs arbitrary: h)
  case (Cons r rs)
  show ?case unfolding close_each_snd Cons.IH closed_snd by auto
qed simp

lemma close_each_calls: "map fst (snd (close_each L rs h)) = map fst h @ map CloseCall rs"
proof (induction rs arbitrary: h)
  case (Cons r rs)
  show ?case unfolding close_each_snd Cons.IH by simp
qed simp

lemma closeAll_snd: "snd (closeAll L rs h) = snd (close_each L (rev rs) h)"
  by (simp add: closeAll_def split: prod.split)

lemma closeAll_held: "held (snd (closeAll L rs h)) = held h - set rs"
  by (simp add: closeAll_snd close_each_held)

lemma closeAll_calls: "map fst (snd (closeAll L rs h)) = map fst h @ map CloseCall (rev rs)"
  by (simp add: closeAll_snd close_each_calls)

lemma newApplication_outcome:
  assumes "newApplication L opts h = (r, h')" and "held h = {}"
  shows "(case r of
      Inl e \<Rightarrow> held h' = {}
    | Inr a \<Rightarrow> held h' = {''catalog read client'', ''catalog write client'', ''order client'', ''http'', ''management''}
        \<and> ap_closers a = [''catalog read client'', ''catalog write client'', ''order client''])"
  using assms
  by (auto simp: newApplication_def Let_def lcall_def closeAll_held held_append
      split: option.splits)

lemma Shutdown_calls:
  "map fst (snd (Shutdown L a h)) =
     map fst h @ [SetReady False, StopCall ''http'', StopCall ''management''] @ map CloseCall (rev (ap_closers a))"
proof -
  have "snd (Shutdown L a h) = snd (closeAll L (ap_closers a) (snd (lcall L (StopCall ''management'')
      (snd (lcall L (StopCall ''http'') (h @ [(SetReady False, None)]))))))"
    by (simp add: Shutdown_def split: prod.split)
  then show ?thesis by (simp add: closeAll_calls)
qed

lemma Shutdown_held:
  "held (snd (Shutdown L a h)) = held h - {''http'', ''management''} - set (ap_closers a)"
proof -
  have "snd (Shutdown L a h) = snd (closeAll L (ap_closers a) (snd (lcall L (StopCall ''management'')
      (snd (lcall L (StopCall ''http'') (h @ [(SetReady False, None)]))))))"
    by (simp add: Shutdown_def split: prod.split)
  then show ?thesis unfolding closeAll_held [symmetric] held_stops(1) [of h, symmetric]
    by (simp only: closeAll_held held_stops) auto
qed

lemma serve_end_held: "held (snd (serve_end name r h)) = held h"
  by (auto simp: serve_end_def held_snoc split: option.split)

lemma serve_ends_held: "held (fold (\<lambda>(name, r) h. snd (serve_end name r h)) ends h) = held h"
  by (induction ends arbitrary: h) (auto simp: serve_end_held)

lemma Run_held: "held (Run a h) = held h"
  by (simp add: Run_def held_def held_after_append)

section \<open>What the gateway leaves open\<close>

text \<open>
  C39: The gateway leaves nothing open, whichever calls fail. When \<open>newApplication\<close> fails, every
  client and listener it had opened is closed again; when it succeeds all five are open, and the
  gateway is ready once it runs. \<open>Shutdown\<close> withdraws the readiness, stops both servers and closes
  the clients in the reverse of the order in which they were opened, also after an error of one of
  these calls. So whatever happens to the servers in between, \<open>main\<close> ends with nothing held.
\<close>
theorem gateway_releases:
  assumes "held h = {}"
  shows "held (gateway_main L loaded ends h) = {} \<and>
     (\<forall>e h'. newApplication L opts h = (Inl e, h') \<longrightarrow> held h' = {}) \<and>
     (\<forall>a h'. newApplication L opts h = (Inr a, h') \<longrightarrow>
        held h' = {''catalog read client'', ''catalog write client'', ''order client'', ''http'', ''management''} \<and>
        IsReady (Run a h') \<and>
        (\<forall>h2. map fst (snd (Shutdown L a h2)) = map fst h2 @
           [SetReady False, StopCall ''http'', StopCall ''management'',
            CloseCall ''order client'', CloseCall ''catalog write client'', CloseCall ''catalog read client'']))"
proof (intro conjI allI impI)
  fix e h'
  assume "newApplication L opts h = (Inl e, h')"
  from newApplication_outcome [OF this assms] show "held h' = {}" by simp
next
  fix a h'
  assume new: "newApplication L opts h = (Inr a, h')"
  from newApplication_outcome [OF new assms]
  show "held h' = {''catalog read client'', ''catalog write client'', ''order client'', ''http'', ''management''}"
    by simp
  show "IsReady (Run a h')" by (simp add: IsReady_def Run_def ready_after_append)
  fix h2
  show "map fst (snd (Shutdown L a h2)) = map fst h2 @
      [SetReady False, StopCall ''http'', StopCall ''management'',
       CloseCall ''order client'', CloseCall ''catalog write client'', CloseCall ''catalog read client'']"
    using newApplication_outcome [OF new assms] by (simp add: Shutdown_calls)
next
  show "held (gateway_main L loaded ends h) = {}"
  proof (cases loaded)
    case (Inl e)
    then show ?thesis by (simp add: gateway_main_def assms)
  next
    case (Inr options)
    obtain r h' where new: "newApplication L (Some options) h = (r, h')" by force
    show ?thesis
      using newApplication_outcome [OF new assms]
      by (cases r) (auto simp: gateway_main_def Inr new Shutdown_held serve_ends_held Run_held)
  qed
qed

definition sample_gateway_options :: GatewayOptions where
  "sample_gateway_options =
     \<lparr>gwo_AppPort = ''8080'', gwo_ManagementPort = ''8081'', gwo_CatalogReadGrpcAddr = ''read:6001'',
      gwo_CatalogWriteGrpcAddr = ''write:6002'', gwo_OrderGrpcUrl = ''order:6005'', gwo_RequestTimeout = 10,
      gwo_GRPCReadTimeout = 5, gwo_GRPCWriteTimeout = 8, gwo_ReadHeaderTimeout = 5, gwo_ReadTimeout = 15,
      gwo_WriteTimeout = 15, gwo_IdleTimeout = 60\<rparr>"

text \<open>The management port is taken: four resources were open by then.\<close>

theorem gateway_releases_witness:
  "held (gateway_main (\<lambda>h c. None) (Inr sample_gateway_options) [(''http server'', Some Canceled)] []) = {} \<and>
   held (snd (newApplication (\<lambda>h c. if c = ListenCall ''management'' '':8081'' then Some Canceled else None)
     (Some sample_gateway_options) [])) = {}"
proof -
  let ?L = "\<lambda>h c. if c = ListenCall ''management'' '':8081'' then Some Canceled else None"
  have "held [] = {}" by (simp add: held_def)
  note t = gateway_releases [OF this]
  have "GatewayOptions_Validate sample_gateway_options = None"
    by (simp add: GatewayOptions_Validate_def sample_gateway_options_def)
  then have "\<exists>e. fst (newApplication ?L (Some sample_gateway_options) []) = Inl e"
    by (simp add: newApplication_def Let_def lcall_def sample_gateway_options_def)
  then obtain e h' where new: "newApplication ?L (Some sample_gateway_options) [] = (Inl e, h')"
    by (metis prod.collapse)
  have "held h' = {}" using t [of ?L _ _ "Some sample_gateway_options"] new by blast
  moreover have "held (gateway_main (\<lambda>h c. None) (Inr sample_gateway_options) [(''http server'', Some Canceled)] []) = {}"
    by (rule conjunct1 [OF t])
  ultimately show ?thesis by (simp add: new)
qed

end
