(* ===== verification/Loading.thy ===== *)
theory Loading
  imports Gateway_App Go_Json "HOL-Library.Multiset"
begin

text \<open>
  How each process loads its options: the keys of the configuration file and the environment
  variables that override their fields, as the \<open>Load\<close> functions pass them to \<open>BindKey\<close>. The
  bindings are a Go map, whose iteration order is not defined, so \<open>BindKey\<close> runs over some list of
  them; the lemmas show that the order makes no difference, and what an environment variable
  does.
\<close>

section \<open>The bindings\<close>

type_synonym env_bindings = "(string \<times> string) list"

definition order_rabbit_bindings :: env_bindings where
  "order_rabbit_bindings =
     [(''url'', ''RABBITMQ_URL''),
      (''publisherExchange'', ''RABBITMQ_EXCHANGE_PUBLISHER''),
      (''consumerExchange'', ''RABBITMQ_EXCHANGE_CONSUMER''),
      (''stockReservedQueue'', ''STOCK_RESERVED_QUEUE''),
      (''stockNotReservedQueue'', ''STOCK_NOT_RESERVED_QUEUE''),
      (''outboxIntervalSeconds'', ''OUTBOX_INTERVAL_SECONDS''),
      (''connectionTimeout'', ''RABBITMQ_CONNECTION_TIMEOUT''),
      (''publishTimeout'', ''RABBITMQ_PUBLISH_TIMEOUT''),
      (''outboxProcessingTimeout'', ''OUTBOX_PROCESSING_TIMEOUT''),
      (''consumerProcessingTimeout'', ''RABBITMQ_CONSUMER_PROCESSING_TIMEOUT''),
      (''consumerRetryDelay'', ''RABBITMQ_CONSUMER_RETRY_DELAY''),
      (''consumerMaxAttempts'', ''RABBITMQ_CONSUMER_MAX_ATTEMPTS'')]"

definition inventory_rabbit_bindings :: env_bindings where
  "inventory_rabbit_bindings =
     [(''url'', ''RABBITMQ_URL''),
      (''consumerExchange'', ''RABBITMQ_EXCHANGE_CONSUMER''),
      (''publisherExchange'', ''RABBITMQ_EXCHANGE_PUBLISHER''),
      (''reserveStockQueue'', ''RESERVE_STOCK_QUEUE''),
      (''outboxIntervalSeconds'', ''OUTBOX_INTERVAL_SECONDS''),
      (''connectionTimeout'', ''RABBITMQ_CONNECTION_TIMEOUT''),
      (''publishTimeout'', ''RABBITMQ_PUBLISH_TIMEOUT''),
      (''outboxProcessingTimeout'', ''OUTBOX_PROCESSING_TIMEOUT''),
      (''consumerProcessingTimeout'', ''RABBITMQ_CONSUMER_PROCESSING_TIMEOUT'')]"

definition catalog_write_rabbit_bindings :: env_bindings where
  "catalog_write_rabbit_bindings =
     [(''url'', ''RABBITMQ_URL''),
      (''exchange'', ''RABBITMQ_EXCHANGE''),
      (''outboxIntervalSeconds'', ''OUTBOX_INTERVAL_SECONDS''),
      (''connectionTimeout'', ''RABBITMQ_CONNECTION_TIMEOUT''),
      (''publishTimeout'', ''RABBITMQ_PUBLISH_TIMEOUT''),
      (''outboxProcessingTimeout'', ''OUTBOX_PROCESSING_TIMEOUT'')]"

definition catalog_read_rabbit_bindings :: env_bindings where
  "catalog_read_rabbit_bindings =
     [(''url'', ''RABBITMQ_URL''),
      (''exchange'', ''RABBITMQ_EXCHANGE''),
      (''productCreatedQueue'', ''PRODUCT_CREATED_QUEUE''),
      (''productSearchQueue'', ''PRODUCT_SEARCH_QUEUE''),
      (''connectionTimeout'', ''RABBITMQ_CONNECTION_TIMEOUT''),
      (''consumerProcessingTimeout'', ''RABBITMQ_CONSUMER_PROCESSING_TIMEOUT'')]"

definition postgres_bindings :: env_bindings where
  "postgres_bindings =
     [(''host'', ''DB_HOST''),
      (''port'', ''DB_PORT''),
      (''user'', ''DB_USER''),
      (''password'', ''DB_PASSWORD''),
      (''database'', ''DB_NAME''),
      (''sslMode'', ''DB_SSLMODE''),
      (''connectionTimeout'', ''DB_CONNECTION_TIMEOUT'')]"

definition mongo_bindings :: env_bindings where
  "mongo_bindings =
     [(''uri'', ''MONGO_URI''),
      (''database'', ''MONGO_DATABASE''),
      (''connectionTimeout'', ''MONGO_CONNECTION_TIMEOUT'')]"

definition elasticsearch_bindings :: env_bindings where
  "elasticsearch_bindings =
     [(''url'', ''ELASTICSEARCH_URL''),
      (''productsIndex'', ''ELASTICSEARCH_PRODUCTS_INDEX''),
      (''connectionTimeout'', ''ELASTICSEARCH_CONNECTION_TIMEOUT'')]"

definition redis_bindings :: env_bindings where
  "redis_bindings =
     [(''addr'', ''REDIS_ADDR''),
      (''password'', ''REDIS_PASSWORD''),
      (''db'', ''REDIS_DB''),
      (''connectionTimeout'', ''REDIS_CONNECTION_TIMEOUT'')]"

definition app_bindings :: env_bindings where
  "app_bindings = [(''grpcPort'', ''GRPC_PORT''), (''healthPort'', ''HEALTH_PORT'')]"

definition inventory_app_bindings :: env_bindings where
  "inventory_app_bindings = [(''healthPort'', ''HEALTH_PORT'')]"

definition gateway_bindings :: env_bindings where
  "gateway_bindings =
     [(''appPort'', ''APP_PORT''),
      (''managementPort'', ''MANAGEMENT_PORT''),
      (''catalogReadGrpcAddr'', ''CATALOG_READ_GRPC_ADDR''),
      (''catalogWriteGrpcAddr'', ''CATALOG_WRITE_GRPC_ADDR''),
      (''orderGrpcUrl'', ''ORDER_GRPC_ADDR''),
      (''requestTimeout'', ''REQUEST_TIMEOUT''),
      (''grpcReadTimeout'', ''GRPC_READ_TIMEOUT''),
      (''grpcWriteTimeout'', ''GRPC_WRITE_TIMEOUT''),
      (''readHeaderTimeout'', ''HTTP_READ_HEADER_TIMEOUT''),
      (''readTimeout'', ''HTTP_READ_TIMEOUT''),
      (''writeTimeout'', ''HTTP_WRITE_TIMEOUT''),
      (''idleTimeout'', ''HTTP_IDLE_TIMEOUT'')]"

definition log_bindings :: env_bindings where
  "log_bindings = [(''level'', ''LOG_LEVEL'')]"

section \<open>The functions\<close>

text \<open>The order of the fields below is that of the source; \<open>LoadRedisOptions\<close> also checks what it loads.\<close>

definition order_LoadRabbitMQOptions ::
  "('c, 'v, OrderRabbitMQOptions) viper \<Rightarrow> (string \<Rightarrow> string) \<Rightarrow> err + OrderRabbitMQOptions" where
  "order_LoadRabbitMQOptions V getenv = BindKey V getenv ''rabbitMQOptions'' order_rabbit_bindings"

definition inventory_LoadRabbitMQOptions ::
  "('c, 'v, InventoryRabbitMQOptions) viper \<Rightarrow> (string \<Rightarrow> string) \<Rightarrow> err + InventoryRabbitMQOptions" where
  "inventory_LoadRabbitMQOptions V getenv = BindKey V getenv ''rabbitMQOptions'' inventory_rabbit_bindings"

definition catalog_write_LoadRabbitMQOptions ::
  "('c, 'v, CatalogWriteRabbitMQOptions) viper \<Rightarrow> (string \<Rightarrow> string) \<Rightarrow> err + CatalogWriteRabbitMQOptions" where
  "catalog_write_LoadRabbitMQOptions V getenv = BindKey V getenv ''rabbitMQOptions'' catalog_write_rabbit_bindings"

definition catalog_read_LoadRabbitMQOptions ::
  "('c, 'v, CatalogReadRabbitMQOptions) viper \<Rightarrow> (string \<Rightarrow> string) \<Rightarrow> err + CatalogReadRabbitMQOptions" where
  "catalog_read_LoadRabbitMQOptions V getenv = BindKey V getenv ''rabbitMQOptions'' catalog_read_rabbit_bindings"

definition order_LoadPostgresOptions ::
  "('c, 'v, PostgresOptions) viper \<Rightarrow> (string \<Rightarrow> string) \<Rightarrow> err + PostgresOptions" where
  "order_LoadPostgresOptions V getenv = BindKey V getenv ''postgresOptions'' postgres_bindings"

definition inventory_LoadPostgresOptions ::
  "('c, 'v, PostgresOptions) viper \<Rightarrow> (string \<Rightarrow> string) \<Rightarrow> err + PostgresOptions" where
  "inventory_LoadPostgresOptions V getenv = BindKey V getenv ''postgresOptions'' postgres_bindings"

definition catalog_LoadPostgresOptions ::
  "('c, 'v, PostgresOptions) viper \<Rightarrow> (string \<Rightarrow> string) \<Rightarrow> err + PostgresOptions" where
  "catalog_LoadPostgresOptions V getenv = BindKey V getenv ''postgresOptions'' postgres_bindings"

definition LoadMongoOptions ::
  "('c, 'v, MongoOptions) viper \<Rightarrow> (string \<Rightarrow> string) \<Rightarrow> err + MongoOptions" where
  "LoadMongoOptions V getenv = BindKey V getenv ''mongoOptions'' mongo_bindings"

definition LoadElasticsearchOptions ::
  "('c, 'v, ElasticsearchOptions) viper \<Rightarrow> (string \<Rightarrow> string) \<Rightarrow> err + ElasticsearchOptions" where
  "LoadElasticsearchOptions V getenv = BindKey V getenv ''elasticsearchOptions'' elasticsearch_bindings"

definition order_LoadAppOptions ::
  "('c, 'v, AppOptions) viper \<Rightarrow> (string \<Rightarrow> string) \<Rightarrow> err + AppOptions" where
  "order_LoadAppOptions V getenv = BindKey V getenv ''appOptions'' app_bindings"

definition catalog_write_LoadAppOptions ::
  "('c, 'v, AppOptions) viper \<Rightarrow> (string \<Rightarrow> string) \<Rightarrow> err + AppOptions" where
  "catalog_write_LoadAppOptions V getenv = BindKey V getenv ''appOptions'' app_bindings"

definition catalog_read_LoadAppOptions ::
  "('c, 'v, AppOptions) viper \<Rightarrow> (string \<Rightarrow> string) \<Rightarrow> err + AppOptions" where
  "catalog_read_LoadAppOptions V getenv = BindKey V getenv ''appOptions'' app_bindings"

definition inventory_LoadAppOptions ::
  "('c, 'v, InventoryAppOptions) viper \<Rightarrow> (string \<Rightarrow> string) \<Rightarrow> err + InventoryAppOptions" where
  "inventory_LoadAppOptions V getenv = BindKey V getenv ''appOptions'' inventory_app_bindings"

definition gateway_LoadAppOptions ::
  "('c, 'v, GatewayOptions) viper \<Rightarrow> (string \<Rightarrow> string) \<Rightarrow> err + GatewayOptions" where
  "gateway_LoadAppOptions V getenv = BindKey V getenv ''appOptions'' gateway_bindings"

definition logger_LoadOptions ::
  "('c, 'v, string) viper \<Rightarrow> (string \<Rightarrow> string) \<Rightarrow> err + string" where
  "logger_LoadOptions V getenv = BindKey V getenv ''logOptions'' log_bindings"

definition read_LoadRedisOptions ::
  "('c, 'v, RedisOptions) viper \<Rightarrow> (string \<Rightarrow> string) \<Rightarrow> err + RedisOptions" where
  "read_LoadRedisOptions V getenv = LoadRedisOptions (BindKey V getenv ''redisOptions'' redis_bindings)"

section \<open>What loading does\<close>

text \<open>
  The package's documented behaviour, seen through what a section holds for each key (keys are
  compared without regard to case): a binding to a variable that is set replaces the file's value,
  one to a variable that is not set or empty changes nothing, \<open>BindEnv\<close> fails only without a key,
  and the decoded record depends on nothing else.
\<close>

definition viper_laws ::
  "('c, 'v, 'o) viper \<Rightarrow> (string \<Rightarrow> string) \<Rightarrow> (string \<Rightarrow> string) \<Rightarrow> ('v \<Rightarrow> string \<rightharpoonup> string) \<Rightarrow> bool" where
  "viper_laws V getenv lower entry \<longleftrightarrow>
     (\<forall>sec f e. f \<noteq> [] \<longrightarrow> (\<exists>sec'. vp_bind V sec f e = Inr sec'
        \<and> entry sec' = (if getenv e = [] then entry sec else (entry sec)(lower f \<mapsto> getenv e))))
     \<and> (\<forall>sec sec'. entry sec = entry sec' \<longrightarrow> vp_unmarshal V sec = vp_unmarshal V sec')"

fun overridden :: "(string \<Rightarrow> string) \<Rightarrow> (string \<Rightarrow> string) \<Rightarrow> env_bindings \<Rightarrow> (string \<rightharpoonup> string) \<Rightarrow> (string \<rightharpoonup> string)" where
  "overridden getenv lower [] m = m"
| "overridden getenv lower ((f, e) # bs) m =
     overridden getenv lower bs (if getenv e = [] then m else m(lower f \<mapsto> getenv e))"

lemma bind_all_entries:
  assumes "viper_laws V getenv lower entry" and "\<forall>(f, e)\<in>set bs. f \<noteq> []"
  shows "\<exists>sec'. bind_all (vp_bind V) bs sec = Inr sec' \<and> entry sec' = overridden getenv lower bs (entry sec)"
  using assms(2)
proof (induction bs arbitrary: sec)
  case Nil
  then show ?case by simp
next
  case (Cons b bs)
  obtain f e where b: "b = (f, e)" by fastforce
  with Cons.prems have "f \<noteq> []" and rest: "\<forall>(f, e)\<in>set bs. f \<noteq> []" by auto
  with assms(1) obtain sec' where sec': "vp_bind V sec f e = Inr sec'"
    "entry sec' = (if getenv e = [] then entry sec else (entry sec)(lower f \<mapsto> getenv e))"
    unfolding viper_laws_def by blast
  from Cons.IH [OF rest, of sec'] sec' b show ?case by auto
qed

text \<open>With one binding for each key the order does not matter.\<close>

lemma overridden_value:
  assumes "distinct (map (lower \<circ> fst) bs)"
  shows "overridden getenv lower bs m k =
    (case find (\<lambda>(f, e). lower f = k) bs of
       None \<Rightarrow> m k
     | Some (f, e) \<Rightarrow> if getenv e = [] then m k else Some (getenv e))"
  using assms
proof (induction bs arbitrary: m)
  case Nil
  then show ?case by simp
next
  case (Cons b bs)
  obtain f e where b: "b = (f, e)" by fastforce
  show ?case
  proof (cases "lower f = k")
    case True
    then have "find (\<lambda>(f, e). lower f = k) bs = None"
      using Cons.prems b by (force simp: find_None_iff)
    then show ?thesis using Cons True b by simp
  next
    case False
    then show ?thesis using Cons b by (auto split: option.splits)
  qed
qed

lemma find_distinct_perm:
  assumes "mset xs = mset ys" and "distinct (map g xs)"
  shows "find (\<lambda>x. g x = k) xs = find (\<lambda>x. g x = k) ys"
proof -
  have "mset (map g xs) = mset (map g ys)" using assms(1) by simp
  then have d: "distinct (map g ys)" using assms(2) by (metis mset_eq_imp_distinct_iff)
  have set: "set xs = set ys" using assms(1) by (rule mset_eq_setD)
  have uniq: "find (\<lambda>x. g x = k) zs = Some z" if "z \<in> set zs" "g z = k" "distinct (map g zs)" for z zs
    using that by (induction zs) (auto simp: image_iff)
  show ?thesis
  proof (cases "\<exists>z\<in>set xs. g z = k")
    case True
    then obtain z where "z \<in> set xs" "g z = k" by blast
    then show ?thesis using uniq [of z xs] uniq [of z ys] assms(2) d set by simp
  next
    case False
    then have "find (\<lambda>x. g x = k) xs = None" "find (\<lambda>x. g x = k) ys = None"
      using set by (auto simp: find_None_iff)
    then show ?thesis by simp
  qed
qed

lemma overridden_perm:
  assumes "mset bs' = mset bs" and "distinct (map (lower \<circ> fst) bs)"
  shows "overridden getenv lower bs' m = overridden getenv lower bs m"
proof
  fix k
  have "mset (map (lower \<circ> fst) bs') = mset (map (lower \<circ> fst) bs)" using assms(1) by simp
  then have d: "distinct (map (lower \<circ> fst) bs')" using assms(2) by (metis mset_eq_imp_distinct_iff)
  have eq: "(\<lambda>(f, e). lower f = k) = (\<lambda>x. (lower \<circ> fst) x = k)" by auto
  show "overridden getenv lower bs' m k = overridden getenv lower bs m k"
    using find_distinct_perm [OF assms(1) d, of k]
    by (simp add: overridden_value [OF d] overridden_value [OF assms(2)] eq)
qed

lemma BindKey_perm:
  fixes V :: "('c, 'v, 'o) viper"
  assumes laws: "viper_laws V getenv lower entry" and perm: "mset bs' = mset bs"
    and keys: "distinct (map (lower \<circ> fst) bs)" "\<forall>(f, e)\<in>set bs. f \<noteq> []"
  shows "BindKey V getenv key bs' = BindKey V getenv key bs"
proof -
  have keys': "\<forall>(f, e)\<in>set bs'. f \<noteq> []" using keys(2) mset_eq_setD [OF perm] by simp
  have "(case bind_all (vp_bind V) bs' sec of Inl e \<Rightarrow> Inl e | Inr s \<Rightarrow> U (vp_unmarshal V s))
      = (case bind_all (vp_bind V) bs sec of Inl e \<Rightarrow> Inl e | Inr s \<Rightarrow> U (vp_unmarshal V s))"
    for sec and U :: "err + 'o \<Rightarrow> err + 'o"
  proof -
    from bind_all_entries [OF laws keys(2)] obtain s where
      s: "bind_all (vp_bind V) bs sec = Inr s" "entry s = overridden getenv lower bs (entry sec)" by blast
    from bind_all_entries [OF laws keys'] obtain s' where
      s': "bind_all (vp_bind V) bs' sec = Inr s'" "entry s' = overridden getenv lower bs' (entry sec)" by blast
    have "entry s' = entry s" unfolding s(2) s'(2) by (rule overridden_perm [OF perm keys(1)])
    then have "vp_unmarshal V s' = vp_unmarshal V s" using laws unfolding viper_laws_def by blast
    then show ?thesis using s s' by simp
  qed
  then show ?thesis by (simp add: BindKey_def Let_def split: sum.splits option.splits)
qed

section \<open>The tables are in order\<close>

definition all_bindings :: "env_bindings list" where
  "all_bindings =
     [order_rabbit_bindings, inventory_rabbit_bindings, catalog_write_rabbit_bindings,
      catalog_read_rabbit_bindings, postgres_bindings, mongo_bindings, elasticsearch_bindings, redis_bindings,
      app_bindings, inventory_app_bindings, gateway_bindings, log_bindings]"

text \<open>No table binds a key twice, in any spelling, or two keys to one variable.\<close>

lemma all_bindings_distinct:
  assumes "bs \<in> set all_bindings"
  shows "distinct (map (map lower_char \<circ> fst) bs)" and "distinct (map snd bs)" and "\<forall>(f, e)\<in>set bs. f \<noteq> []"
proof -
  have "list_all (\<lambda>bs. distinct (map (map lower_char \<circ> fst) bs) \<and> distinct (map snd bs)
      \<and> list_all (\<lambda>(f, e). f \<noteq> []) bs) all_bindings" by code_simp
  with assms show "distinct (map (map lower_char \<circ> fst) bs)" and "distinct (map snd bs)"
    and "\<forall>(f, e)\<in>set bs. f \<noteq> []"
    by (auto simp: list_all_iff)
qed

lemma load_any_order:
  assumes "viper_laws V getenv (map lower_char) entry" and "bs \<in> set all_bindings" and "mset bs' = mset bs"
  shows "BindKey V getenv key bs' = BindKey V getenv key bs"
  using BindKey_perm [OF assms(1,3) all_bindings_distinct(1,3) [OF assms(2)]] .

end
