(* ===== verification/Service_Main.thy ===== *)
theory Service_Main
  imports Order_Module Inventory_Module Catalog_Write_Module Catalog_Read_Module
begin

text \<open>
  The \<open>main\<close> functions of the four services. Each loads \<open>.env\<close> if there is one, lets \<open>fx\<close> construct
  the module, ends when that fails, and else starts it, runs until a signal or a request to shut
  down, and stops it. The files differ in the module they name.
\<close>

section \<open>One process\<close>

text \<open>
  \<open>cs\<close> is the order in which the framework constructs (one of \<open>fx_order\<close>), \<open>env\<close> what the module
  reads from the environment, which a \<open>.env\<close> file may have added to, and \<open>work\<close> what the workers
  and servers do before the stop. The result is the error for which the process exits.
\<close>

definition service_main ::
  "fx \<Rightarrow> (outcomes \<Rightarrow> 'e \<Rightarrow> 'c \<Rightarrow> life \<Rightarrow> made) \<Rightarrow> 'c list \<Rightarrow> outcomes \<Rightarrow> (err option \<Rightarrow> 'e) \<Rightarrow> err option
   \<Rightarrow> (life \<Rightarrow> life) \<Rightarrow> life act" where
  "service_main F build cs L env dotenv work h =
     (case construct_all (build L (env dotenv)) cs h of
        ((Some err, hs), h1) \<Rightarrow> (Some (Wrap ''failed to build app: '' err), h1)
      | ((None, hs), h1) \<Rightarrow>
          (case fx_start F (hooks_of L hs) h1 of
             (Some err, h2) \<Rightarrow> (Some err, h2)
           | (None, h2) \<Rightarrow> fx_stop F (hooks_of L hs) (work h2)))"

definition order_main ::
  "fx \<Rightarrow> order_component list \<Rightarrow> outcomes \<Rightarrow> (err option \<Rightarrow> order_env) \<Rightarrow> err option \<Rightarrow> (life \<Rightarrow> life) \<Rightarrow> life act" where
  "order_main F = service_main F order_construct"

definition inventory_main ::
  "fx \<Rightarrow> inventory_component list \<Rightarrow> outcomes \<Rightarrow> (err option \<Rightarrow> inventory_env) \<Rightarrow> err option \<Rightarrow> (life \<Rightarrow> life)
   \<Rightarrow> life act" where
  "inventory_main F = service_main F inventory_construct"

definition write_main ::
  "fx \<Rightarrow> write_component list \<Rightarrow> outcomes \<Rightarrow> (err option \<Rightarrow> write_env) \<Rightarrow> err option \<Rightarrow> (life \<Rightarrow> life) \<Rightarrow> life act" where
  "write_main F = service_main F write_construct"

definition read_main ::
  "fx \<Rightarrow> read_component list \<Rightarrow> outcomes \<Rightarrow> (err option \<Rightarrow> read_env) \<Rightarrow> err option \<Rightarrow> (life \<Rightarrow> life) \<Rightarrow> life act" where
  "read_main F = service_main F read_construct"

section \<open>A process that ends is not ready\<close>

lemma fx_stop_extends:
  assumes F: "fx_laws F" and stop: "fx_stop F (hooks_of L hs) h = (e, h')"
  shows "map fst h' = map fst h @ calls_since h h'"
proof -
  from F have "fx_stop_law (hooks_of L hs) h (e, h')" unfolding fx_laws_def stop [symmetric] by blast
  then obtain m where "h' = run_stops (drop m (hooks_of L hs)) h" by (auto simp: fx_stop_law_def)
  then have h': "map fst h' = map fst h @ concat (map stop_calls (rev (drop m hs)))"
    by (simp add: drop_hooks_of run_stops_calls)
  then show ?thesis using calls_since_append [OF h'] by simp
qed

lemma ready_after_false: "SetReady False \<in> set cs \<Longrightarrow> SetReady True \<notin> set cs \<Longrightarrow> \<not> ready_after b cs"
proof (induction cs arbitrary: b)
  case (Cons c cs)
  show ?case
  proof (cases "SetReady False \<in> set cs")
    case True
    then show ?thesis using Cons by simp
  next
    case False
    then have "c = SetReady False" using Cons.prems(1) by auto
    then show ?thesis using Cons.prems(2) ready_after_kept [of cs False] by auto
  qed
qed simp

context service_module
begin

lemma stop_not_ready:
  assumes "fx_order needs invokes {} cs" and "construct_all (construct L E) cs h0 = ((None, hs), h1)"
    and "fx_laws F" and "fx_stop F (hooks_of L hs) h = (e, h')" and "\<forall>e'. e = Some e' \<longrightarrow> \<not> expired e'"
  shows "\<not> IsReady h'"
proof -
  have "readiness \<in> set cs" using order_member [OF assms(1)] readiness_last by auto
  then have "SetReady False \<in> set (calls_since h h')"
    using stop_calls_full(2) [OF assms(1-5), of readiness "SetReady False"] by (simp add: readiness_hook)
  moreover have "SetReady True \<notin> set (stop_calls k)" for k by (cases k) auto
  then have "SetReady True \<notin> set (calls_since h h')"
    using set_mono_prefix [OF fx_stop_calls(1) [OF assms(3,4)]] by auto
  ultimately show ?thesis
    using ready_after_false [of "calls_since h h'" "ready_after False (map fst h)"]
    by (simp add: IsReady_def fx_stop_extends [OF assms(3,4)] ready_after_append)
qed

text \<open>
  However the process ends, by a failed construction, a failed start or a stop, it does not report
  itself as ready, as long as its deadlines have not passed.
\<close>

lemma main_not_ready:
  assumes "fx_order needs invokes {} cs" and "fx_laws F" and "service_main F construct cs L env dotenv work [] = (e, h')"
    and "\<forall>e'. e = Some e' \<longrightarrow> \<not> expired e'"
    and "\<And>c h r h'. construct L (env dotenv) c h = (r, h') \<Longrightarrow> IsReady h' \<Longrightarrow> IsReady h"
  shows "\<not> IsReady h'"
proof -
  have kept: "IsReady h2 \<Longrightarrow> IsReady h1"
    if "construct_all (construct L (env dotenv)) ds h1 = (r, h2)" for ds h1 r h2
    using that
  proof (induction ds arbitrary: h1 r)
    case Nil
    then show ?case by simp
  next
    case (Cons d ds)
    obtain r1 hs1 h3 where c: "construct L (env dotenv) d h1 = ((r1, hs1), h3)" by (metis prod.collapse)
    show ?case
    proof (cases r1)
      case None
      with c Cons.prems obtain r2 where "construct_all (construct L (env dotenv)) ds h3 = (r2, h2)"
        by (auto split: prod.splits)
      from Cons.IH [OF _ this] Cons.prems(1) assms(5) [OF c] show ?thesis by blast
    next
      case (Some x)
      with c Cons.prems assms(5) [OF c] show ?thesis by simp
    qed
  qed
  obtain r hs h1 where c: "construct_all (construct L (env dotenv)) cs [] = ((r, hs), h1)" by (metis prod.collapse)
  have h1: "\<not> IsReady h1" using kept [OF c] by (auto simp: IsReady_def)
  show ?thesis
  proof (cases r)
    case (Some x)
    then show ?thesis using assms(3) c h1 by (simp add: service_main_def)
  next
    case None
    note c = c [unfolded None]
    obtain r2 h2 where s: "fx_start F (hooks_of L hs) h1 = (r2, h2)" by fastforce
    show ?thesis
    proof (cases r2)
      case (Some x)
      then have "e = Some x" "h' = h2" using assms(3) c s by (simp_all add: service_main_def)
      then show ?thesis
        using start_rolled_back(1) [OF assms(1) c assms(2) s [unfolded Some]] assms(4) h1 by blast
    next
      case None
      then have "fx_stop F (hooks_of L hs) (work h2) = (e, h')" using assms(3) c s by (simp add: service_main_def)
      then show ?thesis using stop_not_ready [OF assms(1) c assms(2) _ assms(4)] by blast
    qed
  qed
qed

end

section \<open>The four processes\<close>

text \<open>No constructor of the four modules makes the process ready.\<close>

definition never_ready :: "(life \<Rightarrow> 'r \<times> life) \<Rightarrow> bool" where
  "never_ready f \<longleftrightarrow> (\<forall>h. IsReady (snd (f h)) \<longrightarrow> IsReady h)"

lemma never_readyI: "(\<And>h r h'. f h = (r, h') \<Longrightarrow> IsReady h' \<Longrightarrow> IsReady h) \<Longrightarrow> never_ready f"
  unfolding never_ready_def by (metis prod.collapse)

lemma never_readyD: "never_ready f \<Longrightarrow> f h = (r, h') \<Longrightarrow> IsReady h' \<Longrightarrow> IsReady h"
  unfolding never_ready_def by (metis snd_conv)

lemma never_ready_lcall: "c \<noteq> SetReady True \<Longrightarrow> never_ready (lcall L c)"
  by (auto simp: never_ready_def lcall_def IsReady_def ready_after_append split: life_call.splits)

lemma never_ready_seq:
  assumes "never_ready f" and "never_ready g"
  shows "never_ready (seq f g)"
proof (rule never_readyI)
  fix h r h'
  assume run: "seq f g h = (r, h')" and ready: "IsReady h'"
  obtain e h1 where f: "f h = (e, h1)" by fastforce
  have "IsReady h1"
    using run f ready never_readyD [OF assms(2), of h1 r h'] by (cases e) (auto simp: seq_def)
  then show "IsReady h" by (rule never_readyD [OF assms(1) f])
qed

lemma never_ready_prefixed:
  assumes "never_ready f"
  shows "never_ready (prefixed m f)"
proof (rule never_readyI)
  fix h r h'
  assume "prefixed m f h = (r, h')" and ready: "IsReady h'"
  then obtain e where "f h = (e, h')" by (auto simp: prefixed_def split: prod.splits option.splits)
  then show "IsReady h" using ready by (rule never_readyD [OF assms])
qed

lemma never_ready_appended: "never_ready (appended hs)"
  by (simp add: never_ready_def appended_def)

lemma never_ready_opened:
  assumes "never_ready f"
  shows "never_ready (opened f hs)"
proof (rule never_readyI)
  fix h r h'
  assume "opened f hs h = (r, h')" and ready: "IsReady h'"
  then obtain e where "f h = (e, h')" by (auto simp: opened_def split: prod.splits option.splits)
  then show "IsReady h" using ready by (rule never_readyD [OF assms])
qed

lemma never_ready_given: "(\<And>o'. never_ready (f o')) \<Longrightarrow> never_ready (given options f)"
  by (auto simp: never_ready_def given_def split: sum.splits)

lemma never_ready_result: "never_ready (\<lambda>h. (x, h))"
  by (simp add: never_ready_def)

lemma never_ready_published:
  assumes "never_ready f" and "never_ready g"
  shows "never_ready (\<lambda>h. case f h of (Some err, h') \<Rightarrow> ((Some err, []), h')
    | (None, h') \<Rightarrow> (case g h' of (e, h'') \<Rightarrow> ((e, ks), h'')))"
proof (rule never_readyI)
  fix h r h3
  assume run: "(case f h of (Some err, h') \<Rightarrow> ((Some err, []), h')
    | (None, h') \<Rightarrow> (case g h' of (e, h'') \<Rightarrow> ((e, ks), h''))) = (r, h3)" and ready: "IsReady h3"
  obtain e h1 where f: "f h = (e, h1)" by fastforce
  obtain e2 h2 where g: "g h1 = (e2, h2)" by fastforce
  have "IsReady h1" using run f g ready never_readyD [OF assms(2) g] by (cases e) auto
  then show "IsReady h" by (rule never_readyD [OF assms(1) f])
qed

lemmas never_ready_intros = never_ready_seq never_ready_prefixed never_ready_appended never_ready_opened
  never_ready_given never_ready_lcall never_ready_result never_ready_published

lemma connections_never_ready:
  "never_ready (connect_db L options)" "never_ready (new_publisher L)"
  "never_ready (ConnectMongo L mo)" "never_ready (NewElasticsearchClient L es)"
  "never_ready (RegisterMediatorHandlers L)"
  unfolding connect_db_def ConnectPostgres_def new_publisher_def ConnectMongo_def NewElasticsearchClient_def
    RegisterMediatorHandlers_def
  by (intro never_ready_intros; simp)+

lemma constructors_never_ready:
  "never_ready (order_construct L E1 c1)" "never_ready (inventory_construct L E2 c2)"
  "never_ready (write_construct L E3 c3)" "never_ready (read_construct L E4 c4)"
proof -
  show "never_ready (order_construct L E1 c1)"
    by (cases c1) (auto intro!: never_ready_intros connections_never_ready simp: order_construct_defs)
  show "never_ready (inventory_construct L E2 c2)"
    by (cases c2) (auto intro!: never_ready_intros connections_never_ready simp: inventory_construct_defs)
  show "never_ready (write_construct L E3 c3)"
    by (cases c3) (auto intro!: never_ready_intros connections_never_ready
        simp: write_construct_defs write_providePublisher_def)
  show "never_ready (read_construct L E4 c4)"
    by (cases c4) (auto intro!: never_ready_intros connections_never_ready simp: read_construct_defs)
qed

text \<open>So none of the four ends ready, whatever it did while it ran.\<close>

lemma order_main_not_ready:
  assumes "fx_order order_needs order_invokes {} cs" and "fx_laws F"
    and "order_main F cs L env dotenv work [] = (e, h')" and "\<forall>e'. e = Some e' \<longrightarrow> \<not> expired e'"
  shows "\<not> IsReady h'"
  using order_module.main_not_ready [OF assms(1,2) assms(3) [unfolded order_main_def] assms(4)
      never_readyD [OF constructors_never_ready(1)]] .

lemma inventory_main_not_ready:
  assumes "fx_order inventory_needs inventory_invokes {} cs" and "fx_laws F"
    and "inventory_main F cs L env dotenv work [] = (e, h')" and "\<forall>e'. e = Some e' \<longrightarrow> \<not> expired e'"
  shows "\<not> IsReady h'"
  using inventory_module.main_not_ready [OF assms(1,2) assms(3) [unfolded inventory_main_def] assms(4)
      never_readyD [OF constructors_never_ready(2)]] .

lemma write_main_not_ready:
  assumes "fx_order write_needs write_invokes {} cs" and "fx_laws F"
    and "write_main F cs L env dotenv work [] = (e, h')" and "\<forall>e'. e = Some e' \<longrightarrow> \<not> expired e'"
  shows "\<not> IsReady h'"
  using write_module.main_not_ready [OF assms(1,2) assms(3) [unfolded write_main_def] assms(4)
      never_readyD [OF constructors_never_ready(3)]] .

lemma read_main_not_ready:
  assumes "fx_order read_needs read_invokes {} cs" and "fx_laws F"
    and "read_main F cs L env dotenv work [] = (e, h')" and "\<forall>e'. e = Some e' \<longrightarrow> \<not> expired e'"
  shows "\<not> IsReady h'"
  using read_module.main_not_ready [OF assms(1,2) assms(3) [unfolded read_main_def] assms(4)
      never_readyD [OF constructors_never_ready(4)]] .

end
