(* ===== verification/Wiring.thy ===== *)
theory Wiring
  imports Order_Consumers Inventory_Consumer Catalog_Search Outbox Options
begin

text \<open>
  How the modules put the messaging parts together: the consumers and the outbox workers built from
  the options, the options of the configuration files, and the queues a published event reaches.
\<close>

section \<open>Workers and consumers built from options\<close>

record worker_config =
  wk_interval :: goint
  wk_processingTimeout :: goint
  wk_batchSize :: nat

definition order_provideOutboxWorker :: "OrderRabbitMQOptions \<Rightarrow> worker_config" where
  "order_provideOutboxWorker options =
     \<lparr>wk_interval = outbox_interval (orb_OutboxIntervalSeconds options),
      wk_processingTimeout = orb_OutboxProcessingTimeout options, wk_batchSize = 20\<rparr>"

definition inventory_provideOutboxWorker :: "InventoryRabbitMQOptions \<Rightarrow> worker_config" where
  "inventory_provideOutboxWorker options =
     \<lparr>wk_interval = outbox_interval (irb_OutboxIntervalSeconds options),
      wk_processingTimeout = irb_OutboxProcessingTimeout options, wk_batchSize = 20\<rparr>"

definition catalog_provideOutboxWorker :: "CatalogWriteRabbitMQOptions \<Rightarrow> worker_config" where
  "catalog_provideOutboxWorker options =
     \<lparr>wk_interval = outbox_interval (wrb_OutboxIntervalSeconds options),
      wk_processingTimeout = wrb_OutboxProcessingTimeout options, wk_batchSize = 20\<rparr>"

text \<open>A consumer is its \<open>Start\<close> method; the processing timeout bounds the calls of a handler.\<close>

definition provideStockReservedConsumer ::
  "'s order_db \<Rightarrow> amqp \<Rightarrow> (string \<Rightarrow> uuid option) \<Rightarrow> OrderRabbitMQOptions
   \<Rightarrow> (uuid \<times> time) consumer_event list \<Rightarrow> 's \<times> chan \<Rightarrow> err option option \<times> 's \<times> chan" where
  "provideStockReservedConsumer D B parse options =
     stockReserved_Start D B parse (orb_ConsumerExchange options) (orb_StockReservedQueue options)
       (sint (orb_ConsumerRetryDelay options)) (orb_ConsumerMaxAttempts options)"

definition provideStockNotReservedConsumer ::
  "'s order_db \<Rightarrow> amqp \<Rightarrow> (string \<Rightarrow> uuid option) \<Rightarrow> OrderRabbitMQOptions
   \<Rightarrow> (uuid \<times> time) consumer_event list \<Rightarrow> 's \<times> chan \<Rightarrow> err option option \<times> 's \<times> chan" where
  "provideStockNotReservedConsumer D B parse options =
     stockNotReserved_Start D B parse (orb_ConsumerExchange options) (orb_StockNotReservedQueue options)
       (sint (orb_ConsumerRetryDelay options)) (orb_ConsumerMaxAttempts options)"

definition provideReserveStockRequestedConsumer ::
  "'s inventory_db \<Rightarrow> amqp \<Rightarrow> (string \<Rightarrow> uuid option) \<Rightarrow> (uuid \<Rightarrow> string) \<Rightarrow> InventoryRabbitMQOptions
   \<Rightarrow> inventory_env consumer_event list \<Rightarrow> 's \<times> chan \<Rightarrow> err option option \<times> 's \<times> chan" where
  "provideReserveStockRequestedConsumer D B parse ustr options =
     inventory_Start D B parse ustr (irb_ConsumerExchange options) (irb_ReserveStockQueue options)"

definition provideProductCreatedConsumer ::
  "'s read_db \<Rightarrow> amqp \<Rightarrow> CatalogReadRabbitMQOptions
   \<Rightarrow> time consumer_event list \<Rightarrow> 's \<times> chan \<Rightarrow> err option option \<times> 's \<times> chan" where
  "provideProductCreatedConsumer D B options =
     productCreated_Start D B (rrb_Exchange options) (rrb_ProductCreatedQueue options)"

definition provideProductSearchIndexConsumer ::
  "'s es \<Rightarrow> string \<Rightarrow> amqp \<Rightarrow> CatalogReadRabbitMQOptions
   \<Rightarrow> unit consumer_event list \<Rightarrow> 's \<times> chan \<Rightarrow> err option option \<times> 's \<times> chan" where
  "provideProductSearchIndexConsumer E index B options =
     productSearchIndex_Start E index B (rrb_Exchange options) (rrb_ProductSearchQueue options)"

section \<open>The configuration files\<close>

text \<open>
  The section \<open>rabbitMQOptions\<close> of \<open>config.development.json\<close> and \<open>config.production.json\<close>, which is
  the same in both; the URL comes from the environment. Durations are in nanoseconds.
\<close>

definition seconds :: "nat \<Rightarrow> goint" where
  "seconds n = of_nat n * 1000000000"

definition order_config :: "string \<Rightarrow> OrderRabbitMQOptions" where
  "order_config url =
     \<lparr>orb_URL = url, orb_PublisherExchange = ''order.events'', orb_ConsumerExchange = ''inventory.events'',
      orb_StockReservedQueue = ''order-read.inventory-reserved'',
      orb_StockNotReservedQueue = ''order-read.inventory-notreserved'', orb_OutboxIntervalSeconds = 5,
      orb_ConnectionTimeout = seconds 5, orb_PublishTimeout = seconds 5, orb_OutboxProcessingTimeout = seconds 30,
      orb_ConsumerProcessingTimeout = seconds 10, orb_ConsumerRetryDelay = seconds 10, orb_ConsumerMaxAttempts = 3\<rparr>"

definition inventory_config :: "string \<Rightarrow> InventoryRabbitMQOptions" where
  "inventory_config url =
     \<lparr>irb_URL = url, irb_ConsumerExchange = ''order.events'', irb_PublisherExchange = ''inventory.events'',
      irb_ReserveStockQueue = ''inventory-read.order-events'', irb_OutboxIntervalSeconds = 5,
      irb_ConnectionTimeout = seconds 5, irb_PublishTimeout = seconds 5, irb_OutboxProcessingTimeout = seconds 30,
      irb_ConsumerProcessingTimeout = seconds 10\<rparr>"

definition catalog_write_config :: "string \<Rightarrow> CatalogWriteRabbitMQOptions" where
  "catalog_write_config url =
     \<lparr>wrb_URL = url, wrb_Exchange = ''catalog.events'', wrb_OutboxIntervalSeconds = 5,
      wrb_ConnectionTimeout = seconds 5, wrb_PublishTimeout = seconds 5, wrb_OutboxProcessingTimeout = seconds 30\<rparr>"

definition catalog_read_config :: "string \<Rightarrow> CatalogReadRabbitMQOptions" where
  "catalog_read_config url =
     \<lparr>rrb_URL = url, rrb_Exchange = ''catalog.events'', rrb_ProductCreatedQueue = ''catalog-read.product-created'',
      rrb_ProductSearchQueue = ''catalog-search.product-created'', rrb_ConnectionTimeout = seconds 5,
      rrb_ConsumerProcessingTimeout = seconds 10\<rparr>"

text \<open>The files' options are accepted once the environment has given a URL.\<close>

lemma configs_accepted:
  assumes "url \<noteq> []"
  shows "OrderRabbitMQOptions_Validate (order_config url) = None"
    and "InventoryRabbitMQOptions_Validate (inventory_config url) = None"
    and "CatalogWriteRabbitMQOptions_Validate (catalog_write_config url) = None"
    and "CatalogReadRabbitMQOptions_Validate (catalog_read_config url) = None"
  using assms
  by (simp_all add: OrderRabbitMQOptions_Validate_def InventoryRabbitMQOptions_Validate_def
      CatalogWriteRabbitMQOptions_Validate_def CatalogReadRabbitMQOptions_Validate_def
      order_config_def inventory_config_def catalog_write_config_def catalog_read_config_def seconds_def)

section \<open>Routing\<close>

text \<open>
  The bindings made on a channel. A topic exchange delivers a message to the queues bound to it
  with the message's routing key; none of the keys has a wildcard. The broker names a declared
  queue as the declaration asked.
\<close>

definition bindings :: "chan \<Rightarrow> (string \<times> string \<times> string) set" where
  "bindings h = {(q, k, e). QueueBind q k e False \<in> set h}"

definition routed :: "(string \<times> string \<times> string) set \<Rightarrow> string \<Rightarrow> string \<Rightarrow> string set" where
  "routed bs exchange key = {q. (q, key, exchange) \<in> bs}"

definition names_queues :: "amqp \<Rightarrow> bool" where
  "names_queues B \<longleftrightarrow>
     (\<forall>h q d a x n t. reply_queue B (h @ [QueueDeclare q d a x n t]) = q)"

lemma bindings_append: "bindings (h @ cs) = bindings h \<union> bindings cs"
  by (auto simp: bindings_def)

lemma bindings_Nil [simp]: "bindings [] = {}"
  by (simp add: bindings_def)

lemma consumer_Start_waiting:
  "consumer_Start reason setup handle [] (s, h) = (None, w) \<Longrightarrow> setup h = (None, snd w)"
  by (auto simp: consumer_Start_def split: prod.splits option.splits)

lemma plain_setup_binds:
  assumes "names_queues B" and "plain_consumer_setup B exchange queueName key [] = (None, h)"
  shows "bindings h = {(queueName, key, exchange)}"
  using assms
  by (auto simp: plain_consumer_setup_def seq_def call_def names_queues_def bindings_def
      append_Cons [symmetric] simp del: append_Cons split: prod.splits option.splits)

lemma call_None: "call B c h = (None, h') \<longleftrightarrow> reply_err B (h @ [c]) = None \<and> h' = h @ [c]"
  by (auto simp: call_def)

lemma retry_setup_binds:
  assumes "names_queues B" and "consumer_setup B exchange queueName key p [] = (None, h)"
  shows "bindings h = {(queueName, key, exchange), (rp_deadLetterQueue p, rp_deadLetterQueue p, rp_deadLetterExchange p)}"
proof -
  have q: "reply_queue B [ExchangeDeclare exchange ''topic'' True False False False,
      QueueDeclare queueName True False False False None] = queueName"
    using assms(1) unfolding names_queues_def by (metis append_Cons append_Nil)
  have "h = [ExchangeDeclare exchange ''topic'' True False False False,
      QueueDeclare queueName True False False False None, ConfirmMode False,
      ExchangeDeclare (rp_deadLetterExchange p) ''direct'' True False False False,
      QueueDeclare (rp_deadLetterQueue p) True False False False None,
      QueueBind (rp_deadLetterQueue p) (rp_deadLetterQueue p) (rp_deadLetterExchange p) False,
      QueueDeclare (rp_retryQueue p) True False False False
        (Some [''x-message-ttl'' \<mapsto> HInt64 (milliseconds (rp_retryDelay p)),
               ''x-dead-letter-exchange'' \<mapsto> HString (rp_sourceExchange p),
               ''x-dead-letter-routing-key'' \<mapsto> HString (rp_sourceRoutingKey p)]),
      QueueBind queueName key exchange False, Consume queueName [] False False False False]"
    using assms(2) unfolding consumer_setup_def retry_declare_def
    by (simp only: seq_None_iff wrapping_None_iff call_None Let_def) (clarsimp simp: q)
  then show ?thesis by (auto simp: bindings_def)
qed

lemma retry_consumer_binds:
  assumes "names_queues B"
    and "consumer_Start reason (consumer_setup B exchange queueName key p) handle [] (s, []) = (None, w)"
  shows "bindings (snd w) =
    {(queueName, key, exchange), (rp_deadLetterQueue p, rp_deadLetterQueue p, rp_deadLetterExchange p)}"
  by (rule retry_setup_binds [OF assms(1) consumer_Start_waiting [OF assms(2)]])

lemma plain_consumer_binds:
  assumes "names_queues B"
    and "consumer_Start reason (plain_consumer_setup B exchange queueName key) handle [] (s, []) = (None, w)"
  shows "bindings (snd w) = {(queueName, key, exchange)}"
  by (rule plain_setup_binds [OF assms(1) consumer_Start_waiting [OF assms(2)]])

lemma consumer_binds:
  assumes "names_queues B"
  shows "provideStockReservedConsumer D B parse o1 [] (s, []) = (None, w) \<Longrightarrow>
      bindings (snd w) = {(orb_StockReservedQueue o1, ''stock.reserved'', orb_ConsumerExchange o1),
        (orb_StockReservedQueue o1 @ ''.dlq'', orb_StockReservedQueue o1 @ ''.dlq'', orb_ConsumerExchange o1 @ ''.dead-letter'')}"
    and "provideStockNotReservedConsumer D B parse o1 [] (s, []) = (None, w) \<Longrightarrow>
      bindings (snd w) = {(orb_StockNotReservedQueue o1, ''stock.notreserved'', orb_ConsumerExchange o1),
        (orb_StockNotReservedQueue o1 @ ''.dlq'', orb_StockNotReservedQueue o1 @ ''.dlq'', orb_ConsumerExchange o1 @ ''.dead-letter'')}"
    and "provideReserveStockRequestedConsumer D2 B parse ustr o2 [] (t, []) = (None, w2) \<Longrightarrow>
      bindings (snd w2) = {(irb_ReserveStockQueue o2, ''order.created'', irb_ConsumerExchange o2)}"
    and "provideProductCreatedConsumer D3 B o3 [] (u, []) = (None, w3) \<Longrightarrow>
      bindings (snd w3) = {(rrb_ProductCreatedQueue o3, ''product.created'', rrb_Exchange o3)}"
    and "provideProductSearchIndexConsumer E index B o3 [] (v, []) = (None, w4) \<Longrightarrow>
      bindings (snd w4) = {(rrb_ProductSearchQueue o3, ''product.created'', rrb_Exchange o3)}"
  unfolding provideStockReservedConsumer_def provideStockNotReservedConsumer_def
    provideReserveStockRequestedConsumer_def provideProductCreatedConsumer_def
    provideProductSearchIndexConsumer_def stockReserved_Start_def stockNotReserved_Start_def
    inventory_Start_def productCreated_Start_def productSearchIndex_Start_def Let_def
  by (drule retry_consumer_binds [OF assms],
      simp add: NewStockReservedConsumer_policy_def NewStockNotReservedConsumer_policy_def newRetryPolicy_def)+
     (erule plain_consumer_binds [OF assms])+

section \<open>Where the events go\<close>

text \<open>
  C40: With the configuration files every event reaches its consumers and nobody else. Suppose the
  five consumers, built from the files' options, have set themselves up and wait. Then a message
  the order service publishes under any event type it supports is routed to the inventory's queue
  alone; the inventory's two answers to the order service's queue for that answer; a product
  event to the two queues of the catalog's read side. A message that the delay queue of a retry
  policy hands back is routed to the queue it came from, and a message given up goes to the
  dead-letter queue.
\<close>
theorem events_routed:
  assumes "names_queues B"
    and "provideStockReservedConsumer D B parse (order_config u1) [] (s1, []) = (None, w1)"
    and "provideStockNotReservedConsumer D B parse (order_config u1) [] (s1, []) = (None, w2)"
    and "provideReserveStockRequestedConsumer D2 B parse2 ustr (inventory_config u2) [] (s2, []) = (None, w3)"
    and "provideProductCreatedConsumer D3 B (catalog_read_config u3) [] (s3, []) = (None, w4)"
    and "provideProductSearchIndexConsumer E index B (catalog_read_config u3) [] (s4, []) = (None, w5)"
    and "bs = bindings (snd w1) \<union> bindings (snd w2) \<union> bindings (snd w3) \<union> bindings (snd w4) \<union> bindings (snd w5)"
    and "p1 = NewStockReservedConsumer_policy (orb_ConsumerExchange (order_config u1)) (orb_StockReservedQueue (order_config u1)) d n"
    and "p2 = NewStockNotReservedConsumer_policy (orb_ConsumerExchange (order_config u1)) (orb_StockNotReservedQueue (order_config u1)) d n"
  shows "(\<forall>t key. order_eventRoutingKey t = Inr key \<longrightarrow>
       routed bs (orb_PublisherExchange (order_config u1)) key = {irb_ReserveStockQueue (inventory_config u2)}) \<and>
     (\<forall>t key. inventory_eventRoutingKey t = Inr key \<longrightarrow>
       routed bs (irb_PublisherExchange (inventory_config u2)) key =
         {if t = ''StockReserved'' then orb_StockReservedQueue (order_config u1)
          else orb_StockNotReservedQueue (order_config u1)}) \<and>
     (\<forall>t key. catalog_eventRoutingKey t = Inr key \<longrightarrow>
       routed bs (wrb_Exchange (catalog_write_config u4)) key =
         {rrb_ProductCreatedQueue (catalog_read_config u3), rrb_ProductSearchQueue (catalog_read_config u3)}) \<and>
     routed bs (rp_sourceExchange p1) (rp_sourceRoutingKey p1) = {orb_StockReservedQueue (order_config u1)} \<and>
     routed bs (rp_sourceExchange p2) (rp_sourceRoutingKey p2) = {orb_StockNotReservedQueue (order_config u1)} \<and>
     routed bs (rp_deadLetterExchange p1) (rp_deadLetterQueue p1) = {rp_deadLetterQueue p1} \<and>
     routed bs (rp_deadLetterExchange p2) (rp_deadLetterQueue p2) = {rp_deadLetterQueue p2}"
proof -
  have bs: "bs =
    {(''order-read.inventory-reserved'', ''stock.reserved'', ''inventory.events''),
     (''order-read.inventory-reserved.dlq'', ''order-read.inventory-reserved.dlq'', ''inventory.events.dead-letter''),
     (''order-read.inventory-notreserved'', ''stock.notreserved'', ''inventory.events''),
     (''order-read.inventory-notreserved.dlq'', ''order-read.inventory-notreserved.dlq'', ''inventory.events.dead-letter''),
     (''inventory-read.order-events'', ''order.created'', ''order.events''),
     (''catalog-read.product-created'', ''product.created'', ''catalog.events''),
     (''catalog-search.product-created'', ''product.created'', ''catalog.events'')}"
    unfolding assms(7) consumer_binds(1) [OF assms(1,2)] consumer_binds(2) [OF assms(1,3)]
      consumer_binds(3) [OF assms(1,4)] consumer_binds(4) [OF assms(1,5)] consumer_binds(5) [OF assms(1,6)]
    by (simp add: order_config_def inventory_config_def catalog_read_config_def insert_commute)
  have p: "p1 = newRetryPolicy ''inventory.events'' ''stock.reserved'' ''order-read.inventory-reserved'' n d"
    "p2 = newRetryPolicy ''inventory.events'' ''stock.notreserved'' ''order-read.inventory-notreserved'' n d"
    by (simp_all add: assms(8,9) NewStockReservedConsumer_policy_def NewStockNotReservedConsumer_policy_def order_config_def)
  have routes: "routed bs ''order.events'' ''order.created'' = {''inventory-read.order-events''}"
    "routed bs ''inventory.events'' ''stock.reserved'' = {''order-read.inventory-reserved''}"
    "routed bs ''inventory.events'' ''stock.notreserved'' = {''order-read.inventory-notreserved''}"
    "routed bs ''catalog.events'' ''product.created'' = {''catalog-read.product-created'', ''catalog-search.product-created''}"
    "routed bs ''inventory.events.dead-letter'' ''order-read.inventory-reserved.dlq'' = {''order-read.inventory-reserved.dlq''}"
    "routed bs ''inventory.events.dead-letter'' ''order-read.inventory-notreserved.dlq'' = {''order-read.inventory-notreserved.dlq''}"
    by (auto simp: routed_def bs)
  show ?thesis
    by (simp add: routes p newRetryPolicy_def order_config_def inventory_config_def catalog_read_config_def
        catalog_write_config_def order_eventRoutingKey_def inventory_eventRoutingKey_def catalog_eventRoutingKey_def)
qed

definition naming_broker :: amqp where
  "naming_broker = \<lparr>reply_err = (\<lambda>h. None), reply_acked = (\<lambda>h. True), reply_return = (\<lambda>h. NoReturn),
     reply_queue = (\<lambda>h. case last h of QueueDeclare q d a x n t \<Rightarrow> q | _ \<Rightarrow> [])\<rparr>"

lemma naming_setups:
  "\<exists>h. plain_consumer_setup naming_broker exchange queueName key [] = (None, h)"
  "\<exists>h. consumer_setup naming_broker exchange queueName key p [] = (None, h)"
  by (simp_all add: plain_consumer_setup_def consumer_setup_def retry_declare_def seq_None_iff
      wrapping_None_iff call_None Let_def naming_broker_def)

lemma naming_start:
  "\<exists>w. consumer_Start reason (plain_consumer_setup naming_broker exchange queueName key) handle [] (s, []) = (None, w)"
  "\<exists>w. consumer_Start reason (consumer_setup naming_broker exchange queueName key p) handle2 [] (s, []) = (None, w)"
  using naming_setups(1) [of exchange queueName key] naming_setups(2) [of exchange queueName key p]
  by (auto simp: consumer_Start_def)

lemma naming_consumers:
  "\<exists>w. provideStockReservedConsumer D naming_broker parse o1 [] (s, []) = (None, w)"
  "\<exists>w. provideStockNotReservedConsumer D naming_broker parse o1 [] (s, []) = (None, w)"
  "\<exists>w. provideReserveStockRequestedConsumer D2 naming_broker parse ustr o2 [] (t, []) = (None, w)"
  "\<exists>w. provideProductCreatedConsumer D3 naming_broker o3 [] (u, []) = (None, w)"
  "\<exists>w. provideProductSearchIndexConsumer E index naming_broker o3 [] (v, []) = (None, w)"
  unfolding provideStockReservedConsumer_def provideStockNotReservedConsumer_def
    provideReserveStockRequestedConsumer_def provideProductCreatedConsumer_def
    provideProductSearchIndexConsumer_def stockReserved_Start_def stockNotReserved_Start_def
    inventory_Start_def productCreated_Start_def productSearchIndex_Start_def Let_def
  by (rule naming_start)+

theorem events_routed_witness:
  "\<forall>(D :: unit order_db) (D2 :: unit inventory_db) (D3 :: unit read_db) (E :: unit es).
     \<exists>bs w1 w2 w3 w4 w5.
       provideStockReservedConsumer D naming_broker (\<lambda>_. None) (order_config ''amqp:'') [] ((), []) = (None, w1) \<and>
       provideStockNotReservedConsumer D naming_broker (\<lambda>_. None) (order_config ''amqp:'') [] ((), []) = (None, w2) \<and>
       provideReserveStockRequestedConsumer D2 naming_broker (\<lambda>_. None) (\<lambda>_. []) (inventory_config ''amqp:'') [] ((), []) = (None, w3) \<and>
       provideProductCreatedConsumer D3 naming_broker (catalog_read_config ''amqp:'') [] ((), []) = (None, w4) \<and>
       provideProductSearchIndexConsumer E ''products'' naming_broker (catalog_read_config ''amqp:'') [] ((), []) = (None, w5) \<and>
       bs = bindings (snd w1) \<union> bindings (snd w2) \<union> bindings (snd w3) \<union> bindings (snd w4) \<union> bindings (snd w5) \<and>
       routed bs ''inventory.events'' ''stock.reserved'' = {''order-read.inventory-reserved''}"
proof (intro allI)
  fix D :: "unit order_db" and D2 :: "unit inventory_db" and D3 :: "unit read_db" and E :: "unit es"
  have B: "names_queues naming_broker" by (simp add: names_queues_def naming_broker_def)
  obtain w1 where w1: "provideStockReservedConsumer D naming_broker (\<lambda>_. None) (order_config ''amqp:'') [] ((), []) = (None, w1)"
    using naming_consumers(1) by metis
  obtain w2 where w2: "provideStockNotReservedConsumer D naming_broker (\<lambda>_. None) (order_config ''amqp:'') [] ((), []) = (None, w2)"
    using naming_consumers(2) by metis
  obtain w3 where w3: "provideReserveStockRequestedConsumer D2 naming_broker (\<lambda>_. None) (\<lambda>_. []) (inventory_config ''amqp:'') [] ((), []) = (None, w3)"
    using naming_consumers(3) by metis
  obtain w4 where w4: "provideProductCreatedConsumer D3 naming_broker (catalog_read_config ''amqp:'') [] ((), []) = (None, w4)"
    using naming_consumers(4) by metis
  obtain w5 where w5: "provideProductSearchIndexConsumer E ''products'' naming_broker (catalog_read_config ''amqp:'') [] ((), []) = (None, w5)"
    using naming_consumers(5) by metis
  note t = events_routed [OF B w1 w2 w3 w4 w5 refl refl refl]
  have "inventory_eventRoutingKey ''StockReserved'' = Inr ''stock.reserved''" by (simp add: inventory_eventRoutingKey_def)
  with t have "routed (bindings (snd w1) \<union> bindings (snd w2) \<union> bindings (snd w3) \<union> bindings (snd w4) \<union> bindings (snd w5))
      (irb_PublisherExchange (inventory_config ''amqp:'')) ''stock.reserved'' =
      {orb_StockReservedQueue (order_config ''amqp:'')}" by fastforce
  then have "routed (bindings (snd w1) \<union> bindings (snd w2) \<union> bindings (snd w3) \<union> bindings (snd w4) \<union> bindings (snd w5))
      ''inventory.events'' ''stock.reserved'' = {''order-read.inventory-reserved''}"
    by (simp add: inventory_config_def order_config_def)
  with w1 w2 w3 w4 w5 show "\<exists>bs w1 w2 w3 w4 w5.
       provideStockReservedConsumer D naming_broker (\<lambda>_. None) (order_config ''amqp:'') [] ((), []) = (None, w1) \<and>
       provideStockNotReservedConsumer D naming_broker (\<lambda>_. None) (order_config ''amqp:'') [] ((), []) = (None, w2) \<and>
       provideReserveStockRequestedConsumer D2 naming_broker (\<lambda>_. None) (\<lambda>_. []) (inventory_config ''amqp:'') [] ((), []) = (None, w3) \<and>
       provideProductCreatedConsumer D3 naming_broker (catalog_read_config ''amqp:'') [] ((), []) = (None, w4) \<and>
       provideProductSearchIndexConsumer E ''products'' naming_broker (catalog_read_config ''amqp:'') [] ((), []) = (None, w5) \<and>
       bs = bindings (snd w1) \<union> bindings (snd w2) \<union> bindings (snd w3) \<union> bindings (snd w4) \<union> bindings (snd w5) \<and>
       routed bs ''inventory.events'' ''stock.reserved'' = {''order-read.inventory-reserved''}" by blast
qed

end
