(* ===== verification/Outbox_Copies.thy ===== *)
theory Outbox_Copies
  imports Wiring
begin

text \<open>
  The outbox worker as an object with its ticker, and the copies of the outbox repository, the
  worker and the publisher's constructor that the inventory and the catalog's write side keep. Each
  copy is written out from its own file; the lemmas show that it is the code the theories \<open>Outbox\<close>
  and \<open>Publisher\<close> reason about, so that what is proved there holds of the three services.
\<close>

section \<open>The worker and its ticker\<close>

record ('s, 'p) OutboxWorker =
  ow_find :: "'s \<Rightarrow> nat \<Rightarrow> err + outbox_message list"
  ow_mark :: "'s \<Rightarrow> uuid \<Rightarrow> err option \<times> 's"
  ow_incr :: "'s \<Rightarrow> uuid \<Rightarrow> err option \<times> 's"
  ow_publish :: "'p \<Rightarrow> string \<Rightarrow> body \<Rightarrow> err option \<times> 'p"
  ow_interval :: goint
  ow_processingTimeout :: goint
  ow_batchSize :: nat

definition NewOutboxWorker ::
  "('s \<Rightarrow> nat \<Rightarrow> err + outbox_message list) \<Rightarrow> ('s \<Rightarrow> uuid \<Rightarrow> err option \<times> 's) \<Rightarrow> ('s \<Rightarrow> uuid \<Rightarrow> err option \<times> 's)
   \<Rightarrow> ('p \<Rightarrow> string \<Rightarrow> body \<Rightarrow> err option \<times> 'p) \<Rightarrow> goint \<Rightarrow> goint \<Rightarrow> nat \<Rightarrow> ('s, 'p) OutboxWorker" where
  "NewOutboxWorker find_un mark incr publish interval processingTimeout batchSize =
     \<lparr>ow_find = find_un, ow_mark = mark, ow_incr = incr, ow_publish = publish,
      ow_interval = interval, ow_processingTimeout = processingTimeout, ow_batchSize = batchSize\<rparr>"

text \<open>
  \<open>time.NewTicker\<close> panics when the interval is not positive, which is None here. The pair of another
  run says whether \<open>Start\<close> has returned.
\<close>

definition worker_Start :: "('s, 'p) OutboxWorker \<Rightarrow> worker_event list \<Rightarrow> 's \<times> 'p \<Rightarrow> (bool \<times> 's \<times> 'p) option" where
  "worker_Start w es sp =
     (if sint (ow_interval w) \<le> 0 then None
      else Some (worker_start
        (process (ow_find w) (ow_mark w) (ow_incr w) (ow_publish w) (ow_batchSize w)) es sp))"

lemma worker_Start_runs:
  assumes "0 < sint (ow_interval w)"
  shows "worker_Start w es sp = Some (worker_start
    (process (ow_find w) (ow_mark w) (ow_incr w) (ow_publish w) (ow_batchSize w)) es sp)"
  using assms by (simp add: worker_Start_def)

text \<open>The ticker takes every interval from 1 to 9223372036 seconds, and none of 9223372037.\<close>

lemma worker_Start_interval:
  assumes "ow_interval w = outbox_interval s" and "0 < sint s" and "sint s \<le> 9223372036"
  shows "worker_Start w es sp \<noteq> None"
  using assms by (simp add: worker_Start_def outbox_interval_exact)

lemma worker_Start_panics:
  assumes "ow_interval w = outbox_interval 9223372037"
  shows "worker_Start w es sp = None"
proof -
  have "sint (outbox_interval 9223372037) \<le> 0" by code_simp
  with assms show ?thesis by (simp add: worker_Start_def)
qed

section \<open>The inventory's copies\<close>

definition inventory_fromOutboxDataModel :: "outbox_row \<Rightarrow> outbox_message" where
  "inventory_fromOutboxDataModel message =
     \<lparr>om_id = ob_id message, om_aggregate_id = ob_aggregate_id message,
      om_aggregate_type = ob_aggregate_type message, om_event_type = ob_event_type message,
      om_payload = ob_payload message, om_retry_count = ob_retry_count message,
      om_created_at = ob_created_at message, om_processed_at = ob_processed_at message\<rparr>"

definition inventory_FindUnprocessed ::
  "('s, outbox_row) gorm \<Rightarrow> 's \<Rightarrow> nat \<Rightarrow> err + outbox_message list" where
  "inventory_FindUnprocessed T s limit =
     (case g_find_ordered T s (\<lambda>r. ob_processed_at r = None) ob_created_at limit of
        Inl err \<Rightarrow> Inl err
      | Inr models \<Rightarrow> Inr (map inventory_fromOutboxDataModel models))"

definition inventory_MarkAsProcessed ::
  "('s, outbox_row) gorm \<Rightarrow> (uuid \<Rightarrow> time) \<Rightarrow> 's \<Rightarrow> uuid \<Rightarrow> err option \<times> 's" where
  "inventory_MarkAsProcessed T clock s i =
     g_updates T s (\<lambda>r. ob_id r = i) (\<lambda>r. r\<lparr>ob_processed_at := Some (clock i)\<rparr>)"

definition inventory_IncrementRetry :: "('s, outbox_row) gorm \<Rightarrow> 's \<Rightarrow> uuid \<Rightarrow> err option \<times> 's" where
  "inventory_IncrementRetry T s i =
     g_updates T s (\<lambda>r. ob_id r = i) (\<lambda>r. r\<lparr>ob_retry_count := ob_retry_count r + 1\<rparr>)"

definition inventory_NewRabbitMQPublisher :: "amqp \<Rightarrow> string \<Rightarrow> chan act" where
  "inventory_NewRabbitMQPublisher B exchange h =
     (case call B (ExchangeDeclare exchange ''topic'' True False False False) h of
        (Some err, h') \<Rightarrow> (Some err, h')
      | (None, h') \<Rightarrow> call B (ConfirmMode False) h')"

definition inventory_NewOutboxWorker ::
  "('s \<Rightarrow> nat \<Rightarrow> err + outbox_message list) \<Rightarrow> ('s \<Rightarrow> uuid \<Rightarrow> err option \<times> 's) \<Rightarrow> ('s \<Rightarrow> uuid \<Rightarrow> err option \<times> 's)
   \<Rightarrow> ('p \<Rightarrow> string \<Rightarrow> body \<Rightarrow> err option \<times> 'p) \<Rightarrow> goint \<Rightarrow> goint \<Rightarrow> nat \<Rightarrow> ('s, 'p) OutboxWorker" where
  "inventory_NewOutboxWorker find_un mark incr publish interval processingTimeout batchSize =
     \<lparr>ow_find = find_un, ow_mark = mark, ow_incr = incr, ow_publish = publish,
      ow_interval = interval, ow_processingTimeout = processingTimeout, ow_batchSize = batchSize\<rparr>"

definition inventory_worker_Start ::
  "('s, 'p) OutboxWorker \<Rightarrow> worker_event list \<Rightarrow> 's \<times> 'p \<Rightarrow> (bool \<times> 's \<times> 'p) option" where
  "inventory_worker_Start w es sp =
     (if sint (ow_interval w) \<le> 0 then None
      else Some (worker_start
        (process (ow_find w) (ow_mark w) (ow_incr w) (ow_publish w) (ow_batchSize w)) es sp))"


section \<open>The copies of the catalog's write side\<close>

definition catalog_toOutboxDataModel :: "outbox_message \<Rightarrow> outbox_row" where
  "catalog_toOutboxDataModel message =
     \<lparr>ob_id = om_id message, ob_aggregate_id = om_aggregate_id message,
      ob_aggregate_type = om_aggregate_type message, ob_event_type = om_event_type message,
      ob_payload = om_payload message, ob_retry_count = om_retry_count message,
      ob_created_at = om_created_at message, ob_processed_at = om_processed_at message\<rparr>"

definition catalog_fromOutboxDataModel :: "outbox_row \<Rightarrow> outbox_message" where
  "catalog_fromOutboxDataModel message =
     \<lparr>om_id = ob_id message, om_aggregate_id = ob_aggregate_id message,
      om_aggregate_type = ob_aggregate_type message, om_event_type = ob_event_type message,
      om_payload = ob_payload message, om_retry_count = ob_retry_count message,
      om_created_at = ob_created_at message, om_processed_at = ob_processed_at message\<rparr>"

definition catalog_FindUnprocessed ::
  "('s, outbox_row) gorm \<Rightarrow> 's \<Rightarrow> nat \<Rightarrow> err + outbox_message list" where
  "catalog_FindUnprocessed T s limit =
     (case g_find_ordered T s (\<lambda>r. ob_processed_at r = None) ob_created_at limit of
        Inl err \<Rightarrow> Inl err
      | Inr models \<Rightarrow> Inr (map catalog_fromOutboxDataModel models))"

definition catalog_MarkAsProcessed ::
  "('s, outbox_row) gorm \<Rightarrow> (uuid \<Rightarrow> time) \<Rightarrow> 's \<Rightarrow> uuid \<Rightarrow> err option \<times> 's" where
  "catalog_MarkAsProcessed T clock s i =
     g_updates T s (\<lambda>r. ob_id r = i) (\<lambda>r. r\<lparr>ob_processed_at := Some (clock i)\<rparr>)"

definition catalog_IncrementRetry :: "('s, outbox_row) gorm \<Rightarrow> 's \<Rightarrow> uuid \<Rightarrow> err option \<times> 's" where
  "catalog_IncrementRetry T s i =
     g_updates T s (\<lambda>r. ob_id r = i) (\<lambda>r. r\<lparr>ob_retry_count := ob_retry_count r + 1\<rparr>)"

definition catalog_NewRabbitMQPublisher :: "amqp \<Rightarrow> string \<Rightarrow> chan act" where
  "catalog_NewRabbitMQPublisher B exchange h =
     (case call B (ExchangeDeclare exchange ''topic'' True False False False) h of
        (Some err, h') \<Rightarrow> (Some err, h')
      | (None, h') \<Rightarrow> call B (ConfirmMode False) h')"

definition catalog_NewOutboxWorker ::
  "('s \<Rightarrow> nat \<Rightarrow> err + outbox_message list) \<Rightarrow> ('s \<Rightarrow> uuid \<Rightarrow> err option \<times> 's) \<Rightarrow> ('s \<Rightarrow> uuid \<Rightarrow> err option \<times> 's)
   \<Rightarrow> ('p \<Rightarrow> string \<Rightarrow> body \<Rightarrow> err option \<times> 'p) \<Rightarrow> goint \<Rightarrow> goint \<Rightarrow> nat \<Rightarrow> ('s, 'p) OutboxWorker" where
  "catalog_NewOutboxWorker find_un mark incr publish interval processingTimeout batchSize =
     \<lparr>ow_find = find_un, ow_mark = mark, ow_incr = incr, ow_publish = publish,
      ow_interval = interval, ow_processingTimeout = processingTimeout, ow_batchSize = batchSize\<rparr>"

definition catalog_worker_Start ::
  "('s, 'p) OutboxWorker \<Rightarrow> worker_event list \<Rightarrow> 's \<times> 'p \<Rightarrow> (bool \<times> 's \<times> 'p) option" where
  "catalog_worker_Start w es sp =
     (if sint (ow_interval w) \<le> 0 then None
      else Some (worker_start
        (process (ow_find w) (ow_mark w) (ow_incr w) (ow_publish w) (ow_batchSize w)) es sp))"


section \<open>The copies are the code that is reasoned about\<close>


lemma fromOutboxDataModel_copies [simp]:
  "inventory_fromOutboxDataModel = fromOutboxDataModel" "catalog_fromOutboxDataModel = fromOutboxDataModel"
  by (simp_all add: fun_eq_iff inventory_fromOutboxDataModel_def catalog_fromOutboxDataModel_def
      fromOutboxDataModel_def)

lemma repository_copies [simp]:
  "catalog_toOutboxDataModel = toOutboxDataModel"
  "inventory_FindUnprocessed = FindUnprocessed" "catalog_FindUnprocessed = FindUnprocessed"
  "inventory_MarkAsProcessed = MarkAsProcessed" "catalog_MarkAsProcessed = MarkAsProcessed"
  "inventory_IncrementRetry = IncrementRetry" "catalog_IncrementRetry = IncrementRetry"
  by (simp_all add: fun_eq_iff inventory_FindUnprocessed_def catalog_FindUnprocessed_def FindUnprocessed_def
      inventory_MarkAsProcessed_def catalog_MarkAsProcessed_def MarkAsProcessed_def
      inventory_IncrementRetry_def catalog_IncrementRetry_def IncrementRetry_def
      catalog_toOutboxDataModel_def toOutboxDataModel_def split: sum.splits)

lemma publisher_copies [simp]:
  "inventory_NewRabbitMQPublisher = NewRabbitMQPublisher" "catalog_NewRabbitMQPublisher = NewRabbitMQPublisher"
  by (simp_all add: fun_eq_iff inventory_NewRabbitMQPublisher_def catalog_NewRabbitMQPublisher_def
      NewRabbitMQPublisher_def seq_def)

lemma worker_copies [simp]:
  "inventory_NewOutboxWorker = NewOutboxWorker" "catalog_NewOutboxWorker = NewOutboxWorker"
  "inventory_worker_Start = worker_Start" "catalog_worker_Start = worker_Start"
  by (simp_all add: fun_eq_iff inventory_NewOutboxWorker_def catalog_NewOutboxWorker_def NewOutboxWorker_def
      inventory_worker_Start_def catalog_worker_Start_def worker_Start_def)

text \<open>The contract of the repository holds of both copies.\<close>

interpretation inventory_pg_outbox: outbox_repository "\<lambda>_. outbox_laws T" "outbox_content T" "outbox_pending T"
    "outbox_retries T" "inventory_FindUnprocessed T" "inventory_MarkAsProcessed T clock" "inventory_IncrementRetry T"
  for T :: "('s, outbox_row) gorm" and clock
  unfolding repository_copies by (rule pg_outbox.outbox_repository_axioms)

interpretation catalog_pg_outbox: outbox_repository "\<lambda>_. outbox_laws T" "outbox_content T" "outbox_pending T"
    "outbox_retries T" "catalog_FindUnprocessed T" "catalog_MarkAsProcessed T clock" "catalog_IncrementRetry T"
  for T :: "('s, outbox_row) gorm" and clock
  unfolding repository_copies by (rule pg_outbox.outbox_repository_axioms)

section \<open>The workers of the modules\<close>

text \<open>As \<open>provideOutboxWorker\<close> of each module builds them, over its repository and publisher.\<close>

definition order_worker ::
  "('s, outbox_row) gorm \<Rightarrow> (uuid \<Rightarrow> time) \<Rightarrow> amqp \<Rightarrow> OrderRabbitMQOptions \<Rightarrow> ('s, chan) OutboxWorker" where
  "order_worker T clock B options =
     (let c = order_provideOutboxWorker options
      in NewOutboxWorker (FindUnprocessed T) (MarkAsProcessed T clock) (IncrementRetry T)
           (\<lambda>h t b. order_Publish B (orb_PublisherExchange options) t b h)
           (wk_interval c) (wk_processingTimeout c) (wk_batchSize c))"

definition inventory_worker ::
  "('s, outbox_row) gorm \<Rightarrow> (uuid \<Rightarrow> time) \<Rightarrow> amqp \<Rightarrow> InventoryRabbitMQOptions \<Rightarrow> ('s, chan) OutboxWorker" where
  "inventory_worker T clock B options =
     (let c = inventory_provideOutboxWorker options
      in inventory_NewOutboxWorker (inventory_FindUnprocessed T) (inventory_MarkAsProcessed T clock)
           (inventory_IncrementRetry T) (\<lambda>h t b. inventory_Publish B (irb_PublisherExchange options) t b h)
           (wk_interval c) (wk_processingTimeout c) (wk_batchSize c))"

definition catalog_worker ::
  "('s, outbox_row) gorm \<Rightarrow> (uuid \<Rightarrow> time) \<Rightarrow> amqp \<Rightarrow> CatalogWriteRabbitMQOptions \<Rightarrow> ('s, chan) OutboxWorker" where
  "catalog_worker T clock B options =
     (let c = catalog_provideOutboxWorker options
      in catalog_NewOutboxWorker (catalog_FindUnprocessed T) (catalog_MarkAsProcessed T clock)
           (catalog_IncrementRetry T) (\<lambda>h t b. catalog_Publish B (wrb_Exchange options) t b h)
           (wk_interval c) (wk_processingTimeout c) (wk_batchSize c))"

lemmas worker_defs = order_worker_def inventory_worker_def catalog_worker_def order_provideOutboxWorker_def
  inventory_provideOutboxWorker_def catalog_provideOutboxWorker_def NewOutboxWorker_def Let_def

text \<open>
  With options the service accepts, and an interval below the overflow, the ticker does not panic,
  and each tick is one \<open>process\<close> of twenty messages at most.
\<close>

lemma order_worker_runs:
  assumes "OrderRabbitMQOptions_Validate options = None" and "sint (orb_OutboxIntervalSeconds options) \<le> 9223372036"
  shows "worker_Start (order_worker T clock B options) es sp =
    Some (worker_start (order_outbox_process T clock B (orb_PublisherExchange options) 20) es sp)"
proof -
  have "0 < sint (orb_OutboxIntervalSeconds options)"
    using assms(1) by (simp add: OrderRabbitMQOptions_Validate_def split: if_splits)
  with assms(2) show ?thesis
    by (simp add: worker_Start_def worker_defs outbox_interval_exact order_outbox_process_def
        outbox_process_def order_Publish_def)
qed

lemma inventory_worker_runs:
  assumes "InventoryRabbitMQOptions_Validate options = None" and "sint (irb_OutboxIntervalSeconds options) \<le> 9223372036"
  shows "inventory_worker_Start (inventory_worker T clock B options) es sp =
    Some (worker_start (inventory_outbox_process T clock B (irb_PublisherExchange options) 20) es sp)"
proof -
  have "0 < sint (irb_OutboxIntervalSeconds options)"
    using assms(1) by (simp add: InventoryRabbitMQOptions_Validate_def split: if_splits)
  with assms(2) show ?thesis
    by (simp add: worker_Start_def worker_defs outbox_interval_exact inventory_outbox_process_def
        outbox_process_def inventory_Publish_def)
qed

lemma catalog_worker_runs:
  assumes "CatalogWriteRabbitMQOptions_Validate options = None" and "sint (wrb_OutboxIntervalSeconds options) \<le> 9223372036"
  shows "catalog_worker_Start (catalog_worker T clock B options) es sp =
    Some (worker_start (catalog_outbox_process T clock B (wrb_Exchange options) 20) es sp)"
proof -
  have "0 < sint (wrb_OutboxIntervalSeconds options)"
    using assms(1) by (simp add: CatalogWriteRabbitMQOptions_Validate_def split: if_splits)
  with assms(2) show ?thesis
    by (simp add: worker_Start_def worker_defs outbox_interval_exact catalog_outbox_process_def
        outbox_process_def catalog_Publish_def)
qed

end
