(* ===== verification/Health.thy ===== *)
theory Health
  imports Lifecycle_Calls Go_Json
begin

text \<open>
  The health handlers as objects, and what they answer over HTTP: the flag a handler holds is the
  one \<open>IsReady\<close> reads off the history of calls. The gateway's copy encodes a map where the
  services' copies encode a struct; the answers are the same.
\<close>

section \<open>The handler\<close>

record health_handler =
  hd_ready :: bool

record health_answer =
  ha_status :: nat
  ha_content_type :: string
  ha_body :: body

definition health_New :: health_handler where
  "health_New = \<lparr>hd_ready = False\<rparr>"

definition health_SetReady :: "health_handler \<Rightarrow> bool \<Rightarrow> health_handler" where
  "health_SetReady h r = h\<lparr>hd_ready := r\<rparr>"

definition health_IsReady :: "health_handler \<Rightarrow> bool" where
  "health_IsReady h = hd_ready h"

text \<open>\<open>response\<close> has one field, with the tag \<open>status\<close>.\<close>

definition writeResponse :: "nat \<Rightarrow> string \<Rightarrow> health_answer" where
  "writeResponse statusCode status =
     \<lparr>ha_status = statusCode, ha_content_type = ''application/json'',
      ha_body = Doc (JObj [(''status'', JStr status)])\<rparr>"

definition health_Liveness :: "health_handler \<Rightarrow> health_answer" where
  "health_Liveness h = writeResponse 200 ''UP''"

definition health_Readiness :: "health_handler \<Rightarrow> health_answer" where
  "health_Readiness h =
     (if \<not> health_IsReady h then writeResponse 503 ''DOWN'' else writeResponse 200 ''UP'')"

section \<open>The gateway's copy\<close>

definition writeStatus :: "nat \<Rightarrow> string \<Rightarrow> health_answer" where
  "writeStatus statusCode status =
     \<lparr>ha_status = statusCode, ha_content_type = ''application/json'',
      ha_body = Doc (j_map [(''status'', JStr status)])\<rparr>"

definition gateway_Liveness :: "health_handler \<Rightarrow> health_answer" where
  "gateway_Liveness h = writeStatus 200 ''UP''"

definition gateway_Readiness :: "health_handler \<Rightarrow> health_answer" where
  "gateway_Readiness h =
     (if \<not> health_IsReady h then writeStatus 503 ''DOWN'' else writeStatus 200 ''UP'')"

lemma writeStatus_writeResponse: "writeStatus = writeResponse"
  by (simp add: writeStatus_def writeResponse_def j_map_def fun_eq_iff)

lemma gateway_health: "gateway_Liveness = health_Liveness" "gateway_Readiness = health_Readiness"
  by (simp_all add: gateway_Liveness_def gateway_Readiness_def health_Liveness_def health_Readiness_def
      writeStatus_writeResponse fun_eq_iff)

section \<open>The handler and the history\<close>

text \<open>The handler a process holds after its calls.\<close>

definition health_after :: "life \<Rightarrow> health_handler" where
  "health_after h =
     fold (\<lambda>c k. case c of SetReady r \<Rightarrow> health_SetReady k r | _ \<Rightarrow> k) (map fst h) health_New"

lemma health_after_ready:
  "hd_ready (fold (\<lambda>c k. case c of SetReady r \<Rightarrow> health_SetReady k r | _ \<Rightarrow> k) cs k)
     = ready_after (hd_ready k) cs"
  by (induction cs arbitrary: k) (auto simp: health_SetReady_def split: life_call.splits)

lemma health_refines_ready: "health_IsReady (health_after h) = IsReady h"
  by (simp add: health_IsReady_def health_after_def health_after_ready IsReady_def health_New_def)

text \<open>So the answers of the handler are those the model of a process gives.\<close>

definition health_answered :: "nat \<times> string \<Rightarrow> health_answer" where
  "health_answered a = writeResponse (fst a) (snd a)"

lemma health_refines:
  "health_Liveness (health_after h) = health_answered (Liveness h)"
  "health_Readiness (health_after h) = health_answered (Readiness h)"
  by (simp_all add: health_Liveness_def health_Readiness_def health_answered_def Liveness_def Readiness_def
      health_refines_ready)

end
