(* ===== verification/App_Errors.thy ===== *)
theory App_Errors
  imports Consumers
begin

text \<open>
  The package \<open>pkg/errs\<close>: an error with an HTTP status, its constructors, and its JSON form. The
  code is left out of the JSON when it is zero, which \<open>AsMessage\<close> makes it.
\<close>

record app_error =
  ae_Code :: goint
  ae_Message :: string

definition AsMessage :: "app_error \<Rightarrow> app_error" where
  "AsMessage e = \<lparr>ae_Code = 0, ae_Message = ae_Message e\<rparr>"

definition NewNotFoundError :: "string \<Rightarrow> app_error" where
  "NewNotFoundError message = \<lparr>ae_Code = 404, ae_Message = message\<rparr>"

definition NewUnexpectedError :: "string \<Rightarrow> app_error" where
  "NewUnexpectedError message = \<lparr>ae_Code = 500, ae_Message = message\<rparr>"

definition NewValidationError :: "string \<Rightarrow> app_error" where
  "NewValidationError message = \<lparr>ae_Code = 422, ae_Message = message\<rparr>"

definition NewAuthenticationError :: "string \<Rightarrow> app_error" where
  "NewAuthenticationError message = \<lparr>ae_Code = 401, ae_Message = message\<rparr>"

definition NewAuthorizationError :: "string \<Rightarrow> app_error" where
  "NewAuthorizationError message = \<lparr>ae_Code = 403, ae_Message = message\<rparr>"

text \<open>What the tags of the struct make of a value, and what reads it back.\<close>

definition app_error_json :: "app_error \<Rightarrow> json" where
  "app_error_json e =
     JObj ((if ae_Code e = 0 then [] else [(''Code'', j_int (ae_Code e))]) @ [(''message'', JStr (ae_Message e))])"

definition app_error_fields :: "string \<Rightarrow> app_error dec option" where
  "app_error_fields k =
     (if k = ''code'' then Some (dec_field ae_Code (\<lambda>x. ae_Code_update (\<lambda>_. x)) dec_int)
      else if k = ''message'' then Some (dec_field ae_Message (\<lambda>x. ae_Message_update (\<lambda>_. x)) dec_string)
      else None)"

lemma app_error_roundtrip:
  "unmarshal app_error_fields \<lparr>ae_Code = 0, ae_Message = []\<rparr> (Doc (app_error_json e)) = Some e"
proof -
  have "fold_name ''Code'' = ''code''" "fold_name ''message'' = ''message''" by code_simp+
  then show ?thesis by (simp add: app_error_json_def app_error_fields_def dec_field_def del: fold_name.simps)
qed

text \<open>As a message an error keeps its text and shows no code; taking it twice changes nothing.\<close>

lemma AsMessage_json: "app_error_json (AsMessage e) = JObj [(''message'', JStr (ae_Message e))]"
  by (simp add: app_error_json_def AsMessage_def)

lemma AsMessage_idem: "AsMessage (AsMessage e) = AsMessage e"
  by (simp add: AsMessage_def)

text \<open>Every constructor gives a status of its own, a client's error or a server's, which JSON shows.\<close>

lemma app_error_codes:
  "map ae_Code (map (\<lambda>make. make m)
     [NewNotFoundError, NewUnexpectedError, NewValidationError, NewAuthenticationError, NewAuthorizationError])
   = [404, 500, 422, 401, 403]"
  by (simp add: NewNotFoundError_def NewUnexpectedError_def NewValidationError_def NewAuthenticationError_def
      NewAuthorizationError_def)

end
