(* ===== verification/Configuration.thy ===== *)
theory Configuration
  imports Wiring Gateway_App Order_Module Inventory_Module Catalog_Write_Module Catalog_Read_Module
begin

text \<open>
  The configuration files of the gateway and the services, \<open>config.production.json\<close> and
  \<open>config.development.json\<close>, section by section (\<open>Wiring\<close> holds their section \<open>rabbitMQOptions\<close>).
  Secrets are empty in the files and come from the environment. Started with them, no constructor
  of options fails, and the gateway calls the ports on which the services listen.
\<close>

datatype profile = Production | Development

section \<open>The sections\<close>

definition log_config :: "profile \<Rightarrow> string" where
  "log_config p = (case p of Production \<Rightarrow> ''info'' | Development \<Rightarrow> ''debug'')"

definition order_app_config :: AppOptions where
  "order_app_config = \<lparr>apo_GRPCPort = ''6005'', apo_HealthPort = ''7005''\<rparr>"

definition write_app_config :: AppOptions where
  "write_app_config = \<lparr>apo_GRPCPort = ''6002'', apo_HealthPort = ''7002''\<rparr>"

definition read_app_config :: AppOptions where
  "read_app_config = \<lparr>apo_GRPCPort = ''6001'', apo_HealthPort = ''7001''\<rparr>"

definition inventory_app_config :: InventoryAppOptions where
  "inventory_app_config = \<lparr>iao_HealthPort = ''7004''\<rparr>"

definition postgres_config :: "profile \<Rightarrow> string \<Rightarrow> string \<Rightarrow> string \<Rightarrow> PostgresOptions" where
  "postgres_config p user password database =
     \<lparr>pgo_Host = (case p of Production \<Rightarrow> ''postgres'' | Development \<Rightarrow> ''127.0.0.1''), pgo_Port = ''5432'',
      pgo_User = user, pgo_Password = password, pgo_Database = database, pgo_SSLMode = ''disable'',
      pgo_ConnectionTimeout = seconds 5\<rparr>"

definition order_postgres_config :: "profile \<Rightarrow> string \<Rightarrow> PostgresOptions" where
  "order_postgres_config p password = postgres_config p ''order_user'' password ''order_db''"

definition inventory_postgres_config :: "profile \<Rightarrow> string \<Rightarrow> PostgresOptions" where
  "inventory_postgres_config p password = postgres_config p ''inventory_user'' password ''inventory_db''"

definition write_postgres_config :: "profile \<Rightarrow> string \<Rightarrow> PostgresOptions" where
  "write_postgres_config p password = postgres_config p ''catalog_write_user'' password ''catalog_write_db''"

definition mongo_config :: "string \<Rightarrow> MongoOptions" where
  "mongo_config uri = \<lparr>mgo_URI = uri, mgo_Database = ''catalog_read_db'', mgo_ConnectionTimeout = seconds 5\<rparr>"

definition redis_config :: "string \<Rightarrow> RedisOptions" where
  "redis_config password =
     \<lparr>rdo_Addr = ''localhost:6379'', rdo_Password = password, rdo_DB = 0, rdo_ConnectionTimeout = seconds 5\<rparr>"

definition elasticsearch_config :: "profile \<Rightarrow> ElasticsearchOptions" where
  "elasticsearch_config p =
     \<lparr>eso_URL = (case p of Production \<Rightarrow> ''http://elasticsearch:9200'' | Development \<Rightarrow> ''http://localhost:9200''),
      eso_ProductsIndex = ''catalog-products'', eso_ConnectionTimeout = seconds 5\<rparr>"

definition gateway_config :: "profile \<Rightarrow> GatewayOptions" where
  "gateway_config p =
     \<lparr>gwo_AppPort = ''8080'', gwo_ManagementPort = ''7070'',
      gwo_CatalogReadGrpcAddr = (case p of Production \<Rightarrow> ''catalog-read-service:6001'' | Development \<Rightarrow> ''127.0.0.1:6001''),
      gwo_CatalogWriteGrpcAddr = (case p of Production \<Rightarrow> ''catalog-write-service:6002'' | Development \<Rightarrow> ''127.0.0.1:6002''),
      gwo_OrderGrpcUrl = (case p of Production \<Rightarrow> ''order-service:6005'' | Development \<Rightarrow> ''127.0.0.1:6005''),
      gwo_RequestTimeout = seconds 10, gwo_GRPCReadTimeout = seconds 5, gwo_GRPCWriteTimeout = seconds 8,
      gwo_ReadHeaderTimeout = seconds 5, gwo_ReadTimeout = seconds 15, gwo_WriteTimeout = seconds 15,
      gwo_IdleTimeout = seconds 60\<rparr>"

section \<open>The environments of the processes\<close>

text \<open>What a process loads; \<open>mk\<close> is what building the logger returns.\<close>

definition order_environment ::
  "profile \<Rightarrow> string \<Rightarrow> string \<Rightarrow> (string \<Rightarrow> string \<Rightarrow> err option) \<Rightarrow> order_env" where
  "order_environment p password url mk =
     \<lparr>se_app = Inr order_app_config, se_postgres = Inr (order_postgres_config p password),
      se_rabbit = Inr (order_config url), se_log = Inr (log_config p), se_logger = mk\<rparr>"

definition inventory_environment ::
  "profile \<Rightarrow> string \<Rightarrow> string \<Rightarrow> (string \<Rightarrow> string \<Rightarrow> err option)
   \<Rightarrow> (InventoryAppOptions, InventoryRabbitMQOptions) service_env" where
  "inventory_environment p password url mk =
     \<lparr>se_app = Inr inventory_app_config, se_postgres = Inr (inventory_postgres_config p password),
      se_rabbit = Inr (inventory_config url), se_log = Inr (log_config p), se_logger = mk\<rparr>"

definition write_environment ::
  "profile \<Rightarrow> string \<Rightarrow> string \<Rightarrow> (string \<Rightarrow> string \<Rightarrow> err option) \<Rightarrow> write_env" where
  "write_environment p password url mk =
     \<lparr>se_app = Inr write_app_config, se_postgres = Inr (write_postgres_config p password),
      se_rabbit = Inr (catalog_write_config url), se_log = Inr (log_config p), se_logger = mk\<rparr>"

definition read_environment ::
  "profile \<Rightarrow> string \<Rightarrow> string \<Rightarrow> string \<Rightarrow> (string \<Rightarrow> string \<Rightarrow> err option) \<Rightarrow> read_env" where
  "read_environment p uri password url mk =
     \<lparr>re_app = Inr read_app_config, re_mongo = Inr (mongo_config uri), re_redis = Inr (redis_config password),
      re_elasticsearch = Inr (elasticsearch_config p), re_rabbit = Inr (catalog_read_config url),
      re_log = Inr (log_config p), re_logger = mk\<rparr>"

section \<open>The files are accepted\<close>

lemma seconds_positive: "0 < n \<Longrightarrow> n \<le> 60 \<Longrightarrow> sint (seconds n) = int n * 1000000000"
proof -
  assume "0 < n" "n \<le> 60"
  then have "sint (word_of_int (int n * 1000000000) :: goint) = int n * 1000000000"
    by (intro sint_of_int64) simp_all
  then show "sint (seconds n) = int n * 1000000000" by (simp add: seconds_def)
qed

lemmas option_checks = required.simps positive.simps or_else_def seconds_positive

lemma sections_accepted:
  "LogOptions_Validate (log_config p) = None"
  "AppOptions_Validate order_app_config = None"
  "catalog_write_AppOptions_Validate write_app_config = None"
  "catalog_read_AppOptions_Validate read_app_config = None"
  "InventoryAppOptions_Validate inventory_app_config = None"
  "ElasticsearchOptions_Validate (elasticsearch_config p) = None"
  "LoadRedisOptions (Inr (redis_config password)) = Inr (redis_config password)"
  "GatewayOptions_Validate (gateway_config p) = None"
  by (cases p; simp add: option_checks LogOptions_Validate_def log_config_def AppOptions_Validate_def
      order_app_config_def catalog_write_AppOptions_Validate_def write_app_config_def
      catalog_read_AppOptions_Validate_def read_app_config_def InventoryAppOptions_Validate_def
      inventory_app_config_def ElasticsearchOptions_Validate_def elasticsearch_config_def LoadRedisOptions_def
      redis_config_def GatewayOptions_Validate_def gateway_config_def)+

lemma secret_sections_accepted:
  assumes "password \<noteq> []" and "uri \<noteq> []"
  shows "PostgresOptions_Validate (order_postgres_config p password) = None"
    and "inventory_PostgresOptions_Validate (inventory_postgres_config p password) = None"
    and "catalog_PostgresOptions_Validate (write_postgres_config p password) = None"
    and "MongoOptions_Validate (mongo_config uri) = None"
  using assms
  by (cases p; simp add: option_checks PostgresOptions_Validate_def inventory_PostgresOptions_Validate_def
      catalog_PostgresOptions_Validate_def order_postgres_config_def inventory_postgres_config_def
      write_postgres_config_def postgres_config_def MongoOptions_Validate_def mongo_config_def)+

text \<open>Without a password the checks of the three services with a database refuse the files.\<close>

lemma password_required:
  "PostgresOptions_Validate (order_postgres_config p []) = Some (Msg ''postgresOptions.password is required'')"
  by (cases p) (simp_all add: option_checks PostgresOptions_Validate_def order_postgres_config_def postgres_config_def)

text \<open>So every constructor that needs options has them.\<close>

lemma order_options_provided:
  assumes "password \<noteq> []" and "url \<noteq> []"
  shows "order_provideAppOptions (order_environment p password url mk) = Inr order_app_config"
    and "order_providePostgresOptions (order_environment p password url mk) = Inr (order_postgres_config p password)"
    and "order_provideRabbitMQOptions (order_environment p password url mk) = Inr (order_config url)"
  using sections_accepted secret_sections_accepted [OF assms(1,1)] configs_accepted [OF assms(2)]
  by (simp_all add: order_environment_def order_provideAppOptions_def order_providePostgresOptions_def
      order_provideRabbitMQOptions_def provide_options_Inr)

lemma inventory_options_provided:
  assumes "password \<noteq> []" and "url \<noteq> []"
  shows "inventory_provideAppOptions (inventory_environment p password url mk) = Inr inventory_app_config"
    and "inventory_providePostgresOptions (inventory_environment p password url mk)
           = Inr (inventory_postgres_config p password)"
    and "inventory_provideRabbitMQOptions (inventory_environment p password url mk) = Inr (inventory_config url)"
  using sections_accepted secret_sections_accepted [OF assms(1,1)] configs_accepted [OF assms(2)]
  by (simp_all add: inventory_environment_def inventory_provideAppOptions_def inventory_providePostgresOptions_def
      inventory_provideRabbitMQOptions_def provide_options_Inr)

lemma write_options_provided:
  assumes "password \<noteq> []" and "url \<noteq> []"
  shows "write_provideAppOptions (write_environment p password url mk) = Inr write_app_config"
    and "write_providePostgresOptions (write_environment p password url mk) = Inr (write_postgres_config p password)"
    and "write_provideRabbitMQOptions (write_environment p password url mk) = Inr (catalog_write_config url)"
  using sections_accepted secret_sections_accepted [OF assms(1,1)] configs_accepted [OF assms(2)]
  by (simp_all add: write_environment_def write_provideAppOptions_def write_providePostgresOptions_def
      write_provideRabbitMQOptions_def provide_options_Inr)

lemma read_options_provided:
  assumes "uri \<noteq> []" and "url \<noteq> []"
  shows "read_provideAppOptions (read_environment p uri password url mk) = Inr read_app_config"
    and "read_provideMongoOptions (read_environment p uri password url mk) = Inr (mongo_config uri)"
    and "read_provideElasticsearchOptions (read_environment p uri password url mk) = Inr (elasticsearch_config p)"
    and "read_provideRabbitMQOptions (read_environment p uri password url mk) = Inr (catalog_read_config url)"
    and "LoadRedisOptions (re_redis (read_environment p uri password url mk)) = Inr (redis_config password)"
  using sections_accepted secret_sections_accepted [OF assms(1,1)] configs_accepted [OF assms(2)]
  by (simp_all add: read_environment_def read_provideAppOptions_def read_provideMongoOptions_def
      read_provideElasticsearchOptions_def read_provideRabbitMQOptions_def provide_options_Inr)

section \<open>Addresses and ports\<close>

text \<open>The gateway dials each service on the port on which the service's gRPC server listens.\<close>

definition service_address :: "profile \<Rightarrow> string \<Rightarrow> AppOptions \<Rightarrow> string" where
  "service_address p name options =
     (case p of Production \<Rightarrow> name | Development \<Rightarrow> ''127.0.0.1'') @ '':'' @ apo_GRPCPort options"

lemma gateway_addresses:
  "gwo_OrderGrpcUrl (gateway_config p) = service_address p ''order-service'' order_app_config"
  "gwo_CatalogWriteGrpcAddr (gateway_config p) = service_address p ''catalog-write-service'' write_app_config"
  "gwo_CatalogReadGrpcAddr (gateway_config p) = service_address p ''catalog-read-service'' read_app_config"
  by (cases p; simp add: gateway_config_def service_address_def order_app_config_def write_app_config_def
      read_app_config_def)+

text \<open>On one host, as in development, no two servers ask for the same port.\<close>

definition listened_ports :: "profile \<Rightarrow> string list" where
  "listened_ports p =
     [apo_GRPCPort order_app_config, apo_HealthPort order_app_config, apo_GRPCPort write_app_config,
      apo_HealthPort write_app_config, apo_GRPCPort read_app_config, apo_HealthPort read_app_config,
      iao_HealthPort inventory_app_config, gwo_AppPort (gateway_config p), gwo_ManagementPort (gateway_config p)]"

lemma ports_distinct: "distinct (listened_ports p)"
  by (simp add: listened_ports_def order_app_config_def write_app_config_def read_app_config_def
      inventory_app_config_def gateway_config_def)

text \<open>Each service has a database and a user of its own.\<close>

lemma databases_distinct:
  "distinct (map pgo_Database
     [order_postgres_config p w1, inventory_postgres_config p w2, write_postgres_config p w3])"
  "distinct (map pgo_User
     [order_postgres_config p w1, inventory_postgres_config p w2, write_postgres_config p w3])"
  by (simp_all add: order_postgres_config_def inventory_postgres_config_def write_postgres_config_def
      postgres_config_def)

end
