(* ===== verification/Spec2Isabelle.thy ===== *)
theory Spec2Isabelle
  imports Saga_Properties Inventory_Concurrency_Properties Order_Concurrency_Properties Catalog_Search_Properties
    Gateway_Properties Lifecycle_Properties Gateway_Lifecycle Loading Service_Main Module_Types Outbox_Copies
    Health App_Errors Configuration
begin

text \<open>
  A verification development for the commerce services under \<open>src/\<close>: an API gateway and four
  services that talk over gRPC and RabbitMQ.

  \<^bold>\<open>The program.\<close> A client posts orders and products to the gateway (\<open>api-gateway\<close>), which calls
  the services over gRPC. The order service stores an order as PENDING together with an event in
  its outbox table; its outbox worker publishes the event; the inventory's consumer reserves the
  stock and stores an answer in its own outbox in the same transaction; its worker publishes the
  answer; and one of the order service's two consumers marks the order CONFIRMED or FAILED,
  retrying over a delay queue and giving up into a dead-letter queue. The catalog's write side
  stores products with events in the same way; its read side projects the events into a read
  model in MongoDB behind a cache in Redis, and into a search index in Elasticsearch.

  \<^bold>\<open>What stands for what.\<close> Every function and handler of the code is a definition of the same
  name, or of the name with its component in front (\<open>server_CreateOrder\<close> is the method of the
  gRPC server, \<open>service_CreateOrder\<close> that of the service, \<open>handler_CreateOrder\<close> that of the HTTP
  handler). Structs are records whose fields have a short prefix. \<open>int\<close> and \<open>int32\<close> are words of
  64 and 32 bits, \<open>float64\<close> is IEEE 754 with its roundings (\<open>Go_Float\<close>), a UUID is its 128 bits,
  strings are their bytes. An \<open>error\<close> result is \<open>err option\<close> or a sum; every early return is a
  branch. State is passed explicitly: the databases, and the channel as the history of calls made
  on it.

  \<^bold>\<open>Theories.\<close>

  \<^item> The language: \<open>Go_Prelude\<close> (errors, integers, sequencing), \<open>Go_Float\<close>, \<open>Go_Json\<close> and
    \<open>Json_Same\<close> (marshalling, decoding, documents that hold the same value), \<open>Go_Strings\<close>.
  \<^item> What the services stand on: \<open>Gorm\<close> (tables and transactions of PostgreSQL), \<open>Amqp\<close> (RabbitMQ),
    \<open>Ozzo\<close> (validation rules). These are parameters, records of functions, with their documented
    behaviour as laws (\<open>gorm_laws\<close>, \<open>tx_laws\<close>, \<open>ozzo_laws\<close>); \<open>Gorm_Reference\<close>, \<open>Amqp_Reference\<close> and
    \<open>Catalog_Reference\<close> give computing instances of them, on which the witnesses run.
  \<^item> Shared by the services: \<open>Publisher\<close> (\<open>rabbitmq_publisher.go\<close>), \<open>Outbox\<close>
    (\<open>outbox_repository_pg.go\<close>, \<open>outbox_worker.go\<close>), \<open>Inbox\<close> (\<open>inbox_message_repository_pg.go\<close>),
    \<open>Consumers\<close> (the loop and the setup of a consumer), \<open>Options\<close> (the option files and
    \<open>configloader\<close>), \<open>Loading\<close> (the bindings of each option file), \<open>Outbox_Copies\<close> (the worker with
    its ticker, and each service's copy of the outbox and the publisher's constructor, proved to be
    the shared code), \<open>Health\<close> (\<open>health/handler.go\<close>), \<open>App_Errors\<close> (\<open>pkg/errs\<close>).
  \<^item> \<open>order-service\<close>: \<open>Order_Domain\<close> (\<open>domain\<close>, \<open>dto\<close>), \<open>Order_Repository\<close>, \<open>Order_Service\<close>,
    \<open>Order_Server\<close> (\<open>adapter/grpc\<close>), \<open>Retry_Policy\<close> and \<open>Order_Consumers\<close> (\<open>adapter/messaging\<close>),
    \<open>Order_System\<close> (all of them on one database), \<open>Order_Types\<close> (what its tables hold) and
    \<open>Order_Concurrency\<close> (its settlements interleaved statement by statement).
  \<^item> \<open>inventory-service\<close>: \<open>Inventory_Repository\<close>, \<open>Inventory_Service\<close>, \<open>Inventory_Consumer\<close>, and
    \<open>Inventory_Concurrency\<close> (reservations interleaved statement by statement under row locks).
  \<^item> The two services together: \<open>Wire\<close> (what one writes and the other reads) and \<open>Saga\<close> (their
    interleaved runs).
  \<^item> \<open>catalog-write-service\<close>: \<open>Catalog_Write\<close>; \<open>catalog-read-service\<close>: \<open>Catalog_Stores\<close>,
    \<open>Catalog_Read\<close>, \<open>Catalog_Read_Service\<close>, \<open>Catalog_Search\<close>, and \<open>Catalog_Views\<close> (the read model
    and the search index side by side).
  \<^item> \<open>api-gateway\<close>: \<open>Gateway\<close> (bodies, clients, handlers) and \<open>Gateway_App\<close> (options, routes,
    metrics).
  \<^item> Starting and stopping: \<open>Lifecycle\<close> (calls, hooks, health, the framework), \<open>Lifecycle_Calls\<close> (their
    order), \<open>Service_Module\<close> (what every module shares), \<open>Module_Parts\<close> (constructors, connections),
    \<open>Order_Module\<close>, \<open>Inventory_Module\<close>, \<open>Catalog_Write_Module\<close>, \<open>Catalog_Read_Module\<close> (the four
    \<open>app/module.go\<close>), \<open>Module_Types\<close> (their constructors' types, from which the framework finds the
    parameters, and what it constructs from a list of constructors), \<open>Service_Main\<close> (the four \<open>cmd/main.go\<close>), \<open>Gateway_Lifecycle\<close>
    (\<open>app/application.go\<close>, \<open>cmd/main.go\<close>).
  \<^item> \<open>Wiring\<close>: the consumers and workers built from the options of the configuration files, and the
    queues their events reach. \<open>Configuration\<close>: the other sections of the files, and the ports and
    addresses in them.
  \<^item> The properties, numbered C1 and on, with a witness each: \<open>Order_Properties\<close>,
    \<open>Inventory_Properties\<close>, \<open>Inventory_Concurrency_Properties\<close>, \<open>Order_Concurrency_Properties\<close>,
    \<open>Messaging_Properties\<close>, \<open>Saga_Properties\<close>, \<open>Catalog_Properties\<close>, \<open>Catalog_Search_Properties\<close>,
    \<open>Gateway_Properties\<close>, \<open>Lifecycle_Properties\<close>, and one each in \<open>Gateway_Lifecycle\<close> and \<open>Wiring\<close>.

  \<^bold>\<open>What the lemmas show.\<close> Each repository has a lemma that lists the outcomes of each operation on
  its rows (committed, rolled back, or committed with a lost reply); each service a lemma that
  follows every branch over them. Invariants (the inventory's ledger, the reservations of an
  order, the coherence of the cache, the saga) are proved step by step and lifted to runs by rule
  induction; in the runs any call may fail, messages may be delivered late, in another order and
  again. Where two processes work on one database, \<open>Inventory_Concurrency\<close> and \<open>Order_Concurrency\<close>
  interleave their statements: the row locks make overlapping reservations as if one had run after
  the other, a common order of locking excludes the deadlock that opposite orders reach, and
  overlapping settlements move every order along its life only. The tables of the order service stay
  typed through every run. \<open>order_life\<close> is the abstract life of an order, which every step of the
  order service implements; the search index implements the same view as the read model. The interfaces of the
  code (\<open>internal/port\<close>) are locales, interpreted on the repositories of the model:
  \<open>event_publisher\<close>, \<open>outbox_repository\<close>, \<open>settlement_ports\<close>, \<open>reserve_service\<close>, \<open>read_stores\<close> and
  \<open>product_search\<close>; \<open>outbox_worker\<close> joins two of them. The locale \<open>service_module\<close> holds what the
  framework does with any module (in which order hooks are appended, started and stopped), and is
  interpreted on the four of them.

  \<^bold>\<open>Bounds and loops.\<close> The loops that wait (\<open>select\<close> over a channel or a ticker) run over the list
  of the events they receive, and end with None, still waiting, when the list is empty; the other
  loops are structural recursion. The outbox batch and the page of a search have the code's sizes.

  \<^bold>\<open>Read with.\<close> Instants and durations that only bound a call are integers of nanoseconds. A
  deadline is modelled as the error it makes a call return. Strings are taken to be valid UTF-8,
  as Protocol Buffers and JSON require. Log output is left out.

  \<^bold>\<open>The processes.\<close> Starting and stopping are modelled apart from the work in between: what a process
  does to the outside is a list of calls with their outcomes. The framework \<open>fx\<close> is a parameter:
  \<open>fx_order\<close> lists the orders in which it may call the constructors, \<open>fx_laws\<close> says how it runs the
  hooks, deadlines included.

  \<^bold>\<open>Not modelled.\<close> Pool sizes and the contents of the log, the registration of metrics with the
  Prometheus library (\<open>registry.go\<close>), the generated code (\<open>api/gen\<close>, mocks, \<open>docs.go\<close>), and the tests.
  \<open>notification-service\<close> has no code.
\<close>

end
